(* ===== verification/Go_Base.thy ===== *)
theory Go_Base
  imports Main
begin

text \<open>
  The prelude of the development: what every component shares. Go errors are values of
  one datatype \<open>error\<close>, whose constructors are the sentinel errors of the packages and
  the values \<^verbatim>\<open>fmt.Errorf\<close> builds around an error (\<open>Wrapped m e\<close> for \<^verbatim>\<open>"m: %w"\<close>,
  \<open>WrappedAs e m\<close> for \<^verbatim>\<open>"%w: m"\<close>); a fallible function
  returns \<open>error + 'a\<close>. A \<^verbatim>\<open>time.Time\<close> is the number of nanoseconds since the
  zero time of Go (1 January of year 1), so the zero time is \<open>0\<close>; a
  \<^verbatim>\<open>time.Duration\<close> is a number of nanoseconds. A Go map is a partial function, and a
  loop that ranges over a Go map takes the iteration order as a list of its keys, because
  Go leaves that order open.
\<close>

section \<open>Collections of facts\<close>

named_theorems step_defs \<open>definitions of the operations of a component, for unfolding\<close>
named_theorems inv_intros \<open>introduction rules that build an invariant from its parts\<close>

section \<open>Errors\<close>

datatype error =
    ErrInvalidInput | ErrNotFound | ErrConflict | ErrCapacityExhausted
  | ErrDeviceNotActive | ErrDeviceAlreadyAllocated
  | ErrInvalidCredentials | ErrInvalidPasswordHash
  | ErrInvalidSnapshot | ErrInvalidSignature | ErrNoDelivery
  | ErrInvalidOperation | ErrInvalidTransport | ErrInvalidTLSConfiguration
  | ErrText string
  | Wrapped string error
  | WrappedAs error string

type_synonym 'a result = "error + 'a"

text \<open>\<^verbatim>\<open>errors.Is\<close> on a sentinel: the error itself or one it wraps.\<close>

fun errors_is :: "error \<Rightarrow> error \<Rightarrow> bool" where
  "errors_is (Wrapped m e) t = (Wrapped m e = t \<or> errors_is e t)"
| "errors_is (WrappedAs e m) t = (WrappedAs e m = t \<or> errors_is e t)"
| "errors_is e t = (e = t)"

text \<open>\<^verbatim>\<open>err.Error()\<close>: the text of an error, the wrapping text before the wrapped one.\<close>

fun error_text :: "error \<Rightarrow> string" where
  "error_text ErrInvalidInput = ''invalid input''"
| "error_text ErrNotFound = ''resource not found''"
| "error_text ErrConflict = ''resource conflict''"
| "error_text ErrCapacityExhausted = ''region capacity exhausted''"
| "error_text ErrDeviceNotActive = ''device is not active''"
| "error_text ErrDeviceAlreadyAllocated = ''device already has an active tunnel''"
| "error_text ErrInvalidCredentials = ''invalid credentials''"
| "error_text ErrInvalidPasswordHash = ''invalid password hash''"
| "error_text ErrInvalidSnapshot = ''invalid gateway snapshot''"
| "error_text ErrInvalidSignature = ''invalid gateway snapshot signature''"
| "error_text ErrNoDelivery = ''no snapshot delivery available''"
| "error_text ErrInvalidOperation = ''invalid gateway operation''"
| "error_text ErrInvalidTransport = ''invalid agent transport configuration''"
| "error_text ErrInvalidTLSConfiguration = ''invalid agent TLS configuration''"
| "error_text (ErrText m) = m"
| "error_text (Wrapped m e) = m @ '': '' @ error_text e"
| "error_text (WrappedAs e m) = error_text e @ '': '' @ m"

lemma errors_is_refl [simp]: "errors_is e e"
  by (cases e) auto

section \<open>Time\<close>

type_synonym time = int
type_synonym duration = int

abbreviation nanosecond :: duration where "nanosecond \<equiv> 1"
abbreviation second :: duration where "second \<equiv> 1000000000"
abbreviation minute :: duration where "minute \<equiv> 60 * second"
abbreviation hour :: duration where "hour \<equiv> 60 * minute"

definition time_before :: "time \<Rightarrow> time \<Rightarrow> bool" where
  "time_before a b \<longleftrightarrow> a < b"

definition time_after :: "time \<Rightarrow> time \<Rightarrow> bool" where
  "time_after a b \<longleftrightarrow> b < a"

definition time_is_zero :: "time \<Rightarrow> bool" where
  "time_is_zero t \<longleftrightarrow> t = 0"

section \<open>Maps and their iteration order\<close>

text \<open>An iteration order of a Go map: its keys, each once.\<close>

definition iter_order :: "('k \<rightharpoonup> 'v) \<Rightarrow> 'k list \<Rightarrow> bool" where
  "iter_order m ks \<longleftrightarrow> distinct ks \<and> set ks = dom m"

lemma iter_orderD:
  assumes "iter_order m ks"
  shows "distinct ks" and "set ks = dom m"
  using assms by (auto simp: iter_order_def)

lemma iter_order_finite: "iter_order m ks \<Longrightarrow> finite (dom m)"
  by (metis iter_order_def finite_set)

lemma iter_order_ex: "finite (dom m) \<Longrightarrow> \<exists>ks. iter_order m ks"
  by (metis iter_order_def finite_distinct_list)

section \<open>Results\<close>

fun is_ok :: "'a result \<Rightarrow> bool" where
  "is_ok (Inl _) = False"
| "is_ok (Inr _) = True"

lemma is_ok_iff: "is_ok r \<longleftrightarrow> (\<exists>x. r = Inr x)"
  by (cases r) auto

section \<open>Lists\<close>

lemma find_Some_mem: "find P xs = Some x \<Longrightarrow> x \<in> set xs \<and> P x"
  by (induction xs) (auto split: if_splits)

lemma find_None_all: "find P xs = None \<longleftrightarrow> (\<forall>x\<in>set xs. \<not> P x)"
  by (induction xs) auto

lemma distinct_map_inj_unique:
  "distinct (map f xs) \<Longrightarrow> x \<in> set xs \<Longrightarrow> y \<in> set xs \<Longrightarrow> f x = f y \<Longrightarrow> x = y"
  by (auto simp: distinct_map inj_on_def)

text \<open>A property checked by evaluation on an interval of numbers.\<close>

lemma list_all_uptD: "list_all P [m..<n] \<Longrightarrow> m \<le> k \<Longrightarrow> k < n \<Longrightarrow> P k"
  by (simp add: list_all_iff)

lemma list_all_conj_set: "list_all P xs \<longleftrightarrow> (\<forall>x\<in>set xs. P x)"
  by (simp add: list_all_iff)

end
