(* ===== verification/Go_Strings.thy ===== *)
theory Go_Strings
  imports Go_Base "HOL-Library.Char_ord" "HOL-Library.List_Lexorder" "HOL-Library.Code_Target_Nat"
begin

text \<open>
  The functions of \<^verbatim>\<open>strings\<close>, \<^verbatim>\<open>strconv\<close> and \<^verbatim>\<open>fmt\<close> that the services call. A Go
  string is a sequence of bytes, and so is a \<open>string\<close> here (a \<open>char\<close> is one
  byte); lengths count bytes as Go's \<^verbatim>\<open>len\<close> does. White space is Unicode's, written as
  the UTF-8 byte sequences of the white space code points. The only part of Unicode that
  stays a parameter is the case table of non-ASCII letters (\<open>ulow\<close> of \<open>toLower\<close>).
\<close>

section \<open>Prefixes, separators, membership\<close>

definition hasPrefix :: "string \<Rightarrow> string \<Rightarrow> bool" where
  "hasPrefix s p \<longleftrightarrow> take (length p) s = p"

definition trimPrefix :: "string \<Rightarrow> string \<Rightarrow> string" where
  "trimPrefix s p = (if hasPrefix s p then drop (length p) s else s)"

definition containsAny :: "string \<Rightarrow> string \<Rightarrow> bool" where
  "containsAny s chars \<longleftrightarrow> list_ex (\<lambda>c. c \<in> set chars) s"

lemma hasPrefix_iff: "hasPrefix s p \<longleftrightarrow> (\<exists>r. s = p @ r)"
  by (auto simp: hasPrefix_def intro: exI [of _ "drop (length p) s"])
     (metis append_take_drop_id)

lemma hasPrefix_append [simp]: "hasPrefix (p @ s) p"
  by (simp add: hasPrefix_def)

lemma trimPrefix_append [simp]: "trimPrefix (p @ s) p = s"
  by (simp add: trimPrefix_def)

lemma containsAny_iff: "containsAny s cs \<longleftrightarrow> (\<exists>c\<in>set s. c \<in> set cs)"
  by (auto simp: containsAny_def list_ex_iff)

lemma containsAny_append [simp]:
  "containsAny (s @ t) cs \<longleftrightarrow> containsAny s cs \<or> containsAny t cs"
  by (auto simp: containsAny_def)

text \<open>\<^verbatim>\<open>strings.Split\<close> and \<^verbatim>\<open>strings.SplitN(s, sep, 2)\<close> for a one-byte separator.\<close>

fun splitOn :: "char \<Rightarrow> string \<Rightarrow> string list" where
  "splitOn d [] = [[]]"
| "splitOn d (c # s) =
     (if c = d then [] # splitOn d s
      else (case splitOn d s of [] \<Rightarrow> [[c]] | w # ws \<Rightarrow> (c # w) # ws))"

fun splitN2 :: "char \<Rightarrow> string \<Rightarrow> string list" where
  "splitN2 d [] = [[]]"
| "splitN2 d (c # s) =
     (if c = d then [[], s]
      else (case splitN2 d s of [] \<Rightarrow> [[c]] | w # ws \<Rightarrow> (c # w) # ws))"

fun joinWith :: "char \<Rightarrow> string list \<Rightarrow> string" where
  "joinWith d [] = []"
| "joinWith d [w] = w"
| "joinWith d (w # ws) = w @ d # joinWith d ws"

lemma splitOn_nonempty [simp]: "splitOn d s \<noteq> []"
  by (induction s) (auto split: list.splits)

lemma splitOn_none: "d \<notin> set s \<Longrightarrow> splitOn d s = [s]"
  by (induction s) auto

lemma splitOn_append: "d \<notin> set w \<Longrightarrow> splitOn d (w @ d # s) = w # splitOn d s"
  by (induction w) auto

lemma splitN2_none: "d \<notin> set s \<Longrightarrow> splitN2 d s = [s]"
  by (induction s) auto

lemma splitN2_append: "d \<notin> set w \<Longrightarrow> splitN2 d (w @ d # s) = [w, s]"
  by (induction w) auto

lemma splitOn_join:
  "ws \<noteq> [] \<Longrightarrow> \<forall>w\<in>set ws. d \<notin> set w \<Longrightarrow> splitOn d (joinWith d ws) = ws"
  by (induction d ws rule: joinWith.induct) (auto simp: splitOn_none splitOn_append)

section \<open>White space\<close>

text \<open>The UTF-8 encodings of the code points of \<^verbatim>\<open>unicode.White_Space\<close>.\<close>

definition space_seqs :: "string list" where
  "space_seqs =
     [[CHR 0x09], [CHR 0x0A], [CHR 0x0B], [CHR 0x0C], [CHR 0x0D], [CHR 0x20],
      [CHR 0xC2, CHR 0x85], [CHR 0xC2, CHR 0xA0], [CHR 0xE1, CHR 0x9A, CHR 0x80],
      [CHR 0xE2, CHR 0x80, CHR 0x80], [CHR 0xE2, CHR 0x80, CHR 0x81],
      [CHR 0xE2, CHR 0x80, CHR 0x82], [CHR 0xE2, CHR 0x80, CHR 0x83],
      [CHR 0xE2, CHR 0x80, CHR 0x84], [CHR 0xE2, CHR 0x80, CHR 0x85],
      [CHR 0xE2, CHR 0x80, CHR 0x86], [CHR 0xE2, CHR 0x80, CHR 0x87],
      [CHR 0xE2, CHR 0x80, CHR 0x88], [CHR 0xE2, CHR 0x80, CHR 0x89],
      [CHR 0xE2, CHR 0x80, CHR 0x8A], [CHR 0xE2, CHR 0x80, CHR 0xA8],
      [CHR 0xE2, CHR 0x80, CHR 0xA9], [CHR 0xE2, CHR 0x80, CHR 0xAF],
      [CHR 0xE2, CHR 0x81, CHR 0x9F], [CHR 0xE3, CHR 0x80, CHR 0x80]]"

definition front_seq :: "string list \<Rightarrow> string \<Rightarrow> string option" where
  "front_seq ws s = find (\<lambda>w. w \<noteq> [] \<and> hasPrefix s w) ws"

lemma front_seq_Some:
  "front_seq ws s = Some w \<Longrightarrow> w \<in> set ws \<and> w \<noteq> [] \<and> hasPrefix s w"
  by (auto simp: front_seq_def dest: find_Some_mem)

lemma front_seq_shrinks: "front_seq ws s = Some w \<Longrightarrow> length s - length w < length s"
  by (drule front_seq_Some) (cases s, auto simp: hasPrefix_def neq_Nil_conv)

function trim_front :: "string list \<Rightarrow> string \<Rightarrow> string" where
  "trim_front ws s =
     (case front_seq ws s of None \<Rightarrow> s | Some w \<Rightarrow> trim_front ws (drop (length w) s))"
  by pat_completeness auto
termination
  by (relation "measure (\<lambda>(ws, s). length s)") (auto dest: front_seq_shrinks)

declare trim_front.simps [simp del]

text \<open>
  \<^verbatim>\<open>strings.TrimSpace\<close>: white space code points are removed from both ends. Trimming
  the end is trimming the front of the reversed string with the reversed sequences.
\<close>

definition trimSpace :: "string \<Rightarrow> string" where
  "trimSpace s = rev (trim_front (map rev space_seqs) (rev (trim_front space_seqs s)))"

lemma trim_front_suffix: "\<exists>a. s = a @ trim_front ws s"
proof (induction ws s rule: trim_front.induct)
  case (1 ws s)
  show ?case
  proof (cases "front_seq ws s")
    case None
    then show ?thesis by (simp add: trim_front.simps)
  next
    case (Some w)
    with 1 obtain a where "drop (length w) s = a @ trim_front ws (drop (length w) s)" by blast
    with Some have "s = (take (length w) s @ a) @ trim_front ws s"
      by (simp add: trim_front.simps [of ws s])
    then show ?thesis by blast
  qed
qed

lemma trim_front_none: "front_seq ws (trim_front ws s) = None"
proof (induction ws s rule: trim_front.induct)
  case (1 ws s)
  then show ?case
    by (cases "front_seq ws s") (simp_all add: trim_front.simps [of ws s])
qed

lemma trim_front_fixed: "front_seq ws s = None \<Longrightarrow> trim_front ws s = s"
  by (simp add: trim_front.simps)

lemma trim_front_Nil [simp]: "trim_front ws [] = []"
  by (metis Nil_is_append_conv trim_front_suffix)

lemma trimSpace_sublist: "\<exists>a b. s = a @ trimSpace s @ b"
proof -
  obtain a where a: "s = a @ trim_front space_seqs s" using trim_front_suffix by blast
  obtain b where "rev (trim_front space_seqs s)
      = b @ trim_front (map rev space_seqs) (rev (trim_front space_seqs s))"
    using trim_front_suffix by blast
  then have "trim_front space_seqs s = trimSpace s @ rev b"
    unfolding trimSpace_def by (metis rev_append rev_rev_ident)
  with a show ?thesis by metis
qed

lemma length_trimSpace: "length (trimSpace s) \<le> length s"
proof -
  obtain a b where "s = a @ trimSpace s @ b" using trimSpace_sublist by blast
  then have "length s = length a + length (trimSpace s) + length b"
    by (metis add.assoc length_append)
  then show ?thesis by simp
qed

lemma set_trimSpace: "set (trimSpace s) \<subseteq> set s"
proof -
  obtain a b where "s = a @ trimSpace s @ b" using trimSpace_sublist by blast
  then have "set s = set a \<union> set (trimSpace s) \<union> set b"
    by (metis set_append sup_assoc)
  then show ?thesis by blast
qed

lemma trimSpace_Nil [simp]: "trimSpace [] = []"
  by (simp add: trimSpace_def)

lemma containsAny_trimSpace: "\<not> containsAny s cs \<Longrightarrow> \<not> containsAny (trimSpace s) cs"
  using set_trimSpace [of s] by (auto simp: containsAny_iff)

lemma front_seq_prefix_None: "front_seq ws (s @ t) = None \<Longrightarrow> front_seq ws s = None"
  by (auto simp: front_seq_def find_None_all hasPrefix_iff)

text \<open>A trimmed string starts and ends with no white space, so trimming again is idle.\<close>

lemma trimSpace_idem: "trimSpace (trimSpace s) = trimSpace s"
proof -
  let ?u = "trim_front space_seqs s" and ?ws = "map rev space_seqs"
  have front: "front_seq space_seqs (trimSpace s) = None"
  proof -
    obtain b where "rev ?u = b @ trim_front ?ws (rev ?u)" using trim_front_suffix by blast
    then have "?u = trimSpace s @ rev b"
      unfolding trimSpace_def by (metis rev_append rev_rev_ident)
    with trim_front_none [of space_seqs s] show ?thesis
      by (metis front_seq_prefix_None)
  qed
  have rear: "front_seq ?ws (rev (trimSpace s)) = None"
    by (simp add: trimSpace_def trim_front_none)
  from front rear show ?thesis
    by (simp add: trimSpace_def [of "trimSpace s"] trim_front_fixed)
qed

lemma trimSpace_fixed:
  "front_seq space_seqs s = None \<Longrightarrow> front_seq (map rev space_seqs) (rev s) = None
   \<Longrightarrow> trimSpace s = s"
  by (simp add: trimSpace_def trim_front_fixed)

text \<open>\<^verbatim>\<open>strings.Fields\<close>: the maximal runs of bytes between white space code points.\<close>

function fields_from :: "string \<Rightarrow> string \<Rightarrow> string list" where
  "fields_from cur s =
     (case s of
        [] \<Rightarrow> (if cur = [] then [] else [rev cur])
      | c # r \<Rightarrow>
          (case front_seq space_seqs s of
             None \<Rightarrow> fields_from (c # cur) r
           | Some w \<Rightarrow>
               (if cur = [] then [] else [rev cur]) @ fields_from [] (drop (length w) s)))"
  by pat_completeness auto
termination
proof (relation "measure (\<lambda>(cur, s). length s)", goal_cases)
  case (2 cur s c r)
  then show ?case by simp
next
  case (3 cur s c r w)
  then show ?case using front_seq_shrinks [of space_seqs s w] by simp
qed auto

declare fields_from.simps [simp del]

definition stringsFields :: "string \<Rightarrow> string list" where
  "stringsFields s = fields_from [] s"

section \<open>Letter case\<close>

definition is_ascii :: "char \<Rightarrow> bool" where
  "is_ascii c \<longleftrightarrow> (of_char c :: nat) < 128"

definition lower_char :: "char \<Rightarrow> char" where
  "lower_char c =
     (let n = of_char c :: nat in if 65 \<le> n \<and> n \<le> 90 then char_of (n + 32) else c)"

text \<open>
  \<^verbatim>\<open>strings.ToLower\<close>: the ASCII path of the library byte by byte; a string with a
  non-ASCII byte goes through the Unicode case tables, the parameter \<open>ulow\<close>.
\<close>

definition toLower :: "(string \<Rightarrow> string) \<Rightarrow> string \<Rightarrow> string" where
  "toLower ulow s = (if list_all is_ascii s then map lower_char s else ulow s)"

text \<open>
  \<^verbatim>\<open>strings.EqualFold(s, p)\<close> for a lower-case ASCII word \<open>p\<close>: ASCII letters match
  in either case; of the non-ASCII code points only the long s (U+017F) folds to
  \<^verbatim>\<open>s\<close> and the Kelvin sign (U+212A) to \<^verbatim>\<open>k\<close>.
\<close>

fun equalFold :: "string \<Rightarrow> string \<Rightarrow> bool" where
  "equalFold s [] = (s = [])"
| "equalFold [] (p # ps) = False"
| "equalFold (c # s) (p # ps) =
     (if lower_char c = p then equalFold s ps
      else if p = CHR ''s'' \<and> hasPrefix (c # s) [CHR 0xC5, CHR 0xBF]
        then equalFold (drop 1 s) ps
      else if p = CHR ''k'' \<and> hasPrefix (c # s) [CHR 0xE2, CHR 0x84, CHR 0xAA]
        then equalFold (drop 2 s) ps
      else False)"

section \<open>Numbers\<close>

definition digit_char :: "nat \<Rightarrow> char" where
  "digit_char d = ''0123456789abcdef'' ! d"

definition is_digit :: "char \<Rightarrow> bool" where
  "is_digit c \<longleftrightarrow> 48 \<le> (of_char c :: nat) \<and> (of_char c :: nat) \<le> 57"

definition digit_val :: "char \<Rightarrow> nat" where
  "digit_val c = of_char c - 48"

text \<open>\<^verbatim>\<open>strconv.Itoa\<close> and the \<^verbatim>\<open>%d\<close> verb on a number that is not negative; \<^verbatim>\<open>%x\<close>.\<close>

fun itoa :: "nat \<Rightarrow> string" where
  "itoa n = (if n < 10 then [digit_char n] else itoa (n div 10) @ [digit_char (n mod 10)])"

fun hex :: "nat \<Rightarrow> string" where
  "hex n = (if n < 16 then [digit_char n] else hex (n div 16) @ [digit_char (n mod 16)])"

declare itoa.simps [simp del] hex.simps [simp del]

definition digits_val :: "string \<Rightarrow> nat" where
  "digits_val s = foldl (\<lambda>n c. 10 * n + digit_val c) 0 s"

text \<open>\<^verbatim>\<open>strconv.ParseUint(s, 10, bits)\<close>: \<open>None\<close> is any error.\<close>

definition parseUint :: "nat \<Rightarrow> string \<Rightarrow> nat option" where
  "parseUint bits s =
     (if s = [] \<or> \<not> list_all is_digit s then None
      else if digits_val s < 2 ^ bits then Some (digits_val s) else None)"

text \<open>\<^verbatim>\<open>strconv.ParseInt(s, 10, 64)\<close>: an optional sign, then decimal digits in range.\<close>

definition parseInt64 :: "string \<Rightarrow> int option" where
  "parseInt64 s =
     (case s of
        [] \<Rightarrow> None
      | c # r \<Rightarrow>
          (let neg = (c = CHR ''-'');
               body = (if c = CHR ''-'' \<or> c = CHR ''+'' then r else s)
           in if body = [] \<or> \<not> list_all is_digit body then None
              else if \<not> neg \<and> digits_val body < 2 ^ 63 then Some (int (digits_val body))
              else if neg \<and> digits_val body \<le> 2 ^ 63 then Some (- int (digits_val body))
              else None))"

lemma digit_char_cases:
  assumes "d < 10"
  shows "is_digit (digit_char d)" and "digit_val (digit_char d) = d"
proof -
  have "d = 0 \<or> d = 1 \<or> d = 2 \<or> d = 3 \<or> d = 4 \<or> d = 5 \<or> d = 6 \<or> d = 7 \<or> d = 8 \<or> d = 9"
    using assms by presburger
  then show "is_digit (digit_char d)" and "digit_val (digit_char d) = d"
    by (elim disjE; simp add: is_digit_def digit_char_def digit_val_def)+
qed

lemma itoa_nonempty [simp]: "itoa n \<noteq> []"
  by (subst itoa.simps) simp

lemma itoa_digits: "list_all is_digit (itoa n)"
proof (induction n rule: itoa.induct)
  case (1 n)
  then show ?case
    by (subst itoa.simps) (simp add: digit_char_cases)
qed

lemma digits_val_snoc: "digits_val (s @ [c]) = 10 * digits_val s + digit_val c"
  by (simp add: digits_val_def)

lemma digits_val_itoa: "digits_val (itoa n) = n"
proof (induction n rule: itoa.induct)
  case (1 n)
  show ?case
  proof (cases "n < 10")
    case True
    then show ?thesis
      by (subst itoa.simps) (simp add: digits_val_def digit_char_cases)
  next
    case False
    with 1 show ?thesis
      by (subst itoa.simps) (simp add: digits_val_snoc digit_char_cases)
  qed
qed

text \<open>Printing then parsing a number that fits gives it back.\<close>

lemma parseUint_itoa: "n < 2 ^ bits \<Longrightarrow> parseUint bits (itoa n) = Some n"
  by (simp add: parseUint_def itoa_digits digits_val_itoa)

lemma parseUint_bound: "parseUint bits s = Some n \<Longrightarrow> n < 2 ^ bits"
  by (auto simp: parseUint_def split: if_splits)

lemma itoa_inj: "itoa m = itoa n \<longleftrightarrow> m = n"
  by (metis digits_val_itoa)

lemma not_digit_notin_itoa: "\<not> is_digit c \<Longrightarrow> c \<notin> set (itoa n)"
  using itoa_digits [of n] by (auto simp: list_all_iff)

text \<open>Reading hexadecimal digits of either case.\<close>

definition is_hex :: "char \<Rightarrow> bool" where
  "is_hex c \<longleftrightarrow> is_digit c \<or> c \<in> set ''abcdefABCDEF''"

definition hex_val :: "char \<Rightarrow> nat" where
  "hex_val c =
     (let n = of_char c :: nat
      in if n \<le> 57 then n - 48 else if n \<le> 70 then n - 55 else n - 87)"

definition hexes_val :: "string \<Rightarrow> nat" where
  "hexes_val s = foldl (\<lambda>n c. 16 * n + hex_val c) 0 s"

lemma digit_char_hex:
  assumes "d < 16"
  shows "hex_val (digit_char d) = d" and "is_hex (digit_char d)"
proof -
  have "\<forall>d\<in>set [0..<16]. hex_val (digit_char d) = d \<and> is_hex (digit_char d)" by code_simp
  with assms show "hex_val (digit_char d) = d" and "is_hex (digit_char d)" by simp_all
qed

lemma hexes_val_hex: "hexes_val (hex n) = n"
proof (induction n rule: hex.induct)
  case (1 n)
  show ?case
  proof (cases "n < 16")
    case True
    then show ?thesis by (subst hex.simps) (simp add: hexes_val_def digit_char_hex)
  next
    case False
    with 1 show ?thesis by (subst hex.simps) (simp add: hexes_val_def digit_char_hex)
  qed
qed

lemma hex_inj: "hex m = hex n \<longleftrightarrow> m = n"
  by (metis hexes_val_hex)

text \<open>\<^verbatim>\<open>%x\<close> on a byte slice: two hexadecimal digits for each byte.\<close>

definition hex_byte :: "char \<Rightarrow> string" where
  "hex_byte c = [digit_char (of_char c div 16), digit_char (of_char c mod 16)]"

definition hex_bytes :: "string \<Rightarrow> string" where
  "hex_bytes bs = concat (map hex_byte bs)"

lemma length_hex_bytes [simp]: "length (hex_bytes bs) = 2 * length bs"
  by (induction bs) (auto simp: hex_bytes_def hex_byte_def)

end
