(* ===== verification/Config.thy ===== *)
theory Config
  imports Go_Strings
begin

text \<open>
  The runtime configuration of the API, \<^verbatim>\<open>internal/config/config.go\<close>: seven environment
  variables are read, refused if any contains a line break, trimmed, given defaults and
  checked for presence, for a complete TLS triple and for length.
\<close>

record Config =
  ListenAddress :: string
  GatewayListenAddress :: string
  GatewayCertificateFile :: string
  GatewayPrivateKeyFile :: string
  GatewayCAFile :: string
  DatabaseURL :: string
  Environment :: string

text \<open>The trimmed values with their defaults (the first half of \<^verbatim>\<open>Load\<close>).\<close>

definition trimmed_config :: "(string \<Rightarrow> string) \<Rightarrow> Config" where
  "trimmed_config getenv =
     (let config = \<lparr>ListenAddress = trimSpace (getenv ''API_LISTEN_ADDRESS''),
            GatewayListenAddress = trimSpace (getenv ''GATEWAY_LISTEN_ADDRESS''),
            GatewayCertificateFile = trimSpace (getenv ''GATEWAY_TLS_CERT_FILE''),
            GatewayPrivateKeyFile = trimSpace (getenv ''GATEWAY_TLS_KEY_FILE''),
            GatewayCAFile = trimSpace (getenv ''GATEWAY_TLS_CA_FILE''),
            DatabaseURL = trimSpace (getenv ''DATABASE_URL''),
            Environment = trimSpace (getenv ''APP_ENV'')\<rparr>;
          config = (if ListenAddress config = '''' then config\<lparr>ListenAddress := '':8080''\<rparr>
                    else config)
      in if Environment config = '''' then config\<lparr>Environment := ''development''\<rparr> else config)"

text \<open>The raw values in the order in which \<^verbatim>\<open>Load\<close> concatenates them.\<close>

definition raw_values :: "(string \<Rightarrow> string) \<Rightarrow> string" where
  "raw_values getenv =
     getenv ''DATABASE_URL'' @ getenv ''API_LISTEN_ADDRESS'' @ getenv ''APP_ENV''
     @ getenv ''GATEWAY_LISTEN_ADDRESS'' @ getenv ''GATEWAY_TLS_CERT_FILE''
     @ getenv ''GATEWAY_TLS_KEY_FILE'' @ getenv ''GATEWAY_TLS_CA_FILE''"

definition Load :: "(string \<Rightarrow> string) \<Rightarrow> (string \<Rightarrow> string) option \<Rightarrow> Config result" where
  "Load os_Getenv getenv_arg =
     (let getenv = (case getenv_arg of None \<Rightarrow> os_Getenv | Some g \<Rightarrow> g);
          config = trimmed_config getenv
      in if containsAny (raw_values getenv) [CHR 0x0D, CHR 0x0A]
         then Inl (ErrText ''runtime configuration contains newline'')
         else if DatabaseURL config = '''' then Inl (ErrText ''DATABASE_URL is required'')
         else if (GatewayCertificateFile config \<noteq> '''' \<or> GatewayPrivateKeyFile config \<noteq> ''''
                  \<or> GatewayCAFile config \<noteq> '''')
              \<and> (GatewayCertificateFile config = '''' \<or> GatewayPrivateKeyFile config = ''''
                  \<or> GatewayCAFile config = '''')
         then Inl (ErrText ''gateway TLS requires certificate, key, and CA files'')
         else if length (ListenAddress config) > 256
              \<or> length (GatewayListenAddress config) > 256
              \<or> length (DatabaseURL config) > 4096 \<or> length (Environment config) > 32
              \<or> length (GatewayCertificateFile config) > 4096
              \<or> length (GatewayPrivateKeyFile config) > 4096
              \<or> length (GatewayCAFile config) > 4096
         then Inl (ErrText ''runtime configuration value is too long'')
         else Inr config)"

section \<open>What a loaded configuration promises\<close>

definition clean :: "string \<Rightarrow> bool" where
  "clean s \<longleftrightarrow> trimSpace s = s \<and> \<not> containsAny s [CHR 0x0D, CHR 0x0A]"

definition config_values :: "Config \<Rightarrow> string list" where
  "config_values c = [ListenAddress c, GatewayListenAddress c, GatewayCertificateFile c,
     GatewayPrivateKeyFile c, GatewayCAFile c, DatabaseURL c, Environment c]"

definition tls_complete :: "Config \<Rightarrow> bool" where
  "tls_complete c \<longleftrightarrow>
     (GatewayCertificateFile c \<noteq> '''' \<longleftrightarrow> GatewayCAFile c \<noteq> '''')
     \<and> (GatewayPrivateKeyFile c \<noteq> '''' \<longleftrightarrow> GatewayCAFile c \<noteq> '''')"

definition within_limits :: "Config \<Rightarrow> bool" where
  "within_limits c \<longleftrightarrow> length (ListenAddress c) \<le> 256 \<and> length (GatewayListenAddress c) \<le> 256
     \<and> length (DatabaseURL c) \<le> 4096 \<and> length (Environment c) \<le> 32
     \<and> length (GatewayCertificateFile c) \<le> 4096 \<and> length (GatewayPrivateKeyFile c) \<le> 4096
     \<and> length (GatewayCAFile c) \<le> 4096"

definition valid_config :: "Config \<Rightarrow> bool" where
  "valid_config c \<longleftrightarrow> list_all clean (config_values c)
     \<and> ListenAddress c \<noteq> '''' \<and> Environment c \<noteq> '''' \<and> DatabaseURL c \<noteq> ''''
     \<and> tls_complete c \<and> within_limits c"

lemma clean_trimSpace: "\<not> containsAny s [CHR 0x0D, CHR 0x0A] \<Longrightarrow> clean (trimSpace s)"
  by (simp add: clean_def trimSpace_idem containsAny_trimSpace)

lemma clean_defaults: "clean '':8080''" "clean ''development''"
  by code_simp+

lemma trimmed_config_clean:
  assumes "\<not> containsAny (raw_values getenv) [CHR 0x0D, CHR 0x0A]"
  shows "list_all clean (config_values (trimmed_config getenv))"
  using assms
  by (simp add: raw_values_def trimmed_config_def config_values_def Let_def clean_trimSpace
      clean_defaults)

lemma trimmed_config_defaults:
  "ListenAddress (trimmed_config getenv) \<noteq> ''''" "Environment (trimmed_config getenv) \<noteq> ''''"
  by (simp_all add: trimmed_config_def Let_def)

lemma valid_config_iff:
  "list_all clean (config_values (trimmed_config getenv)) \<Longrightarrow>
   DatabaseURL (trimmed_config getenv) \<noteq> '''' \<Longrightarrow> tls_complete (trimmed_config getenv) \<Longrightarrow>
   within_limits (trimmed_config getenv) \<Longrightarrow> valid_config (trimmed_config getenv)"
  by (simp add: valid_config_def trimmed_config_defaults)

text \<open>Exactly when \<^verbatim>\<open>Load\<close> succeeds, and with what.\<close>

lemma Load_Inr_iff:
  "Load os_Getenv g = Inr c \<longleftrightarrow>
     (let getenv = (case g of None \<Rightarrow> os_Getenv | Some g \<Rightarrow> g)
      in \<not> containsAny (raw_values getenv) [CHR 0x0D, CHR 0x0A]
         \<and> c = trimmed_config getenv \<and> DatabaseURL c \<noteq> '''' \<and> tls_complete c \<and> within_limits c)"
proof -
  define getenv where "getenv = (case g of None \<Rightarrow> os_Getenv | Some g \<Rightarrow> g)"
  define t where "t = trimmed_config getenv"
  define nl where "nl \<longleftrightarrow> containsAny (raw_values getenv) [CHR 0x0D, CHR 0x0A]"
  define partial where "partial \<longleftrightarrow> (GatewayCertificateFile t \<noteq> '''' \<or> GatewayPrivateKeyFile t \<noteq> ''''
      \<or> GatewayCAFile t \<noteq> '''') \<and> (GatewayCertificateFile t = '''' \<or> GatewayPrivateKeyFile t = ''''
      \<or> GatewayCAFile t = '''')"
  define long where "long \<longleftrightarrow> length (ListenAddress t) > 256
      \<or> length (GatewayListenAddress t) > 256 \<or> length (DatabaseURL t) > 4096
      \<or> length (Environment t) > 32 \<or> length (GatewayCertificateFile t) > 4096
      \<or> length (GatewayPrivateKeyFile t) > 4096 \<or> length (GatewayCAFile t) > 4096"
  have p: "\<not> partial \<longleftrightarrow> tls_complete t" unfolding partial_def tls_complete_def by blast
  have l: "\<not> long \<longleftrightarrow> within_limits t"
    unfolding long_def within_limits_def by (simp add: not_less)
  have "Load os_Getenv g = (if nl then Inl (ErrText ''runtime configuration contains newline'')
     else if DatabaseURL t = '''' then Inl (ErrText ''DATABASE_URL is required'')
     else if partial then Inl (ErrText ''gateway TLS requires certificate, key, and CA files'')
     else if long then Inl (ErrText ''runtime configuration value is too long'') else Inr t)"
    unfolding Load_def Let_def nl_def t_def getenv_def partial_def long_def by (rule refl)
  then show ?thesis
    unfolding Let_def getenv_def [symmetric] nl_def [symmetric] t_def [symmetric]
      p [symmetric] l [symmetric]
    using p l by (cases nl; cases "DatabaseURL t = ''''"; cases partial; cases long) auto
qed

text \<open>
  C40: A configuration that loads is complete and within its limits: every value is trimmed
  and free of line breaks, the listen address and the environment are never empty (they fall
  back to their defaults), the database URL is present, the three TLS files of the gateway
  listener are given all together or not at all, and every value keeps to its length limit.
\<close>

theorem Load_valid:
  assumes "Load os_Getenv g = Inr c"
  shows "valid_config c"
  using assms trimmed_config_clean valid_config_iff unfolding Load_Inr_iff Let_def by blast

theorem Load_valid_witness:
  "\<exists>c. Load (\<lambda>_. '''') (Some (\<lambda>n. if n = ''DATABASE_URL'' then '' postgres://db '' else ''''))
       = Inr c \<and> valid_config c \<and> DatabaseURL c = ''postgres://db'' \<and> ListenAddress c = '':8080''"
proof -
  have t: "trimSpace '' postgres://db '' = ''postgres://db''" by code_simp
  let ?c = "\<lparr>ListenAddress = '':8080'', GatewayListenAddress = '''', GatewayCertificateFile = '''',
     GatewayPrivateKeyFile = '''', GatewayCAFile = '''', DatabaseURL = ''postgres://db'',
     Environment = ''development''\<rparr>"
  have l: "Load (\<lambda>_. '''') (Some (\<lambda>n. if n = ''DATABASE_URL'' then '' postgres://db '' else ''''))
     = Inr ?c"
    by (simp add: Load_def raw_values_def trimmed_config_def Let_def t containsAny_def)
  show ?thesis using Load_valid [OF l] l by simp
qed

text \<open>An environment that spells out a configuration.\<close>

definition environment_of :: "Config \<Rightarrow> string \<Rightarrow> string" where
  "environment_of c name =
     (if name = ''API_LISTEN_ADDRESS'' then ListenAddress c
      else if name = ''DATABASE_URL'' then DatabaseURL c
      else if name = ''APP_ENV'' then Environment c
      else if name = ''GATEWAY_LISTEN_ADDRESS'' then GatewayListenAddress c
      else if name = ''GATEWAY_TLS_CERT_FILE'' then GatewayCertificateFile c
      else if name = ''GATEWAY_TLS_KEY_FILE'' then GatewayPrivateKeyFile c
      else if name = ''GATEWAY_TLS_CA_FILE'' then GatewayCAFile c
      else '''')"

lemma trimmed_environment_of: "valid_config c \<Longrightarrow> trimmed_config (environment_of c) = c"
  by (simp add: trimmed_config_def environment_of_def valid_config_def config_values_def
      clean_def Let_def)

lemma raw_environment_of:
  "valid_config c \<Longrightarrow> \<not> containsAny (raw_values (environment_of c)) [CHR 0x0D, CHR 0x0A]"
  by (simp add: raw_values_def environment_of_def valid_config_def config_values_def clean_def)

lemma Load_environment_of: "valid_config c \<Longrightarrow> Load e (Some (environment_of c)) = Inr c"
  unfolding Load_Inr_iff Let_def
  by (simp add: trimmed_environment_of raw_environment_of) (simp add: valid_config_def)

text \<open>
  Loading is idempotent: a program started from an environment that already holds the
  values of a loaded configuration loads exactly that configuration.
\<close>

theorem Load_idempotent:
  assumes "Load os_Getenv g = Inr c"
  shows "Load os_Getenv (Some (environment_of c)) = Inr c"
proof -
  have "valid_config c"
    using assms trimmed_config_clean valid_config_iff unfolding Load_Inr_iff Let_def by blast
  then show ?thesis by (rule Load_environment_of)
qed

theorem Load_idempotent_witness:
  "\<exists>c. Load (\<lambda>_. ''x'') None = Inr c \<and> Load (\<lambda>_. ''x'') (Some (environment_of c)) = Inr c"
proof -
  have t: "trimSpace ''x'' = ''x''" by code_simp
  have l: "Load (\<lambda>_. ''x'') None = Inr (trimmed_config (\<lambda>_. ''x''))"
    by (simp add: Load_def raw_values_def trimmed_config_def Let_def t containsAny_def)
  from l Load_idempotent [OF l] show ?thesis by blast
qed

end
