(* ===== verification/Go_Base64.thy ===== *)
theory Go_Base64
  imports Go_Strings
begin

text \<open>
  The Base64 codecs of \<^verbatim>\<open>encoding/base64\<close> the services use: \<^verbatim>\<open>StdEncoding\<close> for
  WireGuard keys, Ed25519 keys and JSON byte slices, \<^verbatim>\<open>RawStdEncoding\<close> for the PHC
  strings of passwords and \<^verbatim>\<open>RawURLEncoding\<close> for session tokens. Decoding is the
  library's: line breaks are skipped wherever they stand, padding is demanded or refused,
  and the unused low bits of the last group are ignored (the encodings are not
  \<^verbatim>\<open>Strict\<close>). The locale \<open>byte_codec\<close> is what the components use of a codec; the three
  encodings are interpretations of it.
\<close>

section \<open>The interface\<close>

locale byte_codec =
  fixes enc :: "string \<Rightarrow> string" and dec :: "string \<Rightarrow> string option"
  assumes dec_enc: "dec (enc b) = Some b"
begin

lemma enc_inj: "enc a = enc b \<longleftrightarrow> a = b"
  by (metis dec_enc option.inject)

text \<open>
  A text that decodes to \<open>n\<close> bytes and is the encoding of what it decodes to is exactly
  an encoding of \<open>n\<close> bytes: the check \<^verbatim>\<open>Encode(Decode(v)) == v\<close> leaves one spelling for
  every byte string.
\<close>

lemma canonical_iff:
  "(case dec v of None \<Rightarrow> False | Some d \<Rightarrow> length d = n \<and> enc d = v)
     \<longleftrightarrow> (\<exists>d. length d = n \<and> v = enc d)"
  by (auto simp: dec_enc split: option.splits)

lemma canonical_unique:
  assumes "dec v = Some d" "enc d = v" "dec w = Some d" "enc d = w"
  shows "v = w"
  using assms by simp

end

section \<open>Alphabets and groups\<close>

record b64 =
  alphabet :: string
  padded :: bool

definition std_alphabet :: string where
  "std_alphabet = ''ABCDEFGHIJKLMNOPQRSTUVWXYZabcdefghijklmnopqrstuvwxyz0123456789+/''"

definition url_alphabet :: string where
  "url_alphabet = ''ABCDEFGHIJKLMNOPQRSTUVWXYZabcdefghijklmnopqrstuvwxyz0123456789-_''"

definition StdEncoding :: b64 where
  "StdEncoding = \<lparr>alphabet = std_alphabet, padded = True\<rparr>"

definition RawStdEncoding :: b64 where
  "RawStdEncoding = \<lparr>alphabet = std_alphabet, padded = False\<rparr>"

definition RawURLEncoding :: b64 where
  "RawURLEncoding = \<lparr>alphabet = url_alphabet, padded = False\<rparr>"

definition b64_sym :: "b64 \<Rightarrow> nat \<Rightarrow> char" where
  "b64_sym e n = alphabet e ! n"

fun index_of :: "string \<Rightarrow> char \<Rightarrow> nat option" where
  "index_of [] c = None"
| "index_of (a # as) c = (if a = c then Some 0 else map_option Suc (index_of as c))"

definition b64_val :: "b64 \<Rightarrow> char \<Rightarrow> nat option" where
  "b64_val e c = index_of (alphabet e) c"

definition pad :: "b64 \<Rightarrow> nat \<Rightarrow> string" where
  "pad e n = (if padded e then replicate n CHR ''='' else [])"

fun encode64 :: "b64 \<Rightarrow> string \<Rightarrow> string" where
  "encode64 e (a # b # c # r) =
     (let n = 65536 * of_char a + 256 * of_char b + of_char c
      in [b64_sym e (n div 262144), b64_sym e (n div 4096 mod 64), b64_sym e (n div 64 mod 64),
          b64_sym e (n mod 64)] @ encode64 e r)"
| "encode64 e [a, b] =
     (let n = 65536 * of_char a + 256 * of_char b
      in [b64_sym e (n div 262144), b64_sym e (n div 4096 mod 64), b64_sym e (n div 64 mod 64)] @ pad e 1)"
| "encode64 e [a] =
     (let n = 65536 * of_char a
      in [b64_sym e (n div 262144), b64_sym e (n div 4096 mod 64)] @ pad e 2)"
| "encode64 e [] = []"

definition one_byte :: "nat \<Rightarrow> string" where
  "one_byte n = [char_of (n div 65536)]"

definition two_bytes :: "nat \<Rightarrow> string" where
  "two_bytes n = [char_of (n div 65536), char_of (n div 256 mod 256)]"

definition three_bytes :: "nat \<Rightarrow> string" where
  "three_bytes n = [char_of (n div 65536), char_of (n div 256 mod 256), char_of (n mod 256)]"

fun decode_groups :: "b64 \<Rightarrow> string \<Rightarrow> string option" where
  "decode_groups e [] = Some []"
| "decode_groups e (w # x # y # z # r) =
     (case (b64_val e w, b64_val e x, b64_val e y, b64_val e z) of
        (Some i, Some j, Some k, Some l) \<Rightarrow>
          map_option (\<lambda>t. three_bytes (262144 * i + 4096 * j + 64 * k + l) @ t)
            (decode_groups e r)
      | (Some i, Some j, Some k, None) \<Rightarrow>
          (if padded e \<and> z = CHR ''='' \<and> r = []
           then Some (two_bytes (262144 * i + 4096 * j + 64 * k)) else None)
      | (Some i, Some j, None, None) \<Rightarrow>
          (if padded e \<and> y = CHR ''='' \<and> z = CHR ''='' \<and> r = []
           then Some (one_byte (262144 * i + 4096 * j)) else None)
      | _ \<Rightarrow> None)"
| "decode_groups e [w, x, y] =
     (case (b64_val e w, b64_val e x, b64_val e y) of
        (Some i, Some j, Some k) \<Rightarrow>
          (if padded e then None else Some (two_bytes (262144 * i + 4096 * j + 64 * k)))
      | _ \<Rightarrow> None)"
| "decode_groups e [w, x] =
     (case (b64_val e w, b64_val e x) of
        (Some i, Some j) \<Rightarrow>
          (if padded e then None else Some (one_byte (262144 * i + 4096 * j)))
      | _ \<Rightarrow> None)"
| "decode_groups e [w] = None"

definition is_newline :: "char \<Rightarrow> bool" where
  "is_newline c \<longleftrightarrow> c = CHR 0x0A \<or> c = CHR 0x0D"

definition decode64 :: "b64 \<Rightarrow> string \<Rightarrow> string option" where
  "decode64 e s = decode_groups e (filter (\<lambda>c. \<not> is_newline c) s)"

section \<open>Round trip\<close>

definition good_alphabet :: "b64 \<Rightarrow> bool" where
  "good_alphabet e \<longleftrightarrow> length (alphabet e) = 64 \<and> distinct (alphabet e)
     \<and> CHR ''='' \<notin> set (alphabet e) \<and> list_all (\<lambda>c. \<not> is_newline c) (alphabet e)"

lemma good_StdEncoding: "good_alphabet StdEncoding"
  by (simp add: good_alphabet_def StdEncoding_def std_alphabet_def is_newline_def)

lemma good_RawStdEncoding: "good_alphabet RawStdEncoding"
  by (simp add: good_alphabet_def RawStdEncoding_def std_alphabet_def is_newline_def)

lemma good_RawURLEncoding: "good_alphabet RawURLEncoding"
  by (simp add: good_alphabet_def RawURLEncoding_def url_alphabet_def is_newline_def)

lemmas good_alphabets = good_StdEncoding good_RawStdEncoding good_RawURLEncoding

lemma index_of_nth: "distinct as \<Longrightarrow> n < length as \<Longrightarrow> index_of as (as ! n) = Some n"
  by (induction as arbitrary: n) (auto simp: nth_Cons split: nat.splits)

lemma index_of_None: "c \<notin> set as \<Longrightarrow> index_of as c = None"
  by (induction as) auto

lemma index_of_Some: "index_of as c = Some n \<Longrightarrow> n < length as \<and> as ! n = c"
  by (induction as arbitrary: n) (auto split: if_splits)

lemma val_sym: "good_alphabet e \<Longrightarrow> n < 64 \<Longrightarrow> b64_val e (b64_sym e n) = Some n"
  by (simp add: b64_val_def b64_sym_def good_alphabet_def index_of_nth)

lemma val_pad: "good_alphabet e \<Longrightarrow> b64_val e CHR ''='' = None"
  by (simp add: b64_val_def good_alphabet_def index_of_None)

lemma sym_in: "good_alphabet e \<Longrightarrow> n < 64 \<Longrightarrow> b64_sym e n \<in> set (alphabet e)"
  by (simp add: b64_sym_def good_alphabet_def)

lemma of_char_256: "(of_char c :: nat) < 256"
  by (rule nat_of_char_less_256)

lemma base64_digits:
  fixes n :: nat
  shows "262144 * (n div 262144) + 4096 * (n div 4096 mod 64) + 64 * (n div 64 mod 64) + n mod 64 = n"
proof -
  define m k q r s t where "m = n div 64" and "k = m div 64" and "q = k div 64"
    and "r = n mod 64" and "s = m mod 64" and "t = k mod 64"
  have n: "64 * m + r = n" and m: "64 * k + s = m" and k: "64 * q + t = k"
    by (simp_all add: m_def k_def q_def r_def s_def t_def)
  have "n div 4096 = k" and "n div 262144 = q"
    by (simp_all add: m_def k_def q_def div_mult2_eq [symmetric])
  then show ?thesis
    unfolding m_def [symmetric] r_def [symmetric]
    using n m k by (simp add: s_def [symmetric] t_def [symmetric])
qed

lemma low_sextets_zero:
  fixes a b :: nat
  shows "(65536 * a + 256 * b) mod 64 = 0" and "65536 * a mod 64 = 0"
    and "65536 * a div 64 mod 64 = 0"
proof -
  have "65536 * a + 256 * b = 64 * (1024 * a + 4 * b)" "65536 * a = 64 * (64 * (16 * a))"
    by simp_all
  then show "(65536 * a + 256 * b) mod 64 = 0" and "65536 * a mod 64 = 0"
    and "65536 * a div 64 mod 64 = 0"
    by (simp_all only: nonzero_mult_div_cancel_left mod_mult_self1_is_0)
qed

lemma sextets:
  fixes a b c :: nat
  assumes "a < 256" "b < 256" "c < 256"
  shows "(65536 * a + 256 * b + c) div 262144 < 64"
    and "262144 * ((65536 * a + 256 * b + c) div 262144)
       + 4096 * ((65536 * a + 256 * b + c) div 4096 mod 64)
       + 64 * ((65536 * a + 256 * b + c) div 64 mod 64)
       + (65536 * a + 256 * b + c) mod 64 = 65536 * a + 256 * b + c"
  using assms by (simp add: less_mult_imp_div_less) (rule base64_digits)

lemma octets:
  fixes a b c :: nat
  assumes "a < 256" "b < 256" "c < 256"
  shows "(65536 * a + 256 * b + c) div 65536 = a"
    and "(65536 * a + 256 * b + c) div 256 mod 256 = b"
    and "(65536 * a + 256 * b + c) mod 256 = c"
proof -
  let ?m = "256 * a + b"
  have n: "65536 * a + 256 * b + c = c + 256 * ?m" by simp
  have d: "(65536 * a + 256 * b + c) div 256 = ?m"
    unfolding n using assms by (simp only: div_mult_self2)
  then show "(65536 * a + 256 * b + c) div 256 mod 256 = b"
    using assms by simp
  have "(65536 * a + 256 * b + c) div 65536 = (65536 * a + 256 * b + c) div 256 div 256"
    by (simp add: div_mult2_eq [symmetric])
  with d assms show "(65536 * a + 256 * b + c) div 65536 = a" by simp
  show "(65536 * a + 256 * b + c) mod 256 = c"
    unfolding n using assms by (simp only: mod_mult_self2) simp
qed

text \<open>One decoding lemma per shape of the last group, over sextets and a number \<open>n\<close>.\<close>

lemma decode_group4:
  assumes "good_alphabet e" "n div 262144 < 64"
  shows "decode_groups e (b64_sym e (n div 262144) # b64_sym e (n div 4096 mod 64)
     # b64_sym e (n div 64 mod 64) # b64_sym e (n mod 64) # r)
     = map_option (\<lambda>t. three_bytes n @ t) (decode_groups e r)"
  using assms by (simp add: val_sym base64_digits)

lemma decode_group3:
  assumes "good_alphabet e" "n div 262144 < 64" "n mod 64 = 0"
  shows "decode_groups e ([b64_sym e (n div 262144), b64_sym e (n div 4096 mod 64),
     b64_sym e (n div 64 mod 64)] @ pad e 1) = Some (two_bytes n)"
  using assms base64_digits [of n] by (simp add: val_sym val_pad pad_def)

lemma decode_group2:
  assumes "good_alphabet e" "n div 262144 < 64" "n mod 64 = 0" "n div 64 mod 64 = 0"
  shows "decode_groups e ([b64_sym e (n div 262144), b64_sym e (n div 4096 mod 64)] @ pad e 2)
     = Some (one_byte n)"
  using assms base64_digits [of n] by (simp add: val_sym val_pad pad_def numeral_2_eq_2)

lemma decode_groups_encode64: "good_alphabet e \<Longrightarrow> decode_groups e (encode64 e s) = Some s"
proof (induction e s rule: encode64.induct)
  case (1 e a b c r)
  note b3 = of_char_256 [of a] of_char_256 [of b] of_char_256 [of c]
  have "three_bytes (65536 * of_char a + 256 * of_char b + of_char c) = [a, b, c]"
    unfolding three_bytes_def octets [OF b3] by simp
  with 1 show ?case
    unfolding encode64.simps Let_def append_Cons append_Nil
    by (simp only: decode_group4 sextets [OF b3]) simp
next
  case (2 e a b)
  have z: "(0::nat) < 256" by simp
  note b3 = of_char_256 [of a] of_char_256 [of b] z
  have "two_bytes (65536 * of_char a + 256 * of_char b) = [a, b]"
    using octets [OF b3] by (simp add: two_bytes_def)
  with 2 sextets(1) [OF b3] low_sextets_zero(1) [of "of_char a" "of_char b"] show ?case
    unfolding encode64.simps Let_def by (subst decode_group3) simp_all
next
  case (3 e a)
  have z: "(0::nat) < 256" by simp
  note b3 = of_char_256 [of a] z z
  have "one_byte (65536 * of_char a) = [a]"
    using octets [OF b3] by (simp add: one_byte_def)
  with 3 sextets(1) [OF b3] low_sextets_zero(2,3) [of "of_char a"] show ?case
    unfolding encode64.simps Let_def by (subst decode_group2) simp_all
next
  case (4 e)
  then show ?case by simp
qed

lemma set_pad: "set (pad e n) \<subseteq> {CHR ''=''}"
  by (auto simp: pad_def)

lemma encode64_chars:
  "good_alphabet e \<Longrightarrow> set (encode64 e s) \<subseteq> insert CHR ''='' (set (alphabet e))"
proof (induction e s rule: encode64.induct)
  case (1 e a b c r)
  then show ?case
    using sextets(1) [OF of_char_256 [of a] of_char_256 [of b] of_char_256 [of c]]
    by (simp add: sym_in Let_def)
next
  case (2 e a b)
  then show ?case
    using sextets(1) [OF of_char_256 [of a] of_char_256 [of b], of 0] set_pad [of e 1]
    by (auto simp: sym_in Let_def)
next
  case (3 e a)
  then show ?case
    using sextets(1) [OF of_char_256 [of a], of 0 0] set_pad [of e 2]
    by (auto simp: sym_in Let_def)
qed auto

lemma encode64_no_newline:
  assumes "good_alphabet e" "c \<in> set (encode64 e s)"
  shows "\<not> is_newline c"
proof -
  from assms encode64_chars have "c = CHR ''='' \<or> c \<in> set (alphabet e)" by blast
  with assms(1) show ?thesis by (auto simp: good_alphabet_def list_all_iff is_newline_def)
qed

lemma decode64_encode64: "good_alphabet e \<Longrightarrow> decode64 e (encode64 e s) = Some s"
  by (simp add: decode64_def decode_groups_encode64 filter_id_conv encode64_no_newline
      del: filter_True)
     (metis (no_types, lifting) decode_groups_encode64 encode64_no_newline filter_True)

interpretation std: byte_codec "encode64 StdEncoding" "decode64 StdEncoding"
  by unfold_locales (rule decode64_encode64, rule good_StdEncoding)

interpretation rawstd: byte_codec "encode64 RawStdEncoding" "decode64 RawStdEncoding"
  by unfold_locales (rule decode64_encode64, rule good_RawStdEncoding)

interpretation rawurl: byte_codec "encode64 RawURLEncoding" "decode64 RawURLEncoding"
  by unfold_locales (rule decode64_encode64, rule good_RawURLEncoding)

section \<open>Lengths and characters of an encoding\<close>

lemma length_encode64_padded:
  "padded e \<Longrightarrow> length (encode64 e s) = 4 * ((length s + 2) div 3)"
proof (induction e s rule: encode64.induct)
  case (1 e a b c r)
  have "(length r + 5) div 3 = Suc ((length r + 2) div 3)" by presburger
  with 1 show ?case by (simp add: Let_def add.commute)
qed (simp_all add: pad_def Let_def)

lemma length_encode64_raw:
  "\<not> padded e \<Longrightarrow> length (encode64 e s) = (4 * length s + 2) div 3"
proof (induction e s rule: encode64.induct)
  case (1 e a b c r)
  have "(4 * length r + 14) div 3 = 4 + (4 * length r + 2) div 3" by presburger
  with 1 show ?case by (simp add: Let_def add.commute)
qed (simp_all add: pad_def Let_def)

lemma encode64_raw_chars:
  "good_alphabet e \<Longrightarrow> \<not> padded e \<Longrightarrow> set (encode64 e s) \<subseteq> set (alphabet e)"
proof (induction e s rule: encode64.induct)
  case (1 e a b c r)
  then show ?case
    using sextets(1) [OF of_char_256 [of a] of_char_256 [of b] of_char_256 [of c]]
    by (simp add: sym_in Let_def)
next
  case (2 e a b)
  then show ?case
    using sextets(1) [OF of_char_256 [of a] of_char_256 [of b], of 0]
    by (auto simp: sym_in pad_def Let_def)
next
  case (3 e a)
  then show ?case
    using sextets(1) [OF of_char_256 [of a], of 0 0] by (auto simp: sym_in pad_def Let_def)
qed auto

text \<open>
  The shape of a padded encoding whose length is one short of a multiple of three: symbols
  of the alphabet, then a single padding sign. This is the shape of a 32-byte key.
\<close>

lemma encode64_one_pad:
  "good_alphabet e \<Longrightarrow> padded e \<Longrightarrow> length s mod 3 = 2 \<Longrightarrow>
     \<exists>w. encode64 e s = w @ ''='' \<and> set w \<subseteq> set (alphabet e)"
proof (induction e s rule: encode64.induct)
  case (1 e a b c r)
  then have "length r mod 3 = 2" by (simp add: mod_Suc split: if_splits)
  with 1 obtain w where "encode64 e r = w @ ''=''" "set w \<subseteq> set (alphabet e)"
    by (metis One_nat_def)
  with 1 show ?case
    using sextets(1) [OF of_char_256 [of a] of_char_256 [of b] of_char_256 [of c]]
    by (simp add: sym_in Let_def)
next
  case (2 e a b)
  then show ?case
    using sextets(1) [OF of_char_256 [of a] of_char_256 [of b], of 0]
    by (simp add: sym_in pad_def Let_def)
qed auto

end
