(* ===== verification/Control.thy ===== *)
theory Control
  imports Go_Base64 "HOL-Library.Word"
begin

unbundle bit_operations_syntax

text \<open>
  The domain of the control plane and its in-memory service,
  \<^verbatim>\<open>internal/control/service.go\<close>: devices, regions, tunnel configurations, validation of
  what a client registers, and the service that keeps them in five maps under one lock (so
  that each operation is one atomic step of the state). The source of randomness is an
  argument of the operations that draw from it (\<open>Inl\<close> when \<^verbatim>\<open>rand.Read\<close> fails,
  \<open>Inr\<close> sixteen bytes otherwise), the clock is the argument \<open>now\<close>.
\<close>

section \<open>Data\<close>

type_synonym Platform = string

abbreviation "PlatformWindows \<equiv> ''windows''"
abbreviation "PlatformAndroid \<equiv> ''android''"
abbreviation "PlatformIOS \<equiv> ''ios''"
abbreviation "PlatformAndroidTV \<equiv> ''android_tv''"

datatype DeviceState = DeviceActive | DeviceRevocationPending | DeviceRevoked

text \<open>The stages of a device in the order of its life, the order of the enumeration in the database.\<close>

fun life_stage :: "DeviceState \<Rightarrow> nat" where
  "life_stage DeviceActive = 0"
| "life_stage DeviceRevocationPending = 1"
| "life_stage DeviceRevoked = 2"

lemma life_stage_inject: "life_stage x = life_stage y \<longleftrightarrow> x = y"
  by (cases x; cases y) simp_all

instantiation DeviceState :: linorder
begin

definition less_eq_DeviceState :: "DeviceState \<Rightarrow> DeviceState \<Rightarrow> bool" where
  "x \<le> y \<longleftrightarrow> life_stage x \<le> life_stage y"

definition less_DeviceState :: "DeviceState \<Rightarrow> DeviceState \<Rightarrow> bool" where
  "x < y \<longleftrightarrow> life_stage x < life_stage y"

instance
  by standard (auto simp: less_eq_DeviceState_def less_DeviceState_def life_stage_inject)

end

lemma DeviceState_order [simp]:
  "DeviceActive \<le> x" "x \<le> DeviceRevoked" "x \<le> DeviceActive \<longleftrightarrow> x = DeviceActive" "DeviceRevoked \<le> x \<longleftrightarrow> x = DeviceRevoked"
  "x \<le> DeviceRevocationPending \<longleftrightarrow> x \<noteq> DeviceRevoked"
  by (cases x; simp add: less_eq_DeviceState_def)+

record Device =
  dev_ID :: string
  dev_Name :: string
  dev_Platform :: Platform
  dev_PublicKey :: string
  dev_State :: DeviceState
  dev_CreatedAt :: time
  dev_ownerID :: string

record Region =
  reg_ID :: string
  reg_DisplayName :: string
  reg_Available :: bool
  reg_Endpoint :: string
  reg_ServerPublicKey :: string
  reg_DNSv4 :: string
  reg_DNSv6 :: string

record RegisterDeviceRequest =
  req_Name :: string
  req_Platform :: Platform
  req_PublicKey :: string

record TunnelConfiguration =
  tc_AssignmentID :: string
  tc_Endpoint :: string
  tc_ServerPublicKey :: string
  tc_Addresses :: "string list"
  tc_DNSServers :: "string list"
  tc_AllowedIPs :: "string list"
  tc_PersistentKeepaliveSeconds :: int
  tc_ExpiresAt :: time

record idempotencyRecord =
  idem_regionID :: string
  idem_configuration :: TunnelConfiguration

record Service =
  devices :: "string \<rightharpoonup> Device"
  publicKeys :: "string \<rightharpoonup> string"
  regions :: "string \<rightharpoonup> Region"
  idempotency :: "string \<rightharpoonup> idempotencyRecord"
  regionNextHost :: "string \<rightharpoonup> 16 word"

section \<open>Validation\<close>

definition validPlatform :: "Platform \<Rightarrow> bool" where
  "validPlatform p \<longleftrightarrow>
     p \<in> set [PlatformWindows, PlatformAndroid, PlatformIOS, PlatformAndroidTV]"

definition validWireGuardPublicKey :: "string \<Rightarrow> bool" where
  "validWireGuardPublicKey v =
     (case decode64 StdEncoding v of
        None \<Rightarrow> False
      | Some decoded \<Rightarrow> length decoded = 32 \<and> encode64 StdEncoding decoded = v)"

definition ValidateRegisterDevice :: "string \<Rightarrow> RegisterDeviceRequest \<Rightarrow> error option" where
  "ValidateRegisterDevice ownerID request =
     (if trimSpace ownerID = '''' \<or> trimSpace (req_Name request) = ''''
         \<or> length (req_Name request) > 80 then Some ErrInvalidInput
      else if \<not> validPlatform (req_Platform request)
           \<or> \<not> validWireGuardPublicKey (req_PublicKey request) then Some ErrInvalidInput
      else None)"

definition validateRegion :: "Region \<Rightarrow> error option" where
  "validateRegion region =
     (if trimSpace (reg_ID region) = '''' \<or> length (reg_ID region) > 32
         \<or> trimSpace (reg_DisplayName region) = '''' then Some ErrInvalidInput
      else if trimSpace (reg_Endpoint region) = ''''
           \<or> \<not> validWireGuardPublicKey (reg_ServerPublicKey region) then Some ErrInvalidInput
      else if trimSpace (reg_DNSv4 region) = '''' \<or> trimSpace (reg_DNSv6 region) = ''''
        then Some ErrInvalidInput
      else None)"

text \<open>The check the \<^verbatim>\<open>devices\<close> table makes on a key: \<^verbatim>\<open>^[A-Za-z0-9+/]{43}=$\<close>.\<close>

definition key_pattern :: "string \<Rightarrow> bool" where
  "key_pattern v \<longleftrightarrow> length v = 44 \<and> list_all (\<lambda>c. c \<in> set std_alphabet) (take 43 v)
     \<and> drop 43 v = ''=''"

text \<open>A valid key is the Base64 text of 32 bytes: one spelling for each key.\<close>

lemma validWireGuardPublicKey_iff:
  "validWireGuardPublicKey v \<longleftrightarrow> (\<exists>k. length k = 32 \<and> v = encode64 StdEncoding k)"
  unfolding validWireGuardPublicKey_def by (rule std.canonical_iff)

lemma validWireGuardPublicKey_encode [simp]:
  "validWireGuardPublicKey (encode64 StdEncoding k) \<longleftrightarrow> length k = 32"
  by (auto simp: validWireGuardPublicKey_iff std.enc_inj)

lemma StdEncoding_simps [simp]:
  "padded StdEncoding" "alphabet StdEncoding = std_alphabet"
  by (simp_all add: StdEncoding_def)

lemma encode_key_shape:
  assumes "length k = 32"
  shows "key_pattern (encode64 StdEncoding k)"
proof -
  from assms obtain w where w: "encode64 StdEncoding k = w @ ''=''" "set w \<subseteq> set std_alphabet"
    using encode64_one_pad [OF good_StdEncoding, of k] by auto
  have "length (encode64 StdEncoding k) = 44"
    using assms by (simp add: length_encode64_padded)
  with w have "length w = 43" by simp
  with w show ?thesis by (auto simp: key_pattern_def list_all_iff)
qed

lemma validWireGuardPublicKey_pattern: "validWireGuardPublicKey v \<Longrightarrow> key_pattern v"
  by (auto simp: validWireGuardPublicKey_iff intro: encode_key_shape)

section \<open>Identifiers\<close>

text \<open>
  \<^verbatim>\<open>randomUUID\<close>: sixteen random bytes with the version and variant bits of a version 4
  UUID, printed as 8-4-4-4-12 hexadecimal digits.
\<close>

definition set_version :: "char \<Rightarrow> char" where
  "set_version c = char_of (((of_char c :: nat) AND 0x0f) OR 0x40)"

definition set_variant :: "char \<Rightarrow> char" where
  "set_variant c = char_of (((of_char c :: nat) AND 0x3f) OR 0x80)"

definition uuid_string :: "string \<Rightarrow> string" where
  "uuid_string value =
     hex_bytes (take 4 value) @ ''-'' @ hex_bytes (take 2 (drop 4 value)) @ ''-''
     @ hex_bytes (take 2 (drop 6 value)) @ ''-'' @ hex_bytes (take 2 (drop 8 value)) @ ''-''
     @ hex_bytes (take 6 (drop 10 value))"

definition randomUUID :: "string result \<Rightarrow> string result" where
  "randomUUID rand =
     (case rand of
        Inl err \<Rightarrow> Inl err
      | Inr value \<Rightarrow>
          let value = value[6 := set_version (value ! 6)];
              value = value[8 := set_variant (value ! 8)]
          in Inr (uuid_string value))"

section \<open>The service\<close>

definition empty_service :: Service where
  "empty_service = \<lparr>devices = Map.empty, publicKeys = Map.empty, regions = Map.empty,
     idempotency = Map.empty, regionNextHost = Map.empty\<rparr>"

fun add_regions :: "Service \<Rightarrow> Region list \<Rightarrow> Service result" where
  "add_regions s [] = Inr s"
| "add_regions s (region # rest) =
     (case validateRegion region of
        Some err \<Rightarrow> Inl err
      | None \<Rightarrow>
          if regions s (reg_ID region) \<noteq> None
          then Inl (WrappedAs ErrConflict ''duplicate region'')
          else add_regions
            (s\<lparr>regions := (regions s)(reg_ID region \<mapsto> region),
               regionNextHost := (regionNextHost s)(reg_ID region \<mapsto> 2)\<rparr>) rest)"

definition NewService :: "Region list \<Rightarrow> Service result" where
  "NewService rs = add_regions empty_service rs"

text \<open>\<open>order\<close> is the order in which Go happens to range over the map.\<close>

definition ListRegions :: "string list \<Rightarrow> Service \<Rightarrow> Region list" where
  "ListRegions order s = List.map_filter (regions s) order"

definition ListDevices :: "string list \<Rightarrow> string \<Rightarrow> Service \<Rightarrow> Device list" where
  "ListDevices order ownerID s =
     filter (\<lambda>d. dev_ownerID d = ownerID) (List.map_filter (devices s) order)"

definition RegisterDevice ::
  "string result \<Rightarrow> time \<Rightarrow> string \<Rightarrow> RegisterDeviceRequest \<Rightarrow> Service
     \<Rightarrow> Device result \<times> Service" where
  "RegisterDevice rand now ownerID request s =
     (case ValidateRegisterDevice ownerID request of
        Some err \<Rightarrow> (Inl err, s)
      | None \<Rightarrow>
          if publicKeys s (req_PublicKey request) \<noteq> None then (Inl ErrConflict, s)
          else (case randomUUID rand of
              Inl err \<Rightarrow> (Inl (Wrapped ''generate device id'' err), s)
            | Inr deviceID \<Rightarrow>
                let device = \<lparr>dev_ID = deviceID, dev_Name = trimSpace (req_Name request),
                      dev_Platform = req_Platform request,
                      dev_PublicKey = req_PublicKey request, dev_State = DeviceActive,
                      dev_CreatedAt = now, dev_ownerID = ownerID\<rparr>
                in (Inr device,
                    s\<lparr>devices := (devices s)(deviceID \<mapsto> device),
                      publicKeys := (publicKeys s)(req_PublicKey request \<mapsto> deviceID)\<rparr>)))"

definition RequestRevocation :: "string \<Rightarrow> string \<Rightarrow> Service \<Rightarrow> unit result \<times> Service" where
  "RequestRevocation ownerID deviceID s =
     (case devices s deviceID of
        None \<Rightarrow> (Inl ErrNotFound, s)
      | Some device \<Rightarrow>
          if dev_ownerID device \<noteq> ownerID then (Inl ErrNotFound, s)
          else if dev_State device = DeviceRevoked then (Inr (), s)
          else (Inr (), s\<lparr>devices := (devices s)(deviceID \<mapsto>
                  device\<lparr>dev_State := DeviceRevocationPending\<rparr>)\<rparr>))"

text \<open>Copying the three slices of a configuration leaves an equal value.\<close>

definition cloneConfiguration :: "TunnelConfiguration \<Rightarrow> TunnelConfiguration" where
  "cloneConfiguration c =
     c\<lparr>tc_Addresses := [] @ tc_Addresses c, tc_DNSServers := [] @ tc_DNSServers c,
       tc_AllowedIPs := [] @ tc_AllowedIPs c\<rparr>"

lemma cloneConfiguration_id [simp]: "cloneConfiguration c = c"
  by (simp add: cloneConfiguration_def)

definition recordKey :: "string \<Rightarrow> string \<Rightarrow> string \<Rightarrow> string" where
  "recordKey ownerID deviceID idempotencyKey =
     ownerID @ [CHR 0x00] @ deviceID @ [CHR 0x00] @ idempotencyKey"

definition host_addresses :: "nat \<Rightarrow> string list" where
  "host_addresses host =
     [''10.70.0.'' @ itoa host @ ''/32'', ''fd70::'' @ hex host @ ''/128'']"

definition CreateTunnelConfiguration ::
  "string result \<Rightarrow> time \<Rightarrow> string \<Rightarrow> string \<Rightarrow> string \<Rightarrow> string \<Rightarrow> Service
     \<Rightarrow> (TunnelConfiguration \<times> bool) result \<times> Service" where
  "CreateTunnelConfiguration rand now ownerID deviceID regionID idempotencyKey s =
     (if length idempotencyKey < 16 \<or> length idempotencyKey > 128 then (Inl ErrInvalidInput, s)
      else case devices s deviceID of
        None \<Rightarrow> (Inl ErrNotFound, s)
      | Some device \<Rightarrow>
      if dev_ownerID device \<noteq> ownerID then (Inl ErrNotFound, s)
      else if dev_State device \<noteq> DeviceActive then (Inl ErrDeviceNotActive, s)
      else case regions s regionID of
        None \<Rightarrow> (Inl ErrNotFound, s)
      | Some region \<Rightarrow>
      if \<not> reg_Available region then (Inl ErrNotFound, s)
      else case idempotency s (recordKey ownerID deviceID idempotencyKey) of
        Some record \<Rightarrow>
          (if idem_regionID record \<noteq> regionID then (Inl ErrConflict, s)
           else (Inr (cloneConfiguration (idem_configuration record), False), s))
      | None \<Rightarrow>
      let host = (case regionNextHost s regionID of None \<Rightarrow> 0 | Some h \<Rightarrow> h)
      in if host > 254 then (Inl ErrCapacityExhausted, s)
      else case randomUUID rand of
        Inl err \<Rightarrow> (Inl (Wrapped ''generate assignment id'' err), s)
      | Inr assignmentID \<Rightarrow>
      let configuration =
            \<lparr>tc_AssignmentID = assignmentID, tc_Endpoint = reg_Endpoint region,
             tc_ServerPublicKey = reg_ServerPublicKey region,
             tc_Addresses = host_addresses (unat host),
             tc_DNSServers = [reg_DNSv4 region, reg_DNSv6 region],
             tc_AllowedIPs = [''0.0.0.0/0'', ''::/0''],
             tc_PersistentKeepaliveSeconds = 25, tc_ExpiresAt = now + 24 * hour\<rparr>
      in (Inr (configuration, True),
          s\<lparr>regionNextHost := (regionNextHost s)(regionID \<mapsto> host + 1),
            idempotency := (idempotency s)(recordKey ownerID deviceID idempotencyKey \<mapsto>
              \<lparr>idem_regionID = regionID,
               idem_configuration = cloneConfiguration configuration\<rparr>)\<rparr>))"

end
