(* ===== verification/Device_Interface.thy ===== *)
theory Device_Interface
  imports Control
begin

text \<open>
  The interface the HTTP handlers use to reach devices and tunnels (\<^verbatim>\<open>DeviceService\<close> in
  \<^verbatim>\<open>internal/httpapi/devices.go\<close>), and the contract its providers keep. An operation takes
  an environment \<open>'e\<close> (clock, randomness, failures of what is outside the program) and the
  state \<open>'s\<close> of the provider. The contract speaks of a \<open>view\<close> of the state: for the text
  of a device id, the owner and the life-cycle state of the device it names;
  \<open>owner_of\<close> reads the text of an owner id. \<open>good\<close> are the environments without a
  failure, \<open>valid\<close> is the provider's invariant, and \<open>faithful\<close> are the configurations whose
  stored answer reads back as it was. Both the in-memory service (\<open>Control_Facts\<close>) and the PostgreSQL store
  (\<open>Store_Facts\<close>) are interpretations.
\<close>

record ('e, 's) device_ops =
  ds_ListDevices :: "'e \<Rightarrow> string \<Rightarrow> 's \<Rightarrow> Device list result"
  ds_RegisterDevice ::
    "'e \<Rightarrow> string \<Rightarrow> RegisterDeviceRequest \<Rightarrow> 's \<Rightarrow> Device result \<times> 's"
  ds_RequestRevocation :: "'e \<Rightarrow> string \<Rightarrow> string \<Rightarrow> 's \<Rightarrow> unit result \<times> 's"
  ds_CreateTunnelConfiguration ::
    "'e \<Rightarrow> string \<Rightarrow> string \<Rightarrow> string \<Rightarrow> string \<Rightarrow> 's
       \<Rightarrow> (TunnelConfiguration \<times> bool) result \<times> 's"

locale device_service =
  fixes ops :: "('e, 's) device_ops"
    and good :: "'e \<Rightarrow> bool"
    and view :: "'s \<Rightarrow> string \<Rightarrow> (string \<times> DeviceState) option"
    and owner_of :: "string \<Rightarrow> string option"
    and valid :: "'s \<Rightarrow> bool"
    and faithful :: "TunnelConfiguration \<Rightarrow> bool"
  assumes revoke_err: "good e \<Longrightarrow> ds_RequestRevocation ops e u d s = (Inl err, s') \<Longrightarrow> s' = s"
    and revoke_ok: "valid s \<Longrightarrow> ds_RequestRevocation ops e u d s = (Inr y, s') \<Longrightarrow>
      \<exists>w st st'. owner_of u = Some w \<and> view s d = Some (w, st) \<and> view s' d = Some (w, st')
        \<and> st' \<noteq> DeviceActive"
    and revoke_frame: "valid s \<Longrightarrow> ds_RequestRevocation ops e u d s = (res, s') \<Longrightarrow>
      view s d2 = Some (w, st) \<Longrightarrow> owner_of u \<noteq> Some w \<Longrightarrow> view s' d2 = view s d2"
    and configure_err: "good e \<Longrightarrow>
      ds_CreateTunnelConfiguration ops e u d rg k s = (Inl err, s') \<Longrightarrow> s' = s"
    and configure_ok: "valid s \<Longrightarrow> ds_CreateTunnelConfiguration ops e u d rg k s = (Inr (c, cr), s') \<Longrightarrow>
      \<exists>w. owner_of u = Some w \<and> view s d = Some (w, DeviceActive)"
    and configure_frame:
      "ds_CreateTunnelConfiguration ops e u d rg k s = (r, s') \<Longrightarrow> view s' = view s"
    and configure_replay: "valid s \<Longrightarrow> ds_CreateTunnelConfiguration ops e u d rg k s = (Inr (c, cr), s') \<Longrightarrow>
      good e' \<Longrightarrow> faithful c \<Longrightarrow> ds_CreateTunnelConfiguration ops e' u d rg k s' = (Inr (c, False), s')"
    and revoke_valid: "valid s \<Longrightarrow> ds_RequestRevocation ops e u d s = (res, s') \<Longrightarrow> valid s'"
    and configure_valid: "valid s \<Longrightarrow> ds_CreateTunnelConfiguration ops e u d rg k s = (r, s') \<Longrightarrow> valid s'"
begin

text \<open>A device of somebody else can be neither configured nor revoked, and nothing changes.\<close>

lemma configure_foreign:
  assumes "valid s" "good e" "view s d = Some (w, st)" "owner_of u \<noteq> Some w"
  shows "\<exists>err. ds_CreateTunnelConfiguration ops e u d rg k s = (Inl err, s)"
proof -
  obtain r s' where r: "ds_CreateTunnelConfiguration ops e u d rg k s = (r, s')" by fastforce
  show ?thesis
  proof (cases r)
    case (Inl err)
    with r configure_err [OF assms(2)] show ?thesis by blast
  next
    case (Inr q)
    with r configure_ok [of s e u d rg k "fst q" "snd q" s'] assms show ?thesis by auto
  qed
qed

lemma revoke_foreign:
  assumes "valid s" "good e" "view s d = Some (w, st)" "owner_of u \<noteq> Some w"
  shows "\<exists>err. ds_RequestRevocation ops e u d s = (Inl err, s)"
proof -
  obtain r s' where r: "ds_RequestRevocation ops e u d s = (r, s')" by fastforce
  show ?thesis
  proof (cases r)
    case (Inl err)
    with r revoke_err [OF assms(2)] show ?thesis by blast
  next
    case (Inr q)
    with r revoke_ok [of s e u d q s'] assms show ?thesis by auto
  qed
qed

text \<open>Once a revocation is accepted, no configuration is given out for the device.\<close>

lemma revoke_then_configure:
  assumes "valid s" "ds_RequestRevocation ops e u d s = (Inr y, s')" "good e'"
  shows "\<exists>err. ds_CreateTunnelConfiguration ops e' u d rg k s' = (Inl err, s')"
proof -
  from revoke_ok [OF assms(1,2)] obtain w st' where w: "owner_of u = Some w"
    "view s' d = Some (w, st')" "st' \<noteq> DeviceActive" by blast
  obtain r s'' where r: "ds_CreateTunnelConfiguration ops e' u d rg k s' = (r, s'')" by fastforce
  show ?thesis
  proof (cases r)
    case (Inl err)
    with r configure_err [OF assms(3)] show ?thesis by blast
  next
    case (Inr q)
    with r configure_ok [of s' e' u d rg k "fst q" "snd q" s''] revoke_valid [OF assms(1,2)] w
    show ?thesis by auto
  qed
qed

text \<open>However often a request is repeated, the answer is the first one.\<close>

lemma configure_replays:
  assumes "valid s" "ds_CreateTunnelConfiguration ops e u d rg k s = (Inr (c, cr), s')"
    and "faithful c" "\<forall>e'\<in>set es. good e'"
  shows "foldl (\<lambda>(rs, t) e'. case ds_CreateTunnelConfiguration ops e' u d rg k t of
           (r, t') \<Rightarrow> (rs @ [r], t')) ([], s') es = (map (\<lambda>_. Inr (c, False)) es, s')"
  using assms(4)
proof (induction es rule: rev_induct)
  case (snoc e' es)
  with configure_replay [OF assms(1,2) _ assms(3)] show ?case by simp
qed simp

end

end
