(* ===== verification/Control_Facts.thy ===== *)
theory Control_Facts
  imports Control Device_Interface
begin

text \<open>
  What the in-memory service keeps and promises: its invariant over every sequence of
  operations, the uniqueness of keys and of addresses, its capacity, the replay of an
  idempotency key, and the shape of the identifiers. The service is an interpretation of
  \<open>device_service\<close>.
\<close>

section \<open>Reachable services\<close>

datatype control_op =
    OpRegister "string result" time string RegisterDeviceRequest
  | OpRevoke string string
  | OpConfigure "string result" time string string string string

fun control_step :: "Service \<Rightarrow> control_op \<Rightarrow> Service" where
  "control_step s (OpRegister rand now u q) = snd (RegisterDevice rand now u q s)"
| "control_step s (OpRevoke u d) = snd (RequestRevocation u d s)"
| "control_step s (OpConfigure rand now u d r k) =
     snd (CreateTunnelConfiguration rand now u d r k s)"

text \<open>A random identifier that no device has yet.\<close>

fun fresh_op :: "Service \<Rightarrow> control_op \<Rightarrow> bool" where
  "fresh_op s (OpRegister rand now u q) =
     (case randomUUID rand of Inl _ \<Rightarrow> True | Inr d \<Rightarrow> devices s d = None)"
| "fresh_op s _ = True"

inductive control_reachable :: "Service \<Rightarrow> bool" where
  start: "NewService rs = Inr s \<Longrightarrow> control_reachable s"
| step: "control_reachable s \<Longrightarrow> fresh_op s op \<Longrightarrow> control_reachable (control_step s op)"

section \<open>The invariant\<close>

definition device_ok :: "Device \<Rightarrow> bool" where
  "device_ok d \<longleftrightarrow> trimSpace (dev_ownerID d) \<noteq> '''' \<and> dev_Name d \<noteq> ''''
     \<and> trimSpace (dev_Name d) = dev_Name d \<and> length (dev_Name d) \<le> 80
     \<and> validPlatform (dev_Platform d) \<and> validWireGuardPublicKey (dev_PublicKey d)"

definition devices_inv :: "Service \<Rightarrow> bool" where
  "devices_inv s \<longleftrightarrow>
     (\<forall>d a. devices s d = Some a \<longrightarrow>
        dev_ID a = d \<and> publicKeys s (dev_PublicKey a) = Some d \<and> device_ok a)"

definition records_in :: "Service \<Rightarrow> string \<Rightarrow> string set" where
  "records_in s r = {k. \<exists>q. idempotency s k = Some q \<and> idem_regionID q = r}"

definition hosts_inv :: "Service \<Rightarrow> bool" where
  "hosts_inv s \<longleftrightarrow>
     dom (regionNextHost s) = dom (regions s)
     \<and> (\<forall>r n. regionNextHost s r = Some n \<longrightarrow> 2 \<le> unat n \<and> unat n \<le> 255)
     \<and> (\<exists>host. (\<forall>k q. idempotency s k = Some q \<longrightarrow>
           tc_Addresses (idem_configuration q) = host_addresses (host k))
         \<and> (\<forall>r. bij_betw host (records_in s r)
               (case regionNextHost s r of None \<Rightarrow> {} | Some n \<Rightarrow> {2..<unat n})))"

lemma ValidateRegisterDevice_None:
  "ValidateRegisterDevice u q = None \<longleftrightarrow>
     trimSpace u \<noteq> '''' \<and> trimSpace (req_Name q) \<noteq> '''' \<and> length (req_Name q) \<le> 80
     \<and> validPlatform (req_Platform q) \<and> validWireGuardPublicKey (req_PublicKey q)"
  by (auto simp: ValidateRegisterDevice_def)

lemma ValidateRegisterDevice_err:
  "ValidateRegisterDevice u q = Some e \<Longrightarrow> e = ErrInvalidInput"
  by (auto simp: ValidateRegisterDevice_def split: if_splits)

lemma RegisterDevice_cases:
  assumes "RegisterDevice rand now u q s = (r, s')"
  obtains (err) e where "r = Inl e" "s' = s"
  | (ok) d a where "randomUUID rand = Inr d" "ValidateRegisterDevice u q = None"
      "publicKeys s (req_PublicKey q) = None" "r = Inr a"
      "a = \<lparr>dev_ID = d, dev_Name = trimSpace (req_Name q), dev_Platform = req_Platform q,
            dev_PublicKey = req_PublicKey q, dev_State = DeviceActive, dev_CreatedAt = now,
            dev_ownerID = u\<rparr>"
      "s' = s\<lparr>devices := (devices s)(d \<mapsto> a),
              publicKeys := (publicKeys s)(req_PublicKey q \<mapsto> d)\<rparr>"
  using assms by (auto simp: RegisterDevice_def Let_def split: option.splits if_splits sum.splits)

lemma RequestRevocation_cases:
  assumes "RequestRevocation u d s = (r, s')"
  obtains (err) "r = Inl ErrNotFound" "s' = s"
      "\<forall>a. devices s d = Some a \<longrightarrow> dev_ownerID a \<noteq> u"
  | (already) a where "r = Inr ()" "s' = s" "devices s d = Some a" "dev_ownerID a = u"
      "dev_State a = DeviceRevoked"
  | (ok) a where "r = Inr ()" "devices s d = Some a" "dev_ownerID a = u"
      "dev_State a \<noteq> DeviceRevoked"
      "s' = s\<lparr>devices := (devices s)(d \<mapsto> a\<lparr>dev_State := DeviceRevocationPending\<rparr>)\<rparr>"
  using assms by (auto simp: RequestRevocation_def split: option.splits if_splits)

lemma CreateTunnelConfiguration_cases:
  assumes "CreateTunnelConfiguration rand now u d rg k s = (r, s')"
  obtains (err) e where "r = Inl e" "s' = s"
  | (replay) a reg q where "16 \<le> length k" "length k \<le> 128" "devices s d = Some a"
      "dev_ownerID a = u" "dev_State a = DeviceActive" "regions s rg = Some reg"
      "reg_Available reg" "idempotency s (recordKey u d k) = Some q" "idem_regionID q = rg"
      "r = Inr (idem_configuration q, False)" "s' = s"
  | (new) a reg host c where "16 \<le> length k" "length k \<le> 128" "devices s d = Some a"
      "dev_ownerID a = u" "dev_State a = DeviceActive" "regions s rg = Some reg"
      "reg_Available reg" "idempotency s (recordKey u d k) = None"
      "host = (case regionNextHost s rg of None \<Rightarrow> 0 | Some h \<Rightarrow> h)" "host \<le> 254"
      "r = Inr (c, True)" "tc_Addresses c = host_addresses (unat host)"
      "s' = s\<lparr>regionNextHost := (regionNextHost s)(rg \<mapsto> host + 1),
              idempotency := (idempotency s)(recordKey u d k \<mapsto>
                \<lparr>idem_regionID = rg, idem_configuration = c\<rparr>)\<rparr>"
  using assms
  by (auto simp: CreateTunnelConfiguration_def Let_def not_less split: option.splits if_splits sum.splits)

section \<open>Every operation keeps the invariant\<close>

lemma devices_inv_register:
  assumes "devices_inv s" "fresh_op s (OpRegister rand now u q)"
  shows "devices_inv (snd (RegisterDevice rand now u q s))"
proof -
  obtain r s' where r: "RegisterDevice rand now u q s = (r, s')" by fastforce
  then show ?thesis
  proof (cases rule: RegisterDevice_cases)
    case (ok d a)
    then have "devices s d = None" and "device_ok a"
      using assms(2) by (auto simp: device_ok_def ValidateRegisterDevice_None trimSpace_idem
          intro: order_trans [OF length_trimSpace])
    moreover have "dev_PublicKey b \<noteq> req_PublicKey q" if "devices s x = Some b" for x b
      using that ok(3) assms(1) by (metis devices_inv_def option.distinct(1))
    ultimately show ?thesis using assms(1) r ok(5,6) by (simp add: devices_inv_def)
  qed (use assms r in simp)
qed

lemma devices_inv_revoke:
  assumes "devices_inv s"
  shows "devices_inv (snd (RequestRevocation u d s))"
proof -
  obtain r s' where r: "RequestRevocation u d s = (r, s')" by fastforce
  have "devices_inv s'"
    by (rule RequestRevocation_cases [OF r])
      (use assms in \<open>auto simp: devices_inv_def device_ok_def\<close>)
  with r show ?thesis by simp
qed

lemma devices_configure [simp]:
  "devices (snd (CreateTunnelConfiguration rand now u d rg k s)) = devices s"
  "publicKeys (snd (CreateTunnelConfiguration rand now u d rg k s)) = publicKeys s"
  "regions (snd (CreateTunnelConfiguration rand now u d rg k s)) = regions s"
proof -
  obtain r s' where r: "CreateTunnelConfiguration rand now u d rg k s = (r, s')" by fastforce
  then show "devices (snd (CreateTunnelConfiguration rand now u d rg k s)) = devices s"
    "publicKeys (snd (CreateTunnelConfiguration rand now u d rg k s)) = publicKeys s"
    "regions (snd (CreateTunnelConfiguration rand now u d rg k s)) = regions s"
    by (cases rule: CreateTunnelConfiguration_cases; simp)+
qed

lemma devices_inv_step:
  "devices_inv s \<Longrightarrow> fresh_op s op \<Longrightarrow> devices_inv (control_step s op)"
  by (cases op)
     (auto simp: devices_inv_register devices_inv_revoke,
      simp add: devices_inv_def)

lemma hosts_frame_register: "hosts_inv (snd (RegisterDevice rand now u q s)) = hosts_inv s"
proof -
  obtain r s' where r: "RegisterDevice rand now u q s = (r, s')" by fastforce
  have "hosts_inv s' = hosts_inv s"
    by (rule RegisterDevice_cases [OF r]) (simp_all add: hosts_inv_def records_in_def)
  with r show ?thesis by simp
qed

lemma hosts_frame_revoke: "hosts_inv (snd (RequestRevocation u d s)) = hosts_inv s"
proof -
  obtain r s' where r: "RequestRevocation u d s = (r, s')" by fastforce
  have "hosts_inv s' = hosts_inv s"
    by (rule RequestRevocation_cases [OF r]) (simp_all add: hosts_inv_def records_in_def)
  with r show ?thesis by simp
qed

lemma records_in_insert:
  assumes "idempotency s key = None"
    and "idempotency s' = (idempotency s)(key \<mapsto> \<lparr>idem_regionID = rg, idem_configuration = c\<rparr>)"
  shows "records_in s' r = (if r = rg then insert key (records_in s r) else records_in s r)"
    and "key \<notin> records_in s r"
  using assms by (auto simp: records_in_def)

lemma hosts_inv_allocate:
  assumes inv: "hosts_inv s" and reg: "regions s rg = Some reg"
    and key: "idempotency s key = None"
    and h: "h = (case regionNextHost s rg of None \<Rightarrow> 0 | Some h \<Rightarrow> h)" "h \<le> 254"
    and c: "tc_Addresses c = host_addresses (unat h)"
    and s': "s' = s\<lparr>regionNextHost := (regionNextHost s)(rg \<mapsto> h + 1),
              idempotency := (idempotency s)(key \<mapsto>
                \<lparr>idem_regionID = rg, idem_configuration = c\<rparr>)\<rparr>"
  shows "hosts_inv s'"
proof -
  from inv obtain host where
    a: "\<forall>k q. idempotency s k = Some q \<longrightarrow>
          tc_Addresses (idem_configuration q) = host_addresses (host k)"
    and b: "\<And>r. bij_betw host (records_in s r)
          (case regionNextHost s r of None \<Rightarrow> {} | Some n \<Rightarrow> {2..<unat n})"
    unfolding hosts_inv_def by blast
  from inv reg have "rg \<in> dom (regionNextHost s)" by (auto simp: hosts_inv_def)
  with h(1) have n: "regionNextHost s rg = Some h" by auto
  with inv have two: "2 \<le> unat h" by (auto simp: hosts_inv_def)
  have le: "unat h \<le> 254" using h(2) by (simp add: word_le_nat_alt)
  have suc: "unat (h + 1) = Suc (unat h)"
    using le by (simp add: unat_word_ariths)
  let ?host = "host(key := unat h)"
  note ins = records_in_insert [OF key, of s' rg c]
  have ins': "records_in s' r = (if r = rg then insert key (records_in s r) else records_in s r)"
    and out: "key \<notin> records_in s r" for r
    using ins by (simp_all add: s')
  have old: "bij_betw ?host (records_in s r)
      (case regionNextHost s r of None \<Rightarrow> {} | Some n \<Rightarrow> {2..<unat n})" for r
    using b [of r] out [of r] by (subst bij_betw_cong [where g = host]) auto
  have new: "bij_betw ?host (insert key (records_in s rg)) (insert (unat h) {2..<unat h})"
    using old [of rg] out [of rg] n unfolding bij_betw_def inj_on_insert image_insert by simp
  have rng: "{2..<unat (h + 1)} = insert (unat h) {2..<unat h}" using two suc by auto
  have "\<forall>r. bij_betw ?host (records_in s' r)
      (case regionNextHost s' r of None \<Rightarrow> {} | Some n \<Rightarrow> {2..<unat n})"
  proof
    fix r
    show "bij_betw ?host (records_in s' r)
      (case regionNextHost s' r of None \<Rightarrow> {} | Some n \<Rightarrow> {2..<unat n})"
      using old [of r] new ins' [of r] by (cases "r = rg") (simp_all add: s' rng)
  qed
  moreover have "\<forall>k q. idempotency s' k = Some q \<longrightarrow>
      tc_Addresses (idem_configuration q) = host_addresses (?host k)"
    using a c by (auto simp: s')
  moreover have "dom (regionNextHost s') = dom (regions s')"
    using inv n by (auto simp: hosts_inv_def s')
  moreover have "\<forall>r n. regionNextHost s' r = Some n \<longrightarrow> 2 \<le> unat n \<and> unat n \<le> 255"
    using inv two le suc by (auto simp: hosts_inv_def s')
  ultimately show ?thesis unfolding hosts_inv_def by blast
qed

lemma hosts_inv_configure:
  assumes "hosts_inv s"
  shows "hosts_inv (snd (CreateTunnelConfiguration rand now u d rg k s))"
proof -
  obtain r s' where r: "CreateTunnelConfiguration rand now u d rg k s = (r, s')" by fastforce
  then show ?thesis
  proof (cases rule: CreateTunnelConfiguration_cases)
    case (new a reg host c)
    then show ?thesis using hosts_inv_allocate [OF assms] r by simp
  qed (use assms r in simp_all)
qed

lemma hosts_inv_step: "hosts_inv s \<Longrightarrow> hosts_inv (control_step s op)"
  by (cases op) (simp_all add: hosts_frame_register hosts_frame_revoke hosts_inv_configure)

lemma add_regions_inv:
  "add_regions s rs = Inr s' \<Longrightarrow> devices s = Map.empty \<Longrightarrow> publicKeys s = Map.empty \<Longrightarrow>
   idempotency s = Map.empty \<Longrightarrow> dom (regionNextHost s) = dom (regions s) \<Longrightarrow>
   (\<And>r n. regionNextHost s r = Some n \<Longrightarrow> n = 2) \<Longrightarrow>
   devices_inv s' \<and> hosts_inv s'"
proof (induction s rs rule: add_regions.induct)
  case (1 s)
  have "s' = s" using "1.prems"(1) by simp
  have two: "regionNextHost s r = Some n \<Longrightarrow> unat n = 2" for r n
    using "1.prems"(6) [of r n] by simp
  have "records_in s r = {}" for r using "1.prems"(4) by (simp add: records_in_def)
  then have "bij_betw (\<lambda>_. 0) (records_in s r)
      (case regionNextHost s r of None \<Rightarrow> {} | Some n \<Rightarrow> {2..<unat n})" for r
    using two by (cases "regionNextHost s r") (simp_all add: bij_betw_def)
  then have "hosts_inv s"
    unfolding hosts_inv_def using "1.prems" two by auto
  then show ?case using "1.prems" \<open>s' = s\<close> by (simp add: devices_inv_def)
next
  case (2 s region rest)
  from "2.prems"(1) have v: "validateRegion region = None" "\<not> regions s (reg_ID region) \<noteq> None"
    "add_regions (s\<lparr>regions := (regions s)(reg_ID region \<mapsto> region),
       regionNextHost := (regionNextHost s)(reg_ID region \<mapsto> 2)\<rparr>) rest = Inr s'"
    by (auto split: option.splits if_splits)
  let ?t = "s\<lparr>regions := (regions s)(reg_ID region \<mapsto> region),
       regionNextHost := (regionNextHost s)(reg_ID region \<mapsto> 2)\<rparr>"
  have dom: "dom (regionNextHost ?t) = dom (regions ?t)"
    using "2.prems"(5) by (simp add: dom_fun_upd del: fun_upd_apply)
  show ?case
    by (rule "2.IH" [OF v _ _ _ dom]) (use "2.prems"(2-4,6) in \<open>simp_all split: if_splits\<close>)
qed

lemma control_reachable_inv: "control_reachable s \<Longrightarrow> devices_inv s \<and> hosts_inv s"
proof (induction rule: control_reachable.induct)
  case (start rs s)
  then show ?case
    unfolding NewService_def by (rule add_regions_inv) (simp_all add: empty_service_def)
next
  case (step s op)
  then show ?case by (simp add: devices_inv_step hosts_inv_step)
qed

section \<open>Properties of the service\<close>

lemma host_addresses_disjoint: "h \<noteq> h' \<Longrightarrow> set (host_addresses h) \<inter> set (host_addresses h') = {}"
  by (simp add: host_addresses_def itoa_inj hex_inj)

lemma records_bij:
  assumes "hosts_inv s" "idempotency s k1 = Some q1" "idempotency s k2 = Some q2"
    and "k1 \<noteq> k2" "idem_regionID q1 = idem_regionID q2"
  shows "\<exists>h1 h2. h1 \<noteq> h2 \<and> tc_Addresses (idem_configuration q1) = host_addresses h1
     \<and> tc_Addresses (idem_configuration q2) = host_addresses h2"
proof -
  from assms(1) obtain host where
    a: "\<forall>k q. idempotency s k = Some q \<longrightarrow>
          tc_Addresses (idem_configuration q) = host_addresses (host k)"
    and b: "\<And>r. bij_betw host (records_in s r)
          (case regionNextHost s r of None \<Rightarrow> {} | Some n \<Rightarrow> {2..<unat n})"
    unfolding hosts_inv_def by blast
  have "k1 \<in> records_in s (idem_regionID q1)" "k2 \<in> records_in s (idem_regionID q1)"
    using assms by (auto simp: records_in_def)
  with b [of "idem_regionID q1"] assms(4) have "host k1 \<noteq> host k2"
    unfolding bij_betw_def inj_on_def by blast
  with a assms(2,3) show ?thesis by blast
qed

lemma records_card:
  assumes "hosts_inv s" "regions s r = Some reg"
  shows "\<exists>n. regionNextHost s r = Some n \<and> unat n = card (records_in s r) + 2
     \<and> card (records_in s r) \<le> 253"
proof -
  from assms have "r \<in> dom (regionNextHost s)" by (auto simp: hosts_inv_def)
  then obtain n where n: "regionNextHost s r = Some n" by blast
  with assms(1) have r: "2 \<le> unat n" "unat n \<le> 255"
    and "\<exists>host. bij_betw host (records_in s r) {2..<unat n}"
    by (auto simp: hosts_inv_def split: option.splits) (metis option.simps(5))+
  then have "card (records_in s r) = unat n - 2" using bij_betw_same_card by fastforce
  with r have "unat n = card (records_in s r) + 2" "card (records_in s r) \<le> 253" by linarith+
  with n show ?thesis by blast
qed

text \<open>A service with one available region, one device and one configuration, for witnesses.\<close>

definition sample_key :: string where
  "sample_key = encode64 StdEncoding (replicate 32 CHR 0x07)"

definition sample_region :: Region where
  "sample_region = \<lparr>reg_ID = ''pt-lis'', reg_DisplayName = ''Lisboa'', reg_Available = True,
     reg_Endpoint = ''pt.example:51820'', reg_ServerPublicKey = sample_key,
     reg_DNSv4 = ''10.70.0.1'', reg_DNSv6 = ''fd70::1''\<rparr>"

definition sample_request :: RegisterDeviceRequest where
  "sample_request = \<lparr>req_Name = ''phone'', req_Platform = PlatformAndroid,
     req_PublicKey = sample_key\<rparr>"

definition sample_random :: string where
  "sample_random = replicate 16 CHR 0x00"

definition sample_id :: string where
  "sample_id = ''00000000-0000-4000-8000-000000000000''"

definition sample_service0 :: Service where
  "sample_service0 = empty_service\<lparr>regions := [''pt-lis'' \<mapsto> sample_region],
     regionNextHost := [''pt-lis'' \<mapsto> 2]\<rparr>"

definition sample_service :: Service where
  "sample_service = control_step sample_service0
     (OpRegister (Inr sample_random) 0 ''alice'' sample_request)"

lemma sample_uuid: "randomUUID (Inr sample_random) = Inr sample_id"
  by code_simp

lemma sample_key_valid: "validWireGuardPublicKey sample_key"
  by (simp add: sample_key_def)

lemma sample_trims:
  "trimSpace ''alice'' = ''alice''" "trimSpace ''phone'' = ''phone''"
  "trimSpace ''pt-lis'' = ''pt-lis''" "trimSpace ''Lisboa'' = ''Lisboa''"
  "trimSpace ''pt.example:51820'' = ''pt.example:51820''" "trimSpace ''10.70.0.1'' = ''10.70.0.1''"
  "trimSpace ''fd70::1'' = ''fd70::1''"
  by code_simp+

lemma sample_service0_reachable: "control_reachable sample_service0"
proof (rule control_reachable.start)
  show "NewService [sample_region] = Inr sample_service0"
    by (simp add: NewService_def validateRegion_def sample_region_def sample_key_valid
        sample_trims empty_service_def sample_service0_def)
qed

definition sample_device :: Device where
  "sample_device = \<lparr>dev_ID = sample_id, dev_Name = ''phone'', dev_Platform = PlatformAndroid,
     dev_PublicKey = sample_key, dev_State = DeviceActive, dev_CreatedAt = 0,
     dev_ownerID = ''alice''\<rparr>"

lemma sample_service_eq:
  "sample_service = sample_service0\<lparr>devices := [sample_id \<mapsto> sample_device],
     publicKeys := [sample_key \<mapsto> sample_id]\<rparr>"
  by (simp add: sample_service_def RegisterDevice_def ValidateRegisterDevice_def sample_request_def
      sample_trims validPlatform_def sample_key_valid sample_uuid sample_service0_def
      empty_service_def sample_device_def Let_def)

lemma sample_service_reachable: "control_reachable sample_service"
  unfolding sample_service_def
  by (rule control_reachable.step [OF sample_service0_reachable])
     (simp add: sample_uuid sample_service0_def empty_service_def)

section \<open>The contract of the device interface\<close>

text \<open>The operations in the shape of the interface: the environment is randomness and clock.\<close>

definition control_ops :: "(string list \<times> string result \<times> time, Service) device_ops" where
  "control_ops =
     \<lparr>ds_ListDevices = (\<lambda>(order, rand, now) u s. Inr (ListDevices order u s)),
      ds_RegisterDevice = (\<lambda>(order, rand, now) u q s. RegisterDevice rand now u q s),
      ds_RequestRevocation = (\<lambda>e u d s. RequestRevocation u d s),
      ds_CreateTunnelConfiguration =
        (\<lambda>(order, rand, now) u d r k s. CreateTunnelConfiguration rand now u d r k s)\<rparr>"

definition control_view :: "Service \<Rightarrow> string \<Rightarrow> (string \<times> DeviceState) option" where
  "control_view s d = map_option (\<lambda>a. (dev_ownerID a, dev_State a)) (devices s d)"

lemma control_replay_lemma:
  assumes "CreateTunnelConfiguration rand now u d rg k s = (Inr (c, cr), s')"
  shows "CreateTunnelConfiguration rand' now' u d rg k s' = (Inr (c, False), s')"
  using assms
  by (cases rule: CreateTunnelConfiguration_cases)
     (auto simp: CreateTunnelConfiguration_def)

interpretation control_ds:
  device_service control_ops "\<lambda>_. True" control_view Some "\<lambda>_. True" "\<lambda>_. True"
proof (unfold_locales, goal_cases)
  case (1 e u d s err s')
  then have "RequestRevocation u d s = (Inl err, s')" by (simp add: control_ops_def)
  then show ?case by (cases rule: RequestRevocation_cases) auto
next
  case (2 s e u d y s')
  then have "RequestRevocation u d s = (Inr y, s')" by (simp add: control_ops_def)
  then show ?case by (cases rule: RequestRevocation_cases) (auto simp: control_view_def)
next
  case (3 s e u d res s' d2 w st)
  then have "RequestRevocation u d s = (res, s')" by (simp add: control_ops_def)
  then show ?case
    by (cases rule: RequestRevocation_cases) (use 3 in \<open>auto simp: control_view_def\<close>)
next
  case (4 e u d rg k s err s')
  then have "CreateTunnelConfiguration (fst (snd e)) (snd (snd e)) u d rg k s = (Inl err, s')"
    by (simp add: control_ops_def split: prod.splits)
  then show ?case by (cases rule: CreateTunnelConfiguration_cases) auto
next
  case (5 s e u d rg k c cr s')
  then have "CreateTunnelConfiguration (fst (snd e)) (snd (snd e)) u d rg k s = (Inr (c, cr), s')"
    by (simp add: control_ops_def split: prod.splits)
  then show ?case by (cases rule: CreateTunnelConfiguration_cases) (auto simp: control_view_def)
next
  case (6 e u d rg k s r s')
  then have r: "CreateTunnelConfiguration (fst (snd e)) (snd (snd e)) u d rg k s = (r, s')"
    by (simp add: control_ops_def split: prod.splits)
  then have "devices s' = devices s" using devices_configure(1) by (metis snd_conv)
  then show ?case by (simp add: control_view_def fun_eq_iff)
next
  case (7 s e u d rg k c cr s' e')
  then have "CreateTunnelConfiguration (fst (snd e)) (snd (snd e)) u d rg k s = (Inr (c, cr), s')"
    by (simp add: control_ops_def split: prod.splits)
  then show ?case by (simp add: control_ops_def control_replay_lemma split: prod.splits)
qed simp_all

section \<open>Properties\<close>

text \<open>
  In every service that can be reached from a valid list of regions by registrations,
  revocations and configurations, a device is stored under its own identifier, was validated
  (owner, trimmed name of at most 80 bytes, known platform, well-formed key), and its public
  key belongs to no other device.
\<close>

theorem control_devices_unique_keys:
  assumes "control_reachable s" "devices s d = Some a"
  shows "dev_ID a = d \<and> device_ok a
     \<and> (\<forall>d' b. devices s d' = Some b \<and> dev_PublicKey b = dev_PublicKey a \<longrightarrow> d' = d)"
proof -
  from assms(1) control_reachable_inv have inv: "devices_inv s" by blast
  with assms(2) have a: "dev_ID a = d" "publicKeys s (dev_PublicKey a) = Some d" "device_ok a"
    by (auto simp: devices_inv_def)
  have "d' = d" if "devices s d' = Some b" "dev_PublicKey b = dev_PublicKey a" for d' b
    using inv that a(2) unfolding devices_inv_def by (metis option.inject)
  with a show ?thesis by blast
qed

theorem control_devices_unique_keys_witness:
  "control_reachable sample_service \<and> devices sample_service sample_id = Some sample_device
     \<and> device_ok sample_device"
proof -
  have d: "devices sample_service sample_id = Some sample_device"
    by (simp add: sample_service_eq)
  from control_devices_unique_keys [OF sample_service_reachable d] d sample_service_reachable
  show ?thesis by blast
qed

text \<open>
  C39: In every reachable service, two different requests (idempotency records) that were given
  a configuration in the same region got disjoint tunnel addresses.
\<close>

theorem control_addresses_unique:
  assumes "control_reachable s"
    and "idempotency s k1 = Some q1" "idempotency s k2 = Some q2" "k1 \<noteq> k2"
    and "idem_regionID q1 = idem_regionID q2"
  shows "set (tc_Addresses (idem_configuration q1)) \<inter> set (tc_Addresses (idem_configuration q2)) = {}"
proof -
  from assms(1) control_reachable_inv have "hosts_inv s" by blast
  from records_bij [OF this assms(2-5)] obtain h1 h2 where "h1 \<noteq> h2"
    "tc_Addresses (idem_configuration q1) = host_addresses h1"
    "tc_Addresses (idem_configuration q2) = host_addresses h2" by blast
  then show ?thesis using host_addresses_disjoint by metis
qed

definition sample_request2 :: "string \<Rightarrow> control_op" where
  "sample_request2 k = OpConfigure (Inr sample_random) 0 ''alice'' sample_id ''pt-lis'' k"

definition sample_service2 :: Service where
  "sample_service2 = control_step (control_step sample_service (sample_request2 ''0123456789abcdef''))
     (sample_request2 ''0123456789abcdeF'')"

lemma sample_service2_reachable: "control_reachable sample_service2"
  unfolding sample_service2_def sample_request2_def
  by (rule control_reachable.step, rule control_reachable.step, rule sample_service_reachable)
     simp_all

theorem control_addresses_unique_witness:
  "\<exists>q1 q2. idempotency sample_service2 (recordKey ''alice'' sample_id ''0123456789abcdef'') = Some q1
     \<and> idempotency sample_service2 (recordKey ''alice'' sample_id ''0123456789abcdeF'') = Some q2
     \<and> set (tc_Addresses (idem_configuration q1)) \<inter> set (tc_Addresses (idem_configuration q2)) = {}"
proof -
  let ?k1 = "recordKey ''alice'' sample_id ''0123456789abcdef''"
  let ?k2 = "recordKey ''alice'' sample_id ''0123456789abcdeF''"
  have ne: "?k1 \<noteq> ?k2" by (simp add: recordKey_def)
  have "\<exists>q1 q2. idempotency sample_service2 ?k1 = Some q1 \<and> idempotency sample_service2 ?k2 = Some q2
     \<and> idem_regionID q1 = ''pt-lis'' \<and> idem_regionID q2 = ''pt-lis''"
    using ne
    by (simp add: sample_service2_def sample_request2_def CreateTunnelConfiguration_def
        sample_service_eq sample_service0_def empty_service_def sample_device_def
        sample_region_def sample_uuid Let_def)
  then obtain q1 q2 where q: "idempotency sample_service2 ?k1 = Some q1"
    "idempotency sample_service2 ?k2 = Some q2" "idem_regionID q1 = idem_regionID q2" by auto
  from control_addresses_unique [OF sample_service2_reachable q(1,2) ne q(3)] q(1,2)
  show ?thesis by blast
qed

text \<open>
  A region serves exactly 253 allocations: in a reachable service, a request with a new
  idempotency key for an active device of the caller and an available region is refused for
  lack of capacity if and only if 253 requests already hold a configuration in the region, and
  otherwise it is granted.
\<close>

theorem control_capacity:
  assumes "control_reachable s"
    and "16 \<le> length k" "length k \<le> 128"
    and "devices s d = Some a" "dev_ownerID a = u" "dev_State a = DeviceActive"
    and "regions s rg = Some reg" "reg_Available reg"
    and "idempotency s (recordKey u d k) = None" "randomUUID rand = Inr i"
  shows "(fst (CreateTunnelConfiguration rand now u d rg k s) = Inl ErrCapacityExhausted
           \<longleftrightarrow> card (records_in s rg) = 253)
     \<and> (card (records_in s rg) = 253
         \<or> (\<exists>c. fst (CreateTunnelConfiguration rand now u d rg k s) = Inr (c, True)))"
proof -
  from assms(1) control_reachable_inv have "hosts_inv s" by blast
  with assms(7) records_card obtain n where n: "regionNextHost s rg = Some n"
    "unat n = card (records_in s rg) + 2" "card (records_in s rg) \<le> 253" by blast
  then have "254 < n \<longleftrightarrow> card (records_in s rg) = 253" by (auto simp: word_less_nat_alt)
  with assms(2-) n(1) show ?thesis by (simp add: CreateTunnelConfiguration_def Let_def)
qed

lemma sample_service_records: "records_in sample_service r = {}"
  by (simp add: records_in_def sample_service_eq sample_service0_def empty_service_def)

theorem control_capacity_witness:
  "\<exists>c. fst (CreateTunnelConfiguration (Inr sample_random) 0 ''alice'' sample_id ''pt-lis''
        ''0123456789abcdef'' sample_service) = Inr (c, True)"
proof -
  have h: "devices sample_service sample_id = Some sample_device"
    "dev_ownerID sample_device = ''alice''" "dev_State sample_device = DeviceActive"
    "regions sample_service ''pt-lis'' = Some sample_region" "reg_Available sample_region"
    "idempotency sample_service (recordKey ''alice'' sample_id ''0123456789abcdef'') = None"
    by (simp_all add: sample_service_eq sample_service0_def empty_service_def sample_device_def
        sample_region_def)
  have l: "16 \<le> length ''0123456789abcdef''" "length ''0123456789abcdef'' \<le> 128" by simp_all
  show ?thesis
    using control_capacity [OF sample_service_reachable l h sample_uuid, of 0]
    by (simp add: sample_service_records)
qed

text \<open>
  A device of somebody else and a device that does not exist look the same: for a caller
  who is not the owner, revoking and configuring answer exactly what they would answer if the
  device were absent, and the service does not change.
\<close>

theorem control_hides_foreign_devices:
  assumes "devices s d = Some a" "dev_ownerID a \<noteq> u"
  shows "RequestRevocation u d s = (fst (RequestRevocation u d (s\<lparr>devices := (devices s)(d := None)\<rparr>)), s)
     \<and> CreateTunnelConfiguration rand now u d rg k s
         = (fst (CreateTunnelConfiguration rand now u d rg k
              (s\<lparr>devices := (devices s)(d := None)\<rparr>)), s)"
  using assms by (simp add: RequestRevocation_def CreateTunnelConfiguration_def)

theorem control_hides_foreign_devices_witness:
  "fst (RequestRevocation ''mallory'' sample_id sample_service) = Inl ErrNotFound"
proof -
  have "devices sample_service sample_id = Some sample_device"
    "dev_ownerID sample_device \<noteq> ''mallory''"
    by (simp_all add: sample_service_eq sample_device_def)
  from control_hides_foreign_devices [OF this, THEN conjunct1] show ?thesis
    by (simp add: RequestRevocation_def)
qed

text \<open>
  Asking again with the same idempotency key returns the configuration of the first answer,
  marked as not newly created, and changes nothing, whatever the clock and the randomness are;
  so any number of repetitions allocates at most one address.
\<close>

theorem control_configuration_idempotent:
  assumes "CreateTunnelConfiguration rand now u d rg k s = (Inr (c, cr), s')"
  shows "CreateTunnelConfiguration rand' now' u d rg k s' = (Inr (c, False), s')"
  using control_ds.configure_replay [where e = "([], rand, now)" and e' = "([], rand', now')"]
    assms by (simp add: control_ops_def)

theorem control_configuration_idempotent_witness:
  "\<exists>c s'. CreateTunnelConfiguration (Inr sample_random) 0 ''alice'' sample_id ''pt-lis''
        ''0123456789abcdef'' sample_service = (Inr (c, True), s')
     \<and> CreateTunnelConfiguration (Inl (ErrText ''entropy'')) 99 ''alice'' sample_id ''pt-lis''
        ''0123456789abcdef'' s' = (Inr (c, False), s')"
proof -
  have "\<exists>c s'. CreateTunnelConfiguration (Inr sample_random) 0 ''alice'' sample_id ''pt-lis''
        ''0123456789abcdef'' sample_service = (Inr (c, True), s')"
    by (simp add: CreateTunnelConfiguration_def sample_service_eq sample_service0_def
        empty_service_def sample_device_def sample_region_def sample_uuid Let_def)
  then show ?thesis using control_configuration_idempotent by blast
qed

section \<open>Identifiers\<close>

lemma and_low_bits:
  fixes n :: nat
  shows "n AND 0x0f = n mod 16" "n AND 0x3f = n mod 64"
proof -
  have "n AND 0x0f = take_bit 4 n" "n AND 0x3f = take_bit 6 n"
    by (simp_all add: take_bit_eq_mask mask_eq_exp_minus_1)
  then show "n AND 0x0f = n mod 16" "n AND 0x3f = n mod 64"
    by (simp_all add: take_bit_eq_mod)
qed

lemma high_nibble_or:
  fixes m :: nat
  shows "(of_char (char_of (m OR k) :: char) :: nat) div 16 = (m div 16 OR k div 16) mod 16"
proof -
  have "x mod 256 div 16 = x div 16 mod 16" for x :: nat
    using mod_mult2_eq [of x 16 16] by simp
  moreover have "(m OR k) div 16 = (m div 16 OR k div 16)"
    using drop_bit_or [of 4 m k] by (simp add: drop_bit_eq_div)
  ultimately show ?thesis by simp
qed

lemma set_version_nibble: "(of_char (set_version c) :: nat) div 16 = 4"
  unfolding set_version_def high_nibble_or and_low_bits by simp

lemma set_variant_nibble: "(of_char (set_variant c) :: nat) div 16 \<in> {8..<12}"
proof -
  define k where "k = of_char c mod 64 div (16::nat)"
  have "k < 4" by (simp add: k_def less_mult_imp_div_less)
  then have "k = 0 \<or> k = 1 \<or> k = 2 \<or> k = 3" by presburger
  then have "(k OR 8) mod 16 \<in> {8..<12}" by (elim disjE) simp_all
  then show ?thesis
    unfolding set_variant_def high_nibble_or and_low_bits k_def by simp
qed

lemma length16_cases:
  assumes "length v = 16"
  obtains a0 a1 a2 a3 a4 a5 a6 a7 a8 a9 a10 a11 a12 a13 a14 a15
  where "v = [a0, a1, a2, a3, a4, a5, a6, a7, a8, a9, a10, a11, a12, a13, a14, a15]"
  using assms by (auto simp: length_Suc_conv numeral_eq_Suc)

lemma variant_digit: "n \<in> {8..<12} \<Longrightarrow> digit_char n \<in> set ''89ab''"
proof -
  have "list_all (\<lambda>n. digit_char n \<in> set ''89ab'') [8..<12]" by code_simp
  from list_all_uptD [OF this] show "n \<in> {8..<12} \<Longrightarrow> digit_char n \<in> set ''89ab''" by simp
qed

text \<open>
  A generated identifier is a version 4 UUID in its canonical text form: 36 characters,
  hyphens in places 8, 13, 18 and 23, the version digit 4 and a variant digit 8, 9, a or b.
\<close>

theorem randomUUID_shape:
  assumes "length value = 16"
  shows "\<exists>u. randomUUID (Inr value) = Inr u \<and> length u = 36
     \<and> u ! 8 = CHR ''-'' \<and> u ! 13 = CHR ''-'' \<and> u ! 18 = CHR ''-'' \<and> u ! 23 = CHR ''-''
     \<and> u ! 14 = CHR ''4'' \<and> u ! 19 \<in> set ''89ab''"
  using assms
proof (rule length16_cases)
  fix a0 a1 a2 a3 a4 a5 a6 a7 a8 a9 a10 a11 a12 a13 a14 a15
  assume v: "value = [a0, a1, a2, a3, a4, a5, a6, a7, a8, a9, a10, a11, a12, a13, a14, a15]"
  have "digit_char 4 = CHR ''4''" by code_simp
  moreover have "digit_char (of_char (set_variant a8) div 16) \<in> set ''89ab''"
    by (rule variant_digit) (rule set_variant_nibble)
  ultimately show ?thesis
    unfolding v
    by (simp add: randomUUID_def uuid_string_def hex_bytes_def hex_byte_def set_version_nibble)
qed

theorem randomUUID_shape_witness:
  "\<exists>u. randomUUID (Inr sample_random) = Inr u \<and> length u = 36 \<and> u ! 14 = CHR ''4''"
  using randomUUID_shape [of sample_random] by (auto simp: sample_random_def)

end
