(* ===== verification/Session.thy ===== *)
theory Session
  imports Go_Base64
begin

text \<open>
  Access and refresh tokens, \<^verbatim>\<open>internal/auth/session.go\<close>. The store keeps three Go maps,
  keyed by the SHA-256 hash of a token: the live sessions, the hashes of each token family
  and the consumed refresh tokens with their owner. SHA-256 is the parameter \<open>sha\<close>. The
  bytes \<^verbatim>\<open>rand.Read\<close> gives are the parameter \<open>rand\<close>, one result per draw of the operation,
  and the readings of \<^verbatim>\<open>s.now()\<close> are parameters; so is the order in which Go ranges over the
  families. The set of hashes of a family is a list without repetition: the loops over it
  only ask whether some hash satisfies a test or delete each of them, so its order is not
  observable.

  A step of the store is any operation with any arguments and clock readings, whose random
  draws either fail or give tokens not seen before (\<open>fresh_draws\<close>). The invariant ties the
  three maps together, and the properties say who can still authenticate after each
  operation.
\<close>

section \<open>State\<close>

definition accessTokenLifetime :: duration where "accessTokenLifetime = 15 * minute"
definition refreshTokenLifetime :: duration where "refreshTokenLifetime = 30 * 24 * hour"
definition tokenPrefix :: string where "tokenPrefix = ''pv1_''"

record token_pair =
  AccessToken :: string
  RefreshToken :: string
  AccessExpiresAt :: time
  RefreshExpiresAt :: time

record session =
  session_userID :: string
  session_familyID :: string
  session_expiresAt :: time
  session_kind :: string

type_synonym hash = string

record session_store =
  sessions :: "hash \<rightharpoonup> session"
  families :: "string \<rightharpoonup> hash list"
  consumed :: "hash \<rightharpoonup> string"

definition NewSessionStore :: session_store where
  "NewSessionStore = \<lparr>sessions = Map.empty, families = Map.empty, consumed = Map.empty\<rparr>"

section \<open>Tokens\<close>

definition randomToken :: "string result \<Rightarrow> string result" where
  "randomToken r = (case r of
     Inl err \<Rightarrow> Inl (Wrapped ''generate session token'' err)
   | Inr bytes \<Rightarrow> Inr (tokenPrefix @ encode64 RawURLEncoding bytes))"

definition tokenHash :: "(string \<Rightarrow> hash) \<Rightarrow> string \<Rightarrow> hash option" where
  "tokenHash sha token =
     (if length token \<noteq> length tokenPrefix + 43 \<or> length token < length tokenPrefix
         \<or> take (length tokenPrefix) token \<noteq> tokenPrefix then None
      else case decode64 RawURLEncoding (drop (length tokenPrefix) token) of
        None \<Rightarrow> None
      | Some decoded \<Rightarrow> if length decoded \<noteq> 32 then None else Some (sha token))"

text \<open>\<^verbatim>\<open>hash, _ := tokenHash(token)\<close> in \<^verbatim>\<open>issueLocked\<close>: the zero array when there is none.\<close>

definition tokenHash_or_zero :: "(string \<Rightarrow> hash) \<Rightarrow> string \<Rightarrow> hash" where
  "tokenHash_or_zero sha token =
     (case tokenHash sha token of None \<Rightarrow> replicate 32 CHR 0x00 | Some h \<Rightarrow> h)"

section \<open>Operations\<close>

definition issueLocked ::
  "(string \<Rightarrow> hash) \<Rightarrow> string result \<Rightarrow> string \<Rightarrow> string \<Rightarrow> string \<Rightarrow> time \<Rightarrow> session_store
   \<Rightarrow> string result \<times> session_store" where
  "issueLocked sha r userID familyID kind expiresAt s =
     (case randomToken r of
        Inl err \<Rightarrow> (Inl err, s)
      | Inr token \<Rightarrow>
          let h = tokenHash_or_zero sha token in
          (Inr token,
           s\<lparr>sessions := (sessions s)(h \<mapsto> \<lparr>session_userID = userID, session_familyID = familyID,
                                        session_expiresAt = expiresAt, session_kind = kind\<rparr>),
             families := (families s)(familyID \<mapsto>
               List.insert h (case families s familyID of None \<Rightarrow> [] | Some hs \<Rightarrow> hs))\<rparr>))"

text \<open>
  The common tail of \<^verbatim>\<open>Issue\<close> and \<^verbatim>\<open>RotateRefresh\<close>, lines 57--71 and 99--113: a new family
  with an access and a refresh token, three random draws in this order. On a failed draw what
  was stored before stays.
\<close>

definition issue_family ::
  "(string \<Rightarrow> hash) \<Rightarrow> (nat \<Rightarrow> string result) \<Rightarrow> time \<Rightarrow> string \<Rightarrow> session_store
   \<Rightarrow> token_pair result \<times> session_store" where
  "issue_family sha rand now userID s =
     (case randomToken (rand 0) of
        Inl err \<Rightarrow> (Inl err, s)
      | Inr familyID \<Rightarrow>
          let s1 = s\<lparr>families := (families s)(familyID \<mapsto> [])\<rparr> in
          (case issueLocked sha (rand 1) userID familyID ''access'' (now + accessTokenLifetime) s1 of
             (Inl err, s2) \<Rightarrow> (Inl err, s2)
           | (Inr access, s2) \<Rightarrow>
               (case issueLocked sha (rand 2) userID familyID ''refresh''
                       (now + refreshTokenLifetime) s2 of
                  (Inl err, s3) \<Rightarrow> (Inl err, s3)
                | (Inr refresh, s3) \<Rightarrow>
                    (Inr \<lparr>AccessToken = access, RefreshToken = refresh,
                          AccessExpiresAt = now + accessTokenLifetime,
                          RefreshExpiresAt = now + refreshTokenLifetime\<rparr>, s3))))"

definition Issue ::
  "(string \<Rightarrow> hash) \<Rightarrow> (nat \<Rightarrow> string result) \<Rightarrow> time \<Rightarrow> string \<Rightarrow> session_store
   \<Rightarrow> token_pair result \<times> session_store" where
  "Issue sha rand now userID s =
     (if userID = '''' then (Inl (ErrText ''user id is required''), s)
      else issue_family sha rand now userID s)"

definition revokeFamilyLocked :: "string \<Rightarrow> session_store \<Rightarrow> session_store" where
  "revokeFamilyLocked familyID s =
     (case families s familyID of
        None \<Rightarrow> s\<lparr>families := (families s)(familyID := None)\<rparr>
      | Some hashes \<Rightarrow>
          s\<lparr>sessions := fold (\<lambda>h m. m(h := None)) hashes (sessions s),
            families := (families s)(familyID := None)\<rparr>)"

text \<open>One turn of the loop over the families in \<^verbatim>\<open>RevokeUser\<close> and \<^verbatim>\<open>revokeUserLocked\<close>.\<close>

definition family_of_user :: "string \<Rightarrow> session_store \<Rightarrow> hash list \<Rightarrow> bool" where
  "family_of_user userID s hashes \<longleftrightarrow>
     list_ex (\<lambda>h. case sessions s h of None \<Rightarrow> False | Some r \<Rightarrow> session_userID r = userID) hashes"

definition revoke_turn :: "string \<Rightarrow> string \<Rightarrow> session_store \<Rightarrow> session_store" where
  "revoke_turn userID familyID s =
     (case families s familyID of
        None \<Rightarrow> s
      | Some hashes \<Rightarrow>
          if family_of_user userID s hashes then revokeFamilyLocked familyID s else s)"

definition revokeUserLocked :: "string list \<Rightarrow> string \<Rightarrow> session_store \<Rightarrow> session_store" where
  "revokeUserLocked order userID s = fold (revoke_turn userID) order s"

definition RevokeUser :: "string list \<Rightarrow> string \<Rightarrow> session_store \<Rightarrow> session_store" where
  "RevokeUser order userID s = fold (revoke_turn userID) order s"

definition authenticate ::
  "(string \<Rightarrow> hash) \<Rightarrow> time \<Rightarrow> string \<Rightarrow> string \<Rightarrow> session_store \<Rightarrow> string option" where
  "authenticate sha now token kind s =
     (case tokenHash sha token of
        None \<Rightarrow> None
      | Some h \<Rightarrow>
          (case sessions s h of
             None \<Rightarrow> None
           | Some r \<Rightarrow>
               if session_kind r \<noteq> kind \<or> \<not> time_before now (session_expiresAt r) then None
               else Some (session_userID r)))"

definition AuthenticateAccess ::
  "(string \<Rightarrow> hash) \<Rightarrow> time \<Rightarrow> string \<Rightarrow> session_store \<Rightarrow> string option" where
  "AuthenticateAccess sha now token s = authenticate sha now token ''access'' s"

text \<open>
  \<open>now\<close> is the clock reading of the expiry test and \<open>now'\<close> the one of the new pair; \<open>order\<close>
  is the order of the loop of \<^verbatim>\<open>revokeUserLocked\<close>.
\<close>

definition RotateRefresh ::
  "(string \<Rightarrow> hash) \<Rightarrow> (nat \<Rightarrow> string result) \<Rightarrow> string list \<Rightarrow> time \<Rightarrow> time \<Rightarrow> string \<Rightarrow> session_store
   \<Rightarrow> (token_pair \<times> string) option \<times> session_store" where
  "RotateRefresh sha rand order now now' token s =
     (case tokenHash sha token of
        None \<Rightarrow> (None, s)
      | Some h \<Rightarrow>
          (case sessions s h of
             None \<Rightarrow>
               (case consumed s h of
                  None \<Rightarrow> (None, s)
                | Some consumedUserID \<Rightarrow> (None, revokeUserLocked order consumedUserID s))
           | Some old \<Rightarrow>
               if session_kind old \<noteq> ''refresh'' \<or> \<not> time_before now (session_expiresAt old)
               then (None, revokeFamilyLocked (session_familyID old) s)
               else
                 let s1 = s\<lparr>consumed := (consumed s)(h \<mapsto> session_userID old)\<rparr>;
                     s2 = revokeFamilyLocked (session_familyID old) s1
                 in (case issue_family sha rand now' (session_userID old) s2 of
                       (Inl err, s3) \<Rightarrow> (None, s3)
                     | (Inr pair, s3) \<Rightarrow> (Some (pair, session_userID old), s3))))"

section \<open>Fresh randomness, steps and reachable stores\<close>

abbreviation new_token :: "string \<Rightarrow> string" where
  "new_token bytes \<equiv> tokenPrefix @ encode64 RawURLEncoding bytes"

text \<open>
  What the code relies on of 32 random bytes: a token drawn is not one drawn before, and
  neither are their hashes. Each draw may also fail.
\<close>

definition fresh_draws :: "(string \<Rightarrow> hash) \<Rightarrow> session_store \<Rightarrow> (nat \<Rightarrow> string result) \<Rightarrow> bool" where
  "fresh_draws sha s rand \<longleftrightarrow>
     (\<forall>i b. rand i = Inr b \<longrightarrow> length b = 32 \<and> families s (new_token b) = None
        \<and> sessions s (sha (new_token b)) = None \<and> consumed s (sha (new_token b)) = None)
     \<and> (\<forall>i j b c. rand i = Inr b \<longrightarrow> rand j = Inr c \<longrightarrow> i \<noteq> j \<longrightarrow>
          sha (new_token b) \<noteq> sha (new_token c))"

inductive session_step :: "(string \<Rightarrow> hash) \<Rightarrow> session_store \<Rightarrow> session_store \<Rightarrow> bool"
  for sha :: "string \<Rightarrow> hash" where
  step_issue: "fresh_draws sha s rand \<Longrightarrow> Issue sha rand now userID s = (r, s') \<Longrightarrow> session_step sha s s'"
| step_rotate: "fresh_draws sha s rand \<Longrightarrow> iter_order (families s) order \<Longrightarrow>
    RotateRefresh sha rand order now now' token s = (r, s') \<Longrightarrow> session_step sha s s'"
| step_revoke: "iter_order (families s) order \<Longrightarrow> session_step sha s (RevokeUser order userID s)"

definition session_reachable :: "(string \<Rightarrow> hash) \<Rightarrow> session_store \<Rightarrow> bool" where
  "session_reachable sha s \<longleftrightarrow> (session_step sha)\<^sup>*\<^sup>* NewSessionStore s"

section \<open>The invariant\<close>

definition session_inv :: "session_store \<Rightarrow> bool" where
  "session_inv s \<longleftrightarrow>
     (\<forall>h r. sessions s h = Some r \<longrightarrow>
        session_kind r \<in> {''access'', ''refresh''} \<and> consumed s h = None
        \<and> (\<exists>hs. families s (session_familyID r) = Some hs \<and> h \<in> set hs))
   \<and> (\<forall>f hs h. families s f = Some hs \<longrightarrow> h \<in> set hs \<longrightarrow>
        (\<exists>r. sessions s h = Some r \<and> session_familyID r = f))
   \<and> (\<forall>h h' r r'. sessions s h = Some r \<longrightarrow> sessions s h' = Some r' \<longrightarrow>
        session_familyID r = session_familyID r' \<longrightarrow> session_userID r = session_userID r')
   \<and> finite (dom (families s))"

lemma session_inv_new: "session_inv NewSessionStore"
  by (simp add: session_inv_def NewSessionStore_def)

lemma session_invD:
  assumes "session_inv s" "sessions s h = Some r"
  shows "session_kind r = ''access'' \<or> session_kind r = ''refresh''" "consumed s h = None"
    and "\<exists>hs. families s (session_familyID r) = Some hs \<and> h \<in> set hs"
  using assms unfolding session_inv_def by blast+

lemma session_inv_member:
  assumes "session_inv s" "families s f = Some hs" "h \<in> set hs"
  shows "\<exists>r. sessions s h = Some r \<and> session_familyID r = f"
  using assms unfolding session_inv_def by blast

lemma session_inv_same_user:
  assumes "session_inv s" "sessions s h = Some r" "sessions s h' = Some r'"
    and "session_familyID r = session_familyID r'"
  shows "session_userID r = session_userID r'"
  using assms unfolding session_inv_def by blast

section \<open>Revocation in closed form\<close>

definition without_families :: "string set \<Rightarrow> session_store \<Rightarrow> session_store" where
  "without_families F s =
     s\<lparr>sessions := (\<lambda>h. case sessions s h of None \<Rightarrow> None
          | Some r \<Rightarrow> if session_familyID r \<in> F then None else Some r),
       families := families s |` (- F)\<rparr>"

lemma without_families_simps [simp]:
  "sessions (without_families F s) h =
     (case sessions s h of None \<Rightarrow> None
      | Some r \<Rightarrow> if session_familyID r \<in> F then None else Some r)"
  "families (without_families F s) f = (if f \<in> F then None else families s f)"
  "consumed (without_families F s) = consumed s"
  by (auto simp: without_families_def restrict_map_def)

lemma store_eqI:
  assumes "\<And>h. sessions s h = sessions t h" "\<And>f. families s f = families t f"
    and "\<And>h. consumed s h = consumed t h"
  shows "s = (t :: session_store)"
  using assms by (intro session_store.equality ext) auto

lemma without_families_inv:
  assumes "session_inv s" shows "session_inv (without_families F s)"
proof -
  have "finite (dom (families (without_families F s)))"
    using assms by (simp add: session_inv_def without_families_def)
  moreover have "\<exists>r. sessions (without_families F s) h = Some r \<and> session_familyID r = f"
    if "families (without_families F s) f = Some hs" "h \<in> set hs" for f hs h
  proof -
    from that have f: "f \<notin> F" "families s f = Some hs" by (auto split: if_splits)
    from session_inv_member [OF assms f(2) that(2)] f(1) show ?thesis by auto
  qed
  moreover have "session_kind r \<in> {''access'', ''refresh''} \<and> consumed (without_families F s) h = None
      \<and> (\<exists>hs. families (without_families F s) (session_familyID r) = Some hs \<and> h \<in> set hs)"
    if "sessions (without_families F s) h = Some r" for h r
  proof -
    from that have r: "sessions s h = Some r" "session_familyID r \<notin> F"
      by (auto split: option.splits if_splits)
    from session_invD [OF assms r(1)] r(2) show ?thesis by auto
  qed
  moreover have "session_userID r = session_userID r'"
    if "sessions (without_families F s) h = Some r" "sessions (without_families F s) h' = Some r'"
      "session_familyID r = session_familyID r'" for h h' r r'
    using that session_inv_same_user [OF assms, of h r h' r'] by (auto split: option.splits if_splits)
  ultimately show ?thesis unfolding session_inv_def by blast
qed

lemma fold_delete: "fold (\<lambda>h m. m(h := None)) hs m = (\<lambda>h. if h \<in> set hs then None else m h)"
  by (induction hs arbitrary: m) auto

lemma revokeFamily_closed:
  assumes "session_inv s"
  shows "revokeFamilyLocked f s = without_families {f} s"
proof (rule store_eqI)
  fix h
  show "sessions (revokeFamilyLocked f s) h = sessions (without_families {f} s) h"
  proof (cases "families s f")
    case None
    then show ?thesis
      using session_invD(3) [OF assms, of h] by (auto simp: revokeFamilyLocked_def split: option.splits)
  next
    case (Some hs)
    then show ?thesis
      using session_inv_member [OF assms Some, of h] session_invD(3) [OF assms, of h]
      by (auto simp: revokeFamilyLocked_def fold_delete split: option.splits)
  qed
qed (auto simp: revokeFamilyLocked_def split: option.splits)

definition families_of :: "string \<Rightarrow> session_store \<Rightarrow> string set" where
  "families_of userID s =
     {session_familyID r | h r. sessions s h = Some r \<and> session_userID r = userID}"

lemma family_of_user_iff:
  assumes "session_inv s" "families s f = Some hs"
  shows "family_of_user u s hs \<longleftrightarrow> f \<in> families_of u s"
proof
  assume "family_of_user u s hs"
  then obtain h r where "h \<in> set hs" "sessions s h = Some r" "session_userID r = u"
    by (auto simp: family_of_user_def list_ex_iff split: option.splits)
  with session_inv_member [OF assms] show "f \<in> families_of u s"
    by (fastforce simp: families_of_def)
next
  assume "f \<in> families_of u s"
  then obtain h r where r: "sessions s h = Some r" "session_userID r = u" "session_familyID r = f"
    by (auto simp: families_of_def)
  with session_invD(3) [OF assms(1) r(1)] assms(2) have "h \<in> set hs" by auto
  with r show "family_of_user u s hs"
    by (auto simp: family_of_user_def list_ex_iff intro!: bexI [of _ h])
qed

lemma families_of_dom: "session_inv s \<Longrightarrow> families_of u s \<subseteq> dom (families s)"
  by (fastforce simp: families_of_def dest: session_invD(3))

lemma without_empty [simp]: "without_families {} s = s"
  by (rule store_eqI) (auto split: option.splits)

lemma revoke_turn_closed:
  assumes "session_inv s"
  shows "revoke_turn u f s = without_families ({f} \<inter> families_of u s) s"
proof (cases "families s f")
  case None
  then have "{f} \<inter> families_of u s = {}" using families_of_dom [OF assms, of u] by auto
  with None show ?thesis by (simp add: revoke_turn_def)
next
  case (Some hs)
  show ?thesis
  proof (cases "f \<in> families_of u s")
    case True
    then have "{f} \<inter> families_of u s = {f}" by auto
    with True Some show ?thesis
      by (simp add: revoke_turn_def family_of_user_iff [OF assms] revokeFamily_closed [OF assms])
  next
    case False
    with Some show ?thesis by (simp add: revoke_turn_def family_of_user_iff [OF assms])
  qed
qed

lemma without_families_twice:
  "without_families F (without_families G s) = without_families (F \<union> G) s"
  by (rule store_eqI) (auto split: option.splits)

lemma families_of_without: "families_of u (without_families F s) = families_of u s - F"
  by (fastforce simp: families_of_def split: option.splits if_splits)

lemma revoke_loop_closed:
  "session_inv s \<Longrightarrow>
   fold (revoke_turn u) order s = without_families (set order \<inter> families_of u s) s"
proof (induction order arbitrary: s)
  case (Cons f order)
  let ?s = "without_families ({f} \<inter> families_of u s) s"
  have "fold (revoke_turn u) (f # order) s = without_families (set order \<inter> families_of u ?s) ?s"
    using Cons by (simp add: revoke_turn_closed without_families_inv)
  also have "\<dots> = without_families (set (f # order) \<inter> families_of u s) s"
    unfolding without_families_twice families_of_without
    by (rule arg_cong [where f = "\<lambda>F. without_families F s"]) auto
  finally show ?case .
qed simp

lemma revokeUser_closed:
  assumes "session_inv s" "iter_order (families s) order"
  shows "RevokeUser order u s = without_families (families_of u s) s"
    and "revokeUserLocked order u s = without_families (families_of u s) s"
proof -
  have "set order \<inter> families_of u s = families_of u s"
    using families_of_dom [OF assms(1), of u] iter_orderD(2) [OF assms(2)] by blast
  then show "RevokeUser order u s = without_families (families_of u s) s"
    and "revokeUserLocked order u s = without_families (families_of u s) s"
    by (simp_all add: RevokeUser_def revokeUserLocked_def revoke_loop_closed [OF assms(1)])
qed

lemma revoked_sessions:
  assumes "session_inv s"
  shows "sessions (without_families (families_of u s) s) h =
    (case sessions s h of None \<Rightarrow> None
     | Some r \<Rightarrow> if session_userID r = u then None else Some r)"
proof (cases "sessions s h")
  case (Some r)
  have "session_familyID r \<in> families_of u s \<longleftrightarrow> session_userID r = u"
    using Some session_inv_same_user [OF assms Some] unfolding families_of_def mem_Collect_eq
    by metis
  with Some show ?thesis by simp
qed simp

section \<open>New families\<close>

definition with_family :: "string \<Rightarrow> (hash \<times> session) list \<Rightarrow> session_store \<Rightarrow> session_store" where
  "with_family f es s =
     s\<lparr>sessions := sessions s ++ map_of es, families := (families s)(f \<mapsto> map fst es)\<rparr>"

lemma with_family_simps [simp]:
  "sessions (with_family f es s) = sessions s ++ map_of es"
  "families (with_family f es s) = (families s)(f \<mapsto> map fst es)"
  "consumed (with_family f es s) = consumed s"
  by (simp_all add: with_family_def)

text \<open>The entries of a new family: fresh hashes, all of one user.\<close>

definition new_entries :: "session_store \<Rightarrow> string \<Rightarrow> string \<Rightarrow> (hash \<times> session) list \<Rightarrow> bool" where
  "new_entries s user f es \<longleftrightarrow> families s f = None \<and> distinct (map fst es)
     \<and> (\<forall>(h, r) \<in> set es. sessions s h = None \<and> consumed s h = None \<and> session_familyID r = f
          \<and> session_userID r = user \<and> (session_kind r = ''access'' \<or> session_kind r = ''refresh''))"

lemma with_family_lookup:
  assumes "new_entries s user f es"
  shows "sessions (with_family f es s) h = Some r \<longleftrightarrow> sessions s h = Some r \<or> (h, r) \<in> set es"
proof -
  from assms have d: "distinct (map fst es)" "\<And>h r. (h, r) \<in> set es \<Longrightarrow> sessions s h = None"
    by (auto simp: new_entries_def)
  show ?thesis
  proof (cases "map_of es h")
    case None
    then have "(h, r) \<notin> set es" by (auto simp: map_of_eq_None_iff rev_image_eqI)
    with None show ?thesis by (simp add: map_add_def)
  next
    case (Some r')
    then have "(h, r') \<in> set es" by (rule map_of_SomeD)
    moreover have "r = r'" if "(h, r) \<in> set es"
      using map_of_is_SomeI [OF d(1) that] Some by simp
    ultimately show ?thesis using d(2) Some by (auto simp: map_add_def)
  qed
qed

lemma with_family_inv:
  assumes inv: "session_inv s" and new: "new_entries s user f es"
  shows "session_inv (with_family f es s)"
proof -
  note look = with_family_lookup [OF new]
  from new have f: "families s f = None" by (simp add: new_entries_def)
  from new have es: "\<And>h r. (h, r) \<in> set es \<Longrightarrow> consumed s h = None \<and> session_familyID r = f
        \<and> session_userID r = user \<and> (session_kind r = ''access'' \<or> session_kind r = ''refresh'')"
    unfolding new_entries_def by blast
  have old: "session_familyID r \<noteq> f" if "sessions s h = Some r" for h r
    using session_invD(3) [OF inv that] f by auto
  have "session_kind r \<in> {''access'', ''refresh''} \<and> consumed (with_family f es s) h = None
      \<and> (\<exists>hs. families (with_family f es s) (session_familyID r) = Some hs \<and> h \<in> set hs)"
    if "sessions (with_family f es s) h = Some r" for h r
  proof (cases "sessions s h = Some r")
    case True
    with session_invD [OF inv True] old [OF True] show ?thesis by auto
  next
    case False
    with that have m: "(h, r) \<in> set es" by (simp only: look) blast
    with es [OF m] show ?thesis by (auto simp: rev_image_eqI)
  qed
  moreover have "\<exists>r. sessions (with_family f es s) h = Some r \<and> session_familyID r = g"
    if "families (with_family f es s) g = Some hs" "h \<in> set hs" for g hs h
  proof (cases "g = f")
    case True
    with that obtain r where "(h, r) \<in> set es" by auto
    with es True show ?thesis unfolding look by blast
  next
    case False
    with that have "families s g = Some hs" by simp
    from session_inv_member [OF inv this that(2)] show ?thesis unfolding look by blast
  qed
  moreover have "session_userID r = session_userID r'"
    if "sessions (with_family f es s) h = Some r" "sessions (with_family f es s) h' = Some r'"
      "session_familyID r = session_familyID r'" for h h' r r'
    using that session_inv_same_user [OF inv] es old unfolding look by metis
  moreover have "finite (dom (families (with_family f es s)))"
    using inv by (simp add: session_inv_def)
  ultimately show ?thesis unfolding session_inv_def by blast
qed

lemma tokenHash_new: "length b = 32 \<Longrightarrow> tokenHash sha (new_token b) = Some (sha (new_token b))"
  by (simp add: tokenHash_def tokenPrefix_def length_encode64_raw RawURLEncoding_def
      rawurl.dec_enc [unfolded RawURLEncoding_def])

lemma token_hash_sha: "tokenHash sha token = Some h \<Longrightarrow> h = sha token"
  by (auto simp: tokenHash_def split: if_splits option.splits)

definition entry :: "string \<Rightarrow> string \<Rightarrow> string \<Rightarrow> time \<Rightarrow> session" where
  "entry user f kind expires = \<lparr>session_userID = user, session_familyID = f,
     session_expiresAt = expires, session_kind = kind\<rparr>"

lemma entry_simps [simp]:
  "session_userID (entry user f kind expires) = user"
  "session_familyID (entry user f kind expires) = f"
  "session_expiresAt (entry user f kind expires) = expires"
  "session_kind (entry user f kind expires) = kind"
  by (simp_all add: entry_def)

lemma issueLocked_with_family:
  assumes "rand = Inr b" "length b = 32" "sha (new_token b) \<notin> fst ` set es"
  shows "issueLocked sha rand user f kind expires (with_family f es s) =
    (Inr (new_token b), with_family f ((sha (new_token b), entry user f kind expires) # es) s)"
  using assms
  by (auto simp: issueLocked_def randomToken_def tokenHash_or_zero_def tokenHash_new Let_def
      with_family_def entry_def)

lemma issueLocked_fail:
  "rand = Inl e \<Longrightarrow>
   issueLocked sha rand user f kind expires s = (Inl (Wrapped ''generate session token'' e), s)"
  by (simp add: issueLocked_def randomToken_def)

lemma issue_family_draw:
  assumes "rand 0 = Inr b"
  shows "issue_family sha rand now userID s =
    (case issueLocked sha (rand 1) userID (new_token b) ''access'' (now + accessTokenLifetime)
            (with_family (new_token b) [] s) of
       (Inl err, s2) \<Rightarrow> (Inl err, s2)
     | (Inr access, s2) \<Rightarrow>
         (case issueLocked sha (rand 2) userID (new_token b) ''refresh''
                 (now + refreshTokenLifetime) s2 of
            (Inl err, s3) \<Rightarrow> (Inl err, s3)
          | (Inr refresh, s3) \<Rightarrow>
              (Inr \<lparr>AccessToken = access, RefreshToken = refresh,
                    AccessExpiresAt = now + accessTokenLifetime,
                    RefreshExpiresAt = now + refreshTokenLifetime\<rparr>, s3)))"
  using assms by (simp add: issue_family_def randomToken_def [of "Inr b"] Let_def with_family_def
      del: One_nat_def)

text \<open>What \<open>issue_family\<close> does, by how many of its three draws succeed.\<close>

lemma issue_family_cases:
  assumes fresh: "fresh_draws sha s rand" and r: "issue_family sha rand now user s = (res, s')"
  obtains (none) e where "res = Inl e" "s' = s"
  | (part) e f es where "res = Inl e" "s' = with_family f es s" "new_entries s user f es"
  | (both) b c d where "rand 0 = Inr b" "rand 1 = Inr c" "rand 2 = Inr d"
      "res = Inr \<lparr>AccessToken = new_token c, RefreshToken = new_token d,
         AccessExpiresAt = now + accessTokenLifetime,
         RefreshExpiresAt = now + refreshTokenLifetime\<rparr>"
      "new_entries s user (new_token b)
         [(sha (new_token d), entry user (new_token b) ''refresh'' (now + refreshTokenLifetime)),
          (sha (new_token c), entry user (new_token b) ''access'' (now + accessTokenLifetime))]"
      "s' = with_family (new_token b)
         [(sha (new_token d), entry user (new_token b) ''refresh'' (now + refreshTokenLifetime)),
          (sha (new_token c), entry user (new_token b) ''access'' (now + accessTokenLifetime))] s"
proof (cases "rand 0")
  case (Inl e)
  with r have "res = Inl (Wrapped ''generate session token'' e)" "s' = s"
    by (simp_all add: issue_family_def randomToken_def)
  then show ?thesis by (rule none)
next
  case b: (Inr b)
  let ?f = "new_token b"
  have len: "length x = 32 \<and> families s (new_token x) = None \<and> sessions s (sha (new_token x)) = None
      \<and> consumed s (sha (new_token x)) = None" if "rand i = Inr x" for i x
    using fresh that unfolding fresh_draws_def by blast
  note draw = issue_family_draw [of rand b, OF b]
  show ?thesis
  proof (cases "rand 1")
    case (Inl e)
    have "res = Inl (Wrapped ''generate session token'' e)" "s' = with_family ?f [] s"
      using r by (simp_all add: draw issueLocked_fail [of "rand 1", OF Inl] del: One_nat_def)
    then show ?thesis
      by (rule part [OF _ _]) (use len [OF b] in \<open>simp add: new_entries_def\<close>)
  next
    case c: (Inr c)
    let ?a = "(sha (new_token c), entry user ?f ''access'' (now + accessTokenLifetime))"
    have lc: "length c = 32" using len [OF c] by simp
    have s2: "issueLocked sha (rand 1) user ?f ''access'' (now + accessTokenLifetime)
        (with_family ?f [] s) = (Inr (new_token c), with_family ?f [?a] s)"
      by (rule issueLocked_with_family) (use c lc in auto)
    show ?thesis
    proof (cases "rand 2")
      case (Inl e)
      have "res = Inl (Wrapped ''generate session token'' e)" "s' = with_family ?f [?a] s"
        using r by (simp_all add: draw s2 issueLocked_fail [of "rand 2", OF Inl] del: One_nat_def)
      then show ?thesis
        by (rule part [OF _ _]) (use len [OF b] len [OF c] in \<open>simp add: new_entries_def\<close>)
    next
      case d: (Inr d)
      let ?r = "(sha (new_token d), entry user ?f ''refresh'' (now + refreshTokenLifetime))"
      have ld: "length d = 32" using len [OF d] by simp
      have ne: "sha (new_token d) \<noteq> sha (new_token c)"
      proof -
        have "(2::nat) \<noteq> 1" by simp
        with fresh c d show ?thesis unfolding fresh_draws_def by blast
      qed
      have s3: "issueLocked sha (rand 2) user ?f ''refresh'' (now + refreshTokenLifetime)
          (with_family ?f [?a] s) = (Inr (new_token d), with_family ?f [?r, ?a] s)"
        by (rule issueLocked_with_family) (use d ld ne in auto)
      have res: "res = Inr \<lparr>AccessToken = new_token c, RefreshToken = new_token d,
         AccessExpiresAt = now + accessTokenLifetime,
         RefreshExpiresAt = now + refreshTokenLifetime\<rparr>" "s' = with_family ?f [?r, ?a] s"
        using r by (simp_all add: draw s2 s3 del: One_nat_def)
      show ?thesis
        by (rule both [OF b c d res(1) _ res(2)])
          (use len [OF b] len [OF c] len [OF d] ne in \<open>simp add: new_entries_def\<close>)
    qed
  qed
qed

section \<open>The invariant holds in every reachable store\<close>

lemma issue_family_inv:
  assumes "session_inv s" "fresh_draws sha s rand" "issue_family sha rand now user s = (res, s')"
  shows "session_inv s'"
  by (rule issue_family_cases [OF assms(2,3)]) (use assms(1) with_family_inv in auto)

lemma fresh_draws_revoked:
  assumes "fresh_draws sha s rand" "sessions s h = Some old"
  shows "fresh_draws sha (without_families F (s\<lparr>consumed := (consumed s)(h \<mapsto> u)\<rparr>)) rand"
  using assms unfolding fresh_draws_def by (auto split: option.splits if_splits)

lemma session_inv_consumed:
  assumes inv: "session_inv s" and c: "\<And>h r. sessions s h = Some r \<Longrightarrow> c h = None"
  shows "session_inv (s\<lparr>consumed := c\<rparr>)"
proof -
  have eqs: "sessions (s\<lparr>consumed := c\<rparr>) = sessions s" "families (s\<lparr>consumed := c\<rparr>) = families s"
    "consumed (s\<lparr>consumed := c\<rparr>) = c"
    by simp_all
  show ?thesis using inv c unfolding session_inv_def eqs by blast
qed

lemma consume_inv:
  assumes inv: "session_inv s" and old: "sessions s h = Some old"
  shows "session_inv (without_families {session_familyID old} (s\<lparr>consumed := (consumed s)(h \<mapsto> u)\<rparr>))"
proof -
  have "without_families {session_familyID old} (s\<lparr>consumed := (consumed s)(h \<mapsto> u)\<rparr>) =
      (without_families {session_familyID old} s)\<lparr>consumed := (consumed s)(h \<mapsto> u)\<rparr>"
    by (simp add: without_families_def)
  moreover have "((consumed s)(h \<mapsto> u)) g = None"
    if "sessions (without_families {session_familyID old} s) g = Some r" for g r
    using that old session_invD(2) [OF inv, of g] by (auto split: option.splits if_splits)
  ultimately show ?thesis
    using session_inv_consumed [OF without_families_inv [OF inv]] by simp
qed

lemma revokeFamily_consume:
  assumes "session_inv s"
  shows "revokeFamilyLocked f (s\<lparr>consumed := c\<rparr>) = without_families {f} (s\<lparr>consumed := c\<rparr>)"
proof (rule store_eqI)
  note c = revokeFamily_closed [OF assms, of f]
  fix h f'
  have "sessions (revokeFamilyLocked f (s\<lparr>consumed := c\<rparr>)) h = sessions (revokeFamilyLocked f s) h"
    "families (revokeFamilyLocked f (s\<lparr>consumed := c\<rparr>)) f' = families (revokeFamilyLocked f s) f'"
    by (auto simp: revokeFamilyLocked_def split: option.splits)
  then show "sessions (revokeFamilyLocked f (s\<lparr>consumed := c\<rparr>)) h =
      sessions (without_families {f} (s\<lparr>consumed := c\<rparr>)) h"
    "families (revokeFamilyLocked f (s\<lparr>consumed := c\<rparr>)) f' =
      families (without_families {f} (s\<lparr>consumed := c\<rparr>)) f'"
    by (simp_all add: c)
qed (auto simp: revokeFamilyLocked_def split: option.splits)

text \<open>The outcomes of \<open>RotateRefresh\<close> on a store that satisfies the invariant.\<close>

lemma rotate_cases:
  assumes inv: "session_inv s" and order: "iter_order (families s) order"
    and r: "RotateRefresh sha rand order now now' token s = (res, s')"
  obtains (ignored) "res = None" "s' = s"
      "tokenHash sha token = None
        \<or> (sessions s (sha token) = None \<and> consumed s (sha token) = None)"
  | (reused) u where "tokenHash sha token = Some (sha token)" "sessions s (sha token) = None"
      "consumed s (sha token) = Some u" "res = None" "s' = without_families (families_of u s) s"
  | (refused) old where "tokenHash sha token = Some (sha token)" "sessions s (sha token) = Some old"
      "session_kind old \<noteq> ''refresh'' \<or> session_expiresAt old \<le> now"
      "res = None" "s' = without_families {session_familyID old} s"
  | (rotated) old t where "tokenHash sha token = Some (sha token)" "sessions s (sha token) = Some old"
      "session_kind old = ''refresh''" "now < session_expiresAt old"
      "t = without_families {session_familyID old}
         (s\<lparr>consumed := (consumed s)(sha token \<mapsto> session_userID old)\<rparr>)"
      "issue_family sha rand now' (session_userID old) t =
         ((case res of None \<Rightarrow> fst (issue_family sha rand now' (session_userID old) t)
           | Some (pair, u) \<Rightarrow> Inr pair), s')"
      "res = None \<longleftrightarrow> \<not> is_ok (fst (issue_family sha rand now' (session_userID old) t))"
      "\<And>pair u. res = Some (pair, u) \<Longrightarrow> u = session_userID old"
proof (cases "tokenHash sha token")
  case None
  with r ignored show ?thesis by (simp add: RotateRefresh_def)
next
  case h: (Some h)
  then have hash: "tokenHash sha token = Some (sha token)" by (simp add: token_hash_sha [OF h])
  show ?thesis
  proof (cases "sessions s (sha token)")
    case None
    show ?thesis
    proof (cases "consumed s (sha token)")
      case N: None
      with r None ignored show ?thesis by (simp add: RotateRefresh_def hash)
    next
      case (Some u)
      with r None reused [OF hash None Some] show ?thesis
        by (simp add: RotateRefresh_def hash revokeUser_closed [OF inv order])
    qed
  next
    case old: (Some old)
    show ?thesis
    proof (cases "session_kind old \<noteq> ''refresh'' \<or> \<not> time_before now (session_expiresAt old)")
      case True
      with r refused [OF hash old] show ?thesis
        by (simp add: RotateRefresh_def hash old revokeFamily_closed [OF inv] time_before_def not_less)
    next
      case False
      define t where "t = without_families {session_familyID old}
         (s\<lparr>consumed := (consumed s)(sha token \<mapsto> session_userID old)\<rparr>)"
      obtain x s3 where x: "issue_family sha rand now' (session_userID old) t = (x, s3)"
        by (metis surj_pair)
      from r False have "(res, s') = (case x of Inl err \<Rightarrow> (None, s3)
          | Inr pair \<Rightarrow> (Some (pair, session_userID old), s3))"
        by (simp add: RotateRefresh_def hash old revokeFamily_consume [OF inv] Let_def
            flip: t_def) (simp add: x)
      with x False show ?thesis
        by (intro rotated [OF hash old _ _ t_def]) (auto simp: time_before_def split: sum.splits)
    qed
  qed
qed

lemma rotate_inv:
  assumes inv: "session_inv s" and fresh: "fresh_draws sha s rand"
    and order: "iter_order (families s) order"
    and r: "RotateRefresh sha rand order now now' token s = (res, s')"
  shows "session_inv s'"
proof (rule rotate_cases [OF inv order r])
  fix old t
  assume old: "sessions s (sha token) = Some old"
    and t: "t = without_families {session_familyID old}
         (s\<lparr>consumed := (consumed s)(sha token \<mapsto> session_userID old)\<rparr>)"
    and i: "issue_family sha rand now' (session_userID old) t =
         ((case res of None \<Rightarrow> fst (issue_family sha rand now' (session_userID old) t)
           | Some (pair, u) \<Rightarrow> Inr pair), s')"
  show ?thesis
    by (rule issue_family_inv [OF _ _ i])
      (simp_all add: t consume_inv [OF inv old] fresh_draws_revoked [OF fresh old])
qed (simp_all add: inv without_families_inv)

lemma session_step_inv:
  assumes "session_step sha s s'" "session_inv s"
  shows "session_inv s'"
  using assms(1)
proof cases
  case (step_issue rand now userID r)
  show ?thesis
  proof (cases "userID = ''''")
    case True
    with step_issue(2) assms(2) show ?thesis by (simp add: Issue_def)
  next
    case False
    with step_issue(2) have "issue_family sha rand now userID s = (r, s')" by (simp add: Issue_def)
    then show ?thesis by (rule issue_family_inv [OF assms(2) step_issue(1)])
  qed
next
  case (step_rotate rand order now now' token r)
  then show ?thesis using rotate_inv [OF assms(2)] by blast
next
  case (step_revoke order userID)
  then show ?thesis
    using assms(2) by (simp add: revokeUser_closed [OF assms(2)] without_families_inv)
qed

lemma session_reachable_inv: "session_reachable sha s \<Longrightarrow> session_inv s"
  unfolding session_reachable_def
  by (induction rule: rtranclp_induct) (auto intro: session_inv_new session_step_inv)

text \<open>A consumed refresh token stays consumed.\<close>

lemma issue_family_consumed:
  assumes "fresh_draws sha s rand" "issue_family sha rand now user s = (res, s')"
  shows "consumed s' = consumed s"
  by (rule issue_family_cases [OF assms]) simp_all

lemma session_step_consumed:
  assumes "session_step sha s s'" "session_inv s" "consumed s h = Some u"
  shows "consumed s' h = Some u"
  using assms(1)
proof cases
  case (step_issue rand now userID r)
  then show ?thesis
    using issue_family_consumed [OF step_issue(1)] assms(3)
    by (cases "userID = ''''") (auto simp: Issue_def)
next
  case (step_rotate rand order now now' token r)
  show ?thesis
  proof (rule rotate_cases [OF assms(2) step_rotate(2,3)])
    fix old t
    assume old: "sessions s (sha token) = Some old"
      and t: "t = without_families {session_familyID old}
           (s\<lparr>consumed := (consumed s)(sha token \<mapsto> session_userID old)\<rparr>)"
      and i: "issue_family sha rand now' (session_userID old) t =
           ((case r of None \<Rightarrow> fst (issue_family sha rand now' (session_userID old) t)
             | Some (pair, u) \<Rightarrow> Inr pair), s')"
    have "consumed s (sha token) = None" by (rule session_invD(2) [OF assms(2) old])
    with assms(3) have "consumed t h = Some u" by (auto simp: t)
    with issue_family_consumed [OF _ i] show ?thesis
      by (simp add: t fresh_draws_revoked [OF step_rotate(1) old])
  qed (simp_all add: assms(3))
next
  case (step_revoke order userID)
  then show ?thesis using assms by (simp add: revokeUser_closed [OF assms(2)])
qed

lemma session_steps_consumed:
  assumes "(session_step sha)\<^sup>*\<^sup>* s s'" "session_inv s" "consumed s h = Some u"
  shows "session_inv s' \<and> consumed s' h = Some u"
  using assms by (induction rule: rtranclp_induct) (auto intro: session_step_inv session_step_consumed)

lemma authenticate_session:
  "AuthenticateAccess sha t token s = Some u \<longleftrightarrow>
     tokenHash sha token = Some (sha token) \<and>
     (\<exists>r. sessions s (sha token) = Some r \<and> session_kind r = ''access''
        \<and> t < session_expiresAt r \<and> session_userID r = u)"
  using token_hash_sha [of sha token]
  by (auto simp: AuthenticateAccess_def authenticate_def time_before_def split: option.splits)

lemma authenticate_after_revoke:
  assumes "session_inv s"
  shows "AuthenticateAccess sha t token (without_families (families_of u s) s) =
    (case AuthenticateAccess sha t token s of None \<Rightarrow> None
     | Some v \<Rightarrow> if v = u then None else Some v)"
  by (auto simp: AuthenticateAccess_def authenticate_def time_before_def
      simp del: without_families_simps
      simp: revoked_sessions [OF assms] split: option.splits if_splits)

lemma new_token_length: "length b = 32 \<Longrightarrow> length (new_token b) = 47"
  by (simp add: tokenPrefix_def length_encode64_raw RawURLEncoding_def)

text \<open>The new pair of a family: who authenticates with it, and that nothing else changes.\<close>

lemma issue_family_authenticates:
  assumes fresh: "fresh_draws sha s rand" and i: "issue_family sha rand now user s = (Inr p, s')"
  shows "length (AccessToken p) = 47" "length (RefreshToken p) = 47"
    and "AuthenticateAccess sha t (AccessToken p) s' =
       (if t < now + accessTokenLifetime then Some user else None)"
    and "AuthenticateAccess sha t (RefreshToken p) s' = None"
    and "AuthenticateAccess sha t token s = Some v \<Longrightarrow> AuthenticateAccess sha t token s' = Some v"
proof -
  obtain b c d where bcd: "rand 0 = Inr b" "rand 1 = Inr c" "rand 2 = Inr d"
    and p: "AccessToken p = new_token c" "RefreshToken p = new_token d"
    and new: "new_entries s user (new_token b)
         [(sha (new_token d), entry user (new_token b) ''refresh'' (now + refreshTokenLifetime)),
          (sha (new_token c), entry user (new_token b) ''access'' (now + accessTokenLifetime))]"
    and s': "s' = with_family (new_token b)
         [(sha (new_token d), entry user (new_token b) ''refresh'' (now + refreshTokenLifetime)),
          (sha (new_token c), entry user (new_token b) ''access'' (now + accessTokenLifetime))] s"
    by (rule issue_family_cases [OF assms]) auto
  have len: "length c = 32" "length d = 32" using fresh bcd by (auto simp: fresh_draws_def)
  show "length (AccessToken p) = 47" "length (RefreshToken p) = 47"
    unfolding p by (rule new_token_length, rule len)+
  have c: "sessions s' (sha (new_token c)) =
      Some (entry user (new_token b) ''access'' (now + accessTokenLifetime))"
    and d: "sessions s' (sha (new_token d)) =
      Some (entry user (new_token b) ''refresh'' (now + refreshTokenLifetime))"
    unfolding s' with_family_lookup [OF new] by simp_all
  show "AuthenticateAccess sha t (AccessToken p) s' =
       (if t < now + accessTokenLifetime then Some user else None)"
    by (simp add: AuthenticateAccess_def authenticate_def p tokenHash_new len c time_before_def)
  show "AuthenticateAccess sha t (RefreshToken p) s' = None"
    by (simp add: AuthenticateAccess_def authenticate_def p tokenHash_new len d)
  show "AuthenticateAccess sha t token s = Some v \<Longrightarrow> AuthenticateAccess sha t token s' = Some v"
    unfolding authenticate_session s' with_family_lookup [OF new] by blast
qed


text \<open>The errors of \<open>Issue\<close>: no user id, or a failed draw.\<close>

lemma issue_error:
  assumes "Issue sha rand now userID s = (Inl err, s')"
  shows "err = ErrText ''user id is required''
    \<or> (\<exists>i m. rand i = Inl m \<and> err = Wrapped ''generate session token'' m)"
  using assms
  by (auto simp: Issue_def issue_family_def issueLocked_def randomToken_def Let_def
      split: if_splits sum.splits)

section \<open>Sample randomness\<close>

text \<open>Token number \<open>i\<close> of the samples; SHA-256 is stood in for by the identity, which has
no collisions.\<close>

definition sample_token :: "nat \<Rightarrow> string" where
  "sample_token i = new_token (replicate 32 (char_of i))"

definition sample_rand :: "nat \<Rightarrow> nat \<Rightarrow> string result" where
  "sample_rand k i = (if i < 3 then Inr (replicate 32 (char_of (k + i))) else Inl (ErrText ''no entropy''))"

definition sample_sha :: "string \<Rightarrow> hash" where [simp]: "sample_sha token = token"

lemma sample_token_eq:
  assumes "i < 256" "j < 256"
  shows "sample_token i = sample_token j \<longleftrightarrow> i = j"
proof
  assume "sample_token i = sample_token j"
  then have "replicate 32 (char_of i :: char) = replicate 32 (char_of j)"
    unfolding sample_token_def by (metis append_eq_append_conv option.inject rawurl.dec_enc)
  then have "(char_of i :: char) = char_of j" by (simp add: replicate_eq_replicate)
  then have "i mod 256 = j mod 256" by (metis of_char_of)
  with assms show "i = j" by simp
qed simp

lemma sample_rand_draw: "i < 3 \<Longrightarrow> sample_rand k i = Inr (replicate 32 (char_of (k + i)))"
  by (simp add: sample_rand_def)

lemma sample_fresh:
  assumes k: "k < 200"
    and new: "\<And>i. k \<le> i \<Longrightarrow> i < k + 3 \<Longrightarrow> families s (sample_token i) = None
       \<and> sessions s (sample_token i) = None \<and> consumed s (sample_token i) = None"
  shows "fresh_draws sample_sha s (sample_rand k)"
proof -
  have ok: "i < 3 \<and> b = replicate 32 (char_of (k + i))" if "sample_rand k i = Inr b" for i b
    using that by (auto simp: sample_rand_def split: if_splits)
  have tok: "i < 3 \<and> length b = 32 \<and> new_token b = sample_token (k + i)"
    if "sample_rand k i = Inr b" for i b
    using ok [OF that] by (simp add: sample_token_def)
  show ?thesis
    unfolding fresh_draws_def sample_sha_def
  proof (intro conjI allI impI)
    fix i j b c
    assume "sample_rand k i = Inr b" "sample_rand k j = Inr c" "i \<noteq> j"
    with tok [of i b] tok [of j c] k show "new_token b \<noteq> new_token c"
      by (simp add: sample_token_eq)
  next
    fix i b
    assume b: "sample_rand k i = Inr b"
    from tok [OF b] new [of "k + i"]
    show "length b = 32" "families s (new_token b) = None" "sessions s (new_token b) = None"
      "consumed s (new_token b) = None"
      by auto
  qed
qed

definition sample_pair :: "nat \<Rightarrow> time \<Rightarrow> token_pair" where
  "sample_pair k now = \<lparr>AccessToken = sample_token (k + 1), RefreshToken = sample_token (k + 2),
     AccessExpiresAt = now + accessTokenLifetime, RefreshExpiresAt = now + refreshTokenLifetime\<rparr>"

definition sample_family :: "nat \<Rightarrow> time \<Rightarrow> string \<Rightarrow> session_store \<Rightarrow> session_store" where
  "sample_family k now user s = with_family (sample_token k)
     [(sample_token (k + 2), entry user (sample_token k) ''refresh'' (now + refreshTokenLifetime)),
      (sample_token (k + 1), entry user (sample_token k) ''access'' (now + accessTokenLifetime))] s"

lemma sample_issue_family:
  assumes fresh: "fresh_draws sample_sha s (sample_rand k)"
  shows "issue_family sample_sha (sample_rand k) now user s =
    (Inr (sample_pair k now), sample_family k now user s)"
proof -
  obtain res s' where i: "issue_family sample_sha (sample_rand k) now user s = (res, s')"
    by (metis surj_pair)
  note draws = sample_rand_draw [of 0 k] sample_rand_draw [of 1 k] sample_rand_draw [of 2 k]
  show ?thesis
  proof (rule issue_family_cases [OF fresh i], goal_cases)
    case (1 e)
    then show ?case
      using i draws by (simp add: issue_family_draw issueLocked_def Let_def randomToken_def del: One_nat_def
          split: prod.splits)
  next
    case (2 e f es)
    then show ?case
      using i draws by (simp add: issue_family_draw issueLocked_def Let_def randomToken_def del: One_nat_def
          split: prod.splits)
  next
    case (3 b c d)
    with draws have "new_token b = sample_token k" "new_token c = sample_token (k + 1)"
      "new_token d = sample_token (k + 2)"
      by (simp_all add: sample_token_def)
    with i 3 show ?case by (simp add: sample_pair_def sample_family_def)
  qed
qed

definition sample_store :: session_store where
  "sample_store = sample_family 0 1000 ''alice'' NewSessionStore"

lemma sample_issue:
  "Issue sample_sha (sample_rand 0) 1000 ''alice'' NewSessionStore = (Inr (sample_pair 0 1000), sample_store)"
proof -
  have "fresh_draws sample_sha NewSessionStore (sample_rand 0)"
    by (rule sample_fresh) (simp_all add: NewSessionStore_def)
  then show ?thesis by (simp add: Issue_def sample_issue_family sample_store_def)
qed

lemma sample_store_reachable: "session_reachable sample_sha sample_store"
proof -
  have "fresh_draws sample_sha NewSessionStore (sample_rand 0)"
    by (rule sample_fresh) (simp_all add: NewSessionStore_def)
  from step_issue [OF this sample_issue] show ?thesis
    unfolding session_reachable_def by (rule r_into_rtranclp)
qed

lemma sample_store_sessions:
  "sessions sample_store = [
     sample_token 1 \<mapsto> entry ''alice'' (sample_token 0) ''access'' (1000 + accessTokenLifetime),
     sample_token 2 \<mapsto> entry ''alice'' (sample_token 0) ''refresh'' (1000 + refreshTokenLifetime)]"
  by (simp add: sample_store_def sample_family_def NewSessionStore_def fun_upd_twist sample_token_eq
      del: One_nat_def add_2_eq_Suc add_2_eq_Suc')

lemma sample_store_families:
  "families sample_store = [sample_token 0 \<mapsto> [sample_token 2, sample_token 1]]"
  "consumed sample_store = Map.empty"
  by (simp_all add: sample_store_def sample_family_def NewSessionStore_def numeral_eq_Suc)

lemma sample_order: "iter_order (families sample_store) [sample_token 0]"
  by (simp add: iter_order_def sample_store_families)

lemma sample_fresh_next: "fresh_draws sample_sha sample_store (sample_rand 3)"
  by (rule sample_fresh)
    (auto simp: sample_store_sessions sample_store_families sample_token_eq simp del: One_nat_def)

lemma sample_token_hash: "tokenHash sample_sha (sample_token i) = Some (sample_token i)"
  by (simp add: sample_token_def tokenHash_new)

lemma rotate_success:
  assumes inv: "session_inv s" and order: "iter_order (families s) order"
    and r: "RotateRefresh sha rand order now now' token s = (Some (p, u), s')"
  obtains old t where "tokenHash sha token = Some (sha token)" "sessions s (sha token) = Some old"
    "session_kind old = ''refresh''" "now < session_expiresAt old" "u = session_userID old"
    "t = without_families {session_familyID old}
         (s\<lparr>consumed := (consumed s)(sha token \<mapsto> session_userID old)\<rparr>)"
    "issue_family sha rand now' (session_userID old) t = (Inr p, s')"
proof (rule rotate_cases [OF inv order r])
  fix old t
  assume a: "tokenHash sha token = Some (sha token)" "sessions s (sha token) = Some old"
      "session_kind old = ''refresh''" "now < session_expiresAt old"
      "t = without_families {session_familyID old}
         (s\<lparr>consumed := (consumed s)(sha token \<mapsto> session_userID old)\<rparr>)"
    and i: "issue_family sha rand now' (session_userID old) t =
         ((case Some (p, u) of None \<Rightarrow> fst (issue_family sha rand now' (session_userID old) t)
           | Some (pair, u) \<Rightarrow> Inr pair), s')"
    and u: "\<And>pair v. Some (p, u) = Some (pair, v) \<Longrightarrow> v = session_userID old"
  from i have "issue_family sha rand now' (session_userID old) t = (Inr p, s')"
    unfolding option.case prod.case .
  from that [OF a(1-4) u [OF refl] a(5) this] show thesis .
qed simp_all

lemma session_inv_order:
  assumes "session_inv s" obtains order where "iter_order (families s) order"
  using assms iter_order_ex [of "families s"] by (auto simp: session_inv_def)

section \<open>Properties\<close>

text \<open>
  C23: In every store the operations can reach, each live token is an access or a refresh token
  that was never consumed and that its family lists, and everything its family lists is live
  and belongs to the same user: revoking a family revokes exactly the tokens issued with it.
\<close>

theorem session_store_invariant:
  assumes "session_reachable sha s" and "sessions s h = Some r"
  shows "session_kind r \<in> {''access'', ''refresh''} \<and> consumed s h = None
     \<and> (\<exists>hs. families s (session_familyID r) = Some hs \<and> h \<in> set hs
          \<and> (\<forall>h'\<in>set hs. \<exists>r'. sessions s h' = Some r' \<and> session_familyID r' = session_familyID r
               \<and> session_userID r' = session_userID r))"
proof -
  have inv: "session_inv s" by (rule session_reachable_inv [OF assms(1)])
  from session_invD [OF inv assms(2)] obtain hs where hs: "families s (session_familyID r) = Some hs"
    "h \<in> set hs" by blast
  have "\<exists>r'. sessions s h' = Some r' \<and> session_familyID r' = session_familyID r
      \<and> session_userID r' = session_userID r" if "h' \<in> set hs" for h'
    using session_inv_member [OF inv hs(1) that] session_inv_same_user [OF inv _ assms(2)] by blast
  with hs session_invD [OF inv assms(2)] show ?thesis by blast
qed

theorem session_store_invariant_witness:
  "\<exists>hs. families sample_store (sample_token 0) = Some hs \<and> sample_token 1 \<in> set hs"
proof -
  have "sessions sample_store (sample_token 1) =
      Some (entry ''alice'' (sample_token 0) ''access'' (1000 + accessTokenLifetime))"
    by (simp add: sample_store_sessions sample_token_eq del: One_nat_def)
  from session_store_invariant [OF sample_store_reachable this] show ?thesis by auto
qed

text \<open>
  C24: A pair issued to a user works as promised: both tokens have 47 characters, the access
  token authenticates its user for 15 minutes and not later, the refresh token is never
  accepted as an access token, and every token that authenticated before still does.
\<close>

theorem issued_pair_authenticates:
  assumes "fresh_draws sha s rand" and "Issue sha rand now user s = (Inr p, s')"
  shows "user \<noteq> '''' \<and> length (AccessToken p) = 47 \<and> length (RefreshToken p) = 47
     \<and> AccessExpiresAt p = now + 15 * minute \<and> RefreshExpiresAt p = now + 30 * 24 * hour
     \<and> (\<forall>t. AuthenticateAccess sha t (AccessToken p) s' = (if t < now + 15 * minute then Some user else None))
     \<and> (\<forall>t. AuthenticateAccess sha t (RefreshToken p) s' = None)
     \<and> (\<forall>t token v. AuthenticateAccess sha t token s = Some v \<longrightarrow>
          AuthenticateAccess sha t token s' = Some v)"
proof -
  from assms(2) have user: "user \<noteq> ''''" and i: "issue_family sha rand now user s = (Inr p, s')"
    by (auto simp: Issue_def split: if_splits)
  have "AccessExpiresAt p = now + accessTokenLifetime \<and> RefreshExpiresAt p = now + refreshTokenLifetime"
    by (rule issue_family_cases [OF assms(1) i]) auto
  with user issue_family_authenticates [OF assms(1) i] show ?thesis
    by (simp add: accessTokenLifetime_def refreshTokenLifetime_def)
qed

theorem issued_pair_authenticates_witness:
  "AuthenticateAccess sample_sha (1000 + 14 * minute) (sample_token 1) sample_store = Some ''alice''
   \<and> AuthenticateAccess sample_sha (1000 + 15 * minute) (sample_token 1) sample_store = None"
proof -
  have "fresh_draws sample_sha NewSessionStore (sample_rand 0)"
    by (rule sample_fresh) (simp_all add: NewSessionStore_def)
  from issued_pair_authenticates [OF this sample_issue] show ?thesis
    by (simp add: sample_pair_def del: One_nat_def)
qed

text \<open>
  C25: A refresh token is good for one rotation, and presenting it again is treated as theft.
  A rotation needs a live, unexpired refresh token; the store then holds the new pair, for the
  same user, in place of the whole family of the old token, and every other session as before.
  In every later state of the store, whatever operations ran in between, presenting the same
  token again gives nothing and ends every session of that user, access and refresh tokens of
  every family alike, while the sessions of all other users are untouched.
\<close>

theorem refresh_rotation_and_reuse:
  assumes reach: "session_reachable sha s" and fresh: "fresh_draws sha s rand"
    and order: "iter_order (families s) order"
    and r: "RotateRefresh sha rand order now now' token s = (Some (p, u), s')"
  shows "(\<exists>old f. sessions s (sha token) = Some old \<and> session_kind old = ''refresh''
        \<and> now < session_expiresAt old \<and> session_userID old = u
        \<and> (\<forall>h. sessions s' h =
             (if h = sha (RefreshToken p) then Some (entry u f ''refresh'' (now' + refreshTokenLifetime))
              else if h = sha (AccessToken p) then Some (entry u f ''access'' (now' + accessTokenLifetime))
              else case sessions s h of None \<Rightarrow> None
                | Some r \<Rightarrow> if session_familyID r = session_familyID old then None else Some r)))
     \<and> AuthenticateAccess sha now' (AccessToken p) s' = Some u
     \<and> (\<forall>s1 rand' order' t t'. (session_step sha)\<^sup>*\<^sup>* s' s1 \<longrightarrow> iter_order (families s1) order' \<longrightarrow>
          (\<exists>s2. RotateRefresh sha rand' order' t t' token s1 = (None, s2) \<and> consumed s2 = consumed s1
             \<and> (\<forall>h. sessions s2 h = (case sessions s1 h of None \<Rightarrow> None
                   | Some r \<Rightarrow> if session_userID r = u then None else Some r))))"
proof -
  have inv: "session_inv s" by (rule session_reachable_inv [OF reach])
  have inv': "session_inv s'" by (rule rotate_inv [OF inv fresh order r])
  from rotate_success [OF inv order r] obtain old t
    where hash: "tokenHash sha token = Some (sha token)" and old: "sessions s (sha token) = Some old"
      and kind: "session_kind old = ''refresh''" "now < session_expiresAt old"
      and t: "t = without_families {session_familyID old}
         (s\<lparr>consumed := (consumed s)(sha token \<mapsto> session_userID old)\<rparr>)"
      and i: "issue_family sha rand now' (session_userID old) t = (Inr p, s')"
      and u: "u = session_userID old" .
  have fresh_t: "fresh_draws sha t rand" unfolding t by (rule fresh_draws_revoked [OF fresh old])
  have map: "\<exists>f. \<forall>h. sessions s' h =
      (if h = sha (RefreshToken p) then Some (entry u f ''refresh'' (now' + refreshTokenLifetime))
       else if h = sha (AccessToken p) then Some (entry u f ''access'' (now' + accessTokenLifetime))
       else case sessions s h of None \<Rightarrow> None
         | Some r \<Rightarrow> if session_familyID r = session_familyID old then None else Some r)"
  proof (rule issue_family_cases [OF fresh_t i])
    fix b c d
    assume "s' = with_family (new_token b)
         [(sha (new_token d), entry (session_userID old) (new_token b) ''refresh'' (now' + refreshTokenLifetime)),
          (sha (new_token c), entry (session_userID old) (new_token b) ''access'' (now' + accessTokenLifetime))] t"
      and "Inr p = Inr \<lparr>AccessToken = new_token c, RefreshToken = new_token d,
         AccessExpiresAt = now' + accessTokenLifetime, RefreshExpiresAt = now' + refreshTokenLifetime\<rparr>"
    then show ?thesis by (intro exI [of _ "new_token b"]) (simp add: t u map_add_def split: option.split)
  qed simp_all
  have c: "consumed s' (sha token) = Some u"
    using issue_family_consumed [OF fresh_t i] by (simp add: t u)
  have "\<exists>s2. RotateRefresh sha rand' order' t1 t2 token s1 = (None, s2) \<and> consumed s2 = consumed s1
      \<and> (\<forall>h. sessions s2 h = (case sessions s1 h of None \<Rightarrow> None
            | Some r \<Rightarrow> if session_userID r = u then None else Some r))"
    if "(session_step sha)\<^sup>*\<^sup>* s' s1" "iter_order (families s1) order'" for s1 rand' order' t1 t2
  proof -
    from session_steps_consumed [OF that(1) inv' c]
    have inv1: "session_inv s1" and c1: "consumed s1 (sha token) = Some u" by auto
    then have "sessions s1 (sha token) = None"
      using session_invD(2) [OF inv1] by (cases "sessions s1 (sha token)") auto
    with c1 have "RotateRefresh sha rand' order' t1 t2 token s1 = (None, without_families (families_of u s1) s1)"
      by (simp add: RotateRefresh_def hash revokeUser_closed [OF inv1 that(2)])
    with revoked_sessions [OF inv1, of u] show ?thesis by (intro exI conjI) (assumption, simp_all)
  qed
  then show ?thesis
    using old kind u map issue_family_authenticates(3) [OF fresh_t i, of now'] by (auto simp: accessTokenLifetime_def)
qed

lemma sample_rotate:
  assumes "issue_family sample_sha (sample_rand 3) 3000 ''alice''
      (without_families {sample_token 0} (sample_store\<lparr>consumed := [sample_token 2 \<mapsto> ''alice'']\<rparr>)) =
      (Inr p, s')"
  shows "RotateRefresh sample_sha (sample_rand 3) [sample_token 0] 2000 3000 (sample_token 2) sample_store =
     (Some (p, ''alice''), s')"
  using assms
  by (simp add: RotateRefresh_def sample_token_hash sample_store_sessions sample_store_families
      time_before_def refreshTokenLifetime_def
      revokeFamily_consume [OF session_reachable_inv [OF sample_store_reachable]])

lemma sample_rotated:
  "\<exists>s'. RotateRefresh sample_sha (sample_rand 3) [sample_token 0] 2000 3000 (sample_token 2) sample_store =
     (Some (sample_pair 3 3000, ''alice''), s')"
proof -
  have "sessions sample_store (sample_token 2) =
      Some (entry ''alice'' (sample_token 0) ''refresh'' (1000 + refreshTokenLifetime))"
    by (simp add: sample_store_sessions)
  from fresh_draws_revoked [OF sample_fresh_next, of "sample_token 2", OF this]
  have "fresh_draws sample_sha (without_families {sample_token 0}
      (sample_store\<lparr>consumed := [sample_token 2 \<mapsto> ''alice'']\<rparr>)) (sample_rand 3)"
    by (simp add: sample_store_families)
  from sample_rotate [OF sample_issue_family [OF this]] show ?thesis by blast
qed

theorem refresh_rotation_and_reuse_witness:
  "\<exists>s' order' s2. RotateRefresh sample_sha (sample_rand 3) [sample_token 0] 2000 3000 (sample_token 2) sample_store =
     (Some (sample_pair 3 3000, ''alice''), s')
   \<and> AuthenticateAccess sample_sha 3000 (sample_token 4) s' = Some ''alice''
   \<and> RotateRefresh sample_sha (sample_rand 9) order' 4000 4000 (sample_token 2) s' = (None, s2)
   \<and> sessions s2 (sample_token 5) = None"
proof -
  from sample_rotated obtain s' where s': "RotateRefresh sample_sha (sample_rand 3) [sample_token 0]
      2000 3000 (sample_token 2) sample_store = (Some (sample_pair 3 3000, ''alice''), s')"
    by blast
  have "session_inv s'"
    by (rule rotate_inv [OF session_reachable_inv [OF sample_store_reachable] sample_fresh_next sample_order s'])
  then obtain order' where order': "iter_order (families s') order'" by (rule session_inv_order)
  note c = refresh_rotation_and_reuse [OF sample_store_reachable sample_fresh_next sample_order s']
  from c have "AuthenticateAccess sample_sha 3000 (AccessToken (sample_pair 3 3000)) s' = Some ''alice''" by blast
  moreover from c order' obtain s2 where
    "RotateRefresh sample_sha (sample_rand 9) order' 4000 4000 (sample_token 2) s' = (None, s2)"
    and s2: "\<forall>h. sessions s2 h = (case sessions s' h of None \<Rightarrow> None
            | Some r \<Rightarrow> if session_userID r = ''alice'' then None else Some r)" by blast
  moreover from c obtain f where "sessions s' (sample_sha (RefreshToken (sample_pair 3 3000))) =
      Some (entry ''alice'' f ''refresh'' (3000 + refreshTokenLifetime))" by fastforce
  with s2 have "sessions s2 (sample_sha (RefreshToken (sample_pair 3 3000))) = None" by (simp add: entry_def)
  moreover have "sample_sha (RefreshToken (sample_pair 3 3000)) = sample_token 5"
    by (simp add: sample_pair_def sample_sha_def)
  ultimately show ?thesis using s' by (intro exI [of _ s'] exI [of _ order'] exI [of _ s2]) (simp add: sample_pair_def)
qed

text \<open>
  C26: Revoking a user ends every session of that user, access and refresh tokens alike, and
  no other; the order in which Go ranges over the families makes no difference.
\<close>

theorem revoke_user_exact:
  assumes reach: "session_reachable sha s"
    and "iter_order (families s) order" "iter_order (families s) order'"
  shows "RevokeUser order u s = RevokeUser order' u s
     \<and> (\<forall>h. sessions (RevokeUser order u s) h =
          (case sessions s h of None \<Rightarrow> None
           | Some r \<Rightarrow> if session_userID r = u then None else Some r))
     \<and> (\<forall>t token. AuthenticateAccess sha t token (RevokeUser order u s) =
          (case AuthenticateAccess sha t token s of None \<Rightarrow> None
           | Some v \<Rightarrow> if v = u then None else Some v))"
proof -
  have inv: "session_inv s" by (rule session_reachable_inv [OF reach])
  show ?thesis
    unfolding revokeUser_closed(1) [OF inv assms(2)] revokeUser_closed(1) [OF inv assms(3)]
    using revoked_sessions [OF inv] authenticate_after_revoke [OF inv] by blast
qed

theorem revoke_user_exact_witness:
  "AuthenticateAccess sample_sha 2000 (sample_token 1) sample_store = Some ''alice''
   \<and> AuthenticateAccess sample_sha 2000 (sample_token 1)
        (RevokeUser [sample_token 0] ''alice'' sample_store) = None
   \<and> AuthenticateAccess sample_sha 2000 (sample_token 1)
        (RevokeUser [sample_token 0] ''bob'' sample_store) = Some ''alice''"
proof -
  have a: "AuthenticateAccess sample_sha 2000 (sample_token 1) sample_store = Some ''alice''"
    by (simp add: authenticate_session sample_token_hash sample_store_sessions sample_token_eq
        accessTokenLifetime_def del: One_nat_def)
  with revoke_user_exact [OF sample_store_reachable sample_order sample_order, of "''alice''"]
    revoke_user_exact [OF sample_store_reachable sample_order sample_order, of "''bob''"]
  show ?thesis by simp
qed

end
