(* ===== verification/Go_NetIP.thy ===== *)
theory Go_NetIP
  imports Go_Strings "HOL-Library.Word"
begin

text \<open>
  The part of \<^verbatim>\<open>net/netip\<close> the services use: IPv4 and IPv6 addresses as words of their
  width, the successor of an address, prefixes, and the textual forms. \<open>NoAddr\<close> is the
  invalid zero \<^verbatim>\<open>netip.Addr\<close>; the successor of the last address is invalid, as is the
  successor of an invalid one. IPv6 zones do not occur: a prefix refuses them and
  PostgreSQL's \<^verbatim>\<open>host()\<close> never prints one.
\<close>

section \<open>Addresses\<close>

datatype addr = NoAddr | V4 "32 word" | V6 "128 word"

fun isValid :: "addr \<Rightarrow> bool" where
  "isValid NoAddr = False"
| "isValid _ = True"

fun is4 :: "addr \<Rightarrow> bool" where
  "is4 (V4 w) = True"
| "is4 _ = False"

fun bitLen :: "addr \<Rightarrow> nat" where
  "bitLen NoAddr = 0"
| "bitLen (V4 w) = 32"
| "bitLen (V6 w) = 128"

fun next_addr :: "addr \<Rightarrow> addr" where
  "next_addr NoAddr = NoAddr"
| "next_addr (V4 w) = (if w + 1 = 0 then NoAddr else V4 (w + 1))"
| "next_addr (V6 w) = (if w + 1 = 0 then NoAddr else V6 (w + 1))"

text \<open>The numeric value of an address, and the number of addresses of its family.\<close>

fun addr_nat :: "addr \<Rightarrow> nat" where
  "addr_nat NoAddr = 0"
| "addr_nat (V4 w) = unat w"
| "addr_nat (V6 w) = unat w"

lemma addr_nat_bound: "addr_nat a < 2 ^ bitLen a"
proof (cases a)
  case (V4 w)
  then show ?thesis using unsigned_less [of w] by simp
next
  case (V6 w)
  then show ?thesis using unsigned_less [of w] by simp
qed simp

lemma addr_eq_iff: "bitLen a = bitLen b \<Longrightarrow> addr_nat a = addr_nat b \<longleftrightarrow> a = b"
  by (cases a; cases b) (auto simp: word_unat_eq_iff)

lemma unat_suc_word:
  fixes w :: "'a::len word"
  shows "w + 1 = 0 \<longleftrightarrow> Suc (unat w) = 2 ^ LENGTH('a)"
    and "w + 1 \<noteq> 0 \<Longrightarrow> unat (w + 1) = Suc (unat w)"
proof -
  have lt: "unat w < 2 ^ LENGTH('a)" by (rule unsigned_less)
  have "w + 1 = 0 \<longleftrightarrow> Suc (unat w) mod 2 ^ LENGTH('a) = 0"
    by (simp add: word_unat_eq_iff unat_word_ariths)
  also have "\<dots> \<longleftrightarrow> Suc (unat w) = 2 ^ LENGTH('a)"
    using lt by (metis Suc_lessI mod_less mod_self nat.distinct(1))
  finally show "w + 1 = 0 \<longleftrightarrow> Suc (unat w) = 2 ^ LENGTH('a)" .
  show "w + 1 \<noteq> 0 \<Longrightarrow> unat (w + 1) = Suc (unat w)"
    by (simp add: add.commute unatSuc)
qed

lemma next_addr_NoAddr_iff:
  "isValid a \<Longrightarrow> next_addr a = NoAddr \<longleftrightarrow> Suc (addr_nat a) = 2 ^ bitLen a"
  by (cases a) (auto simp: unat_suc_word(1))

lemma next_addr_valid:
  assumes "isValid (next_addr a)"
  shows "addr_nat (next_addr a) = Suc (addr_nat a)" and "bitLen (next_addr a) = bitLen a"
    and "is4 (next_addr a) = is4 a" and "isValid a"
  using assms by (cases a; auto simp: unat_suc_word(2) split: if_splits)+

section \<open>Prefixes\<close>

record addr_prefix =
  prefix_addr :: addr
  prefix_bits :: nat

text \<open>\<^verbatim>\<open>Prefix.Masked().Addr()\<close>: the address with the bits after the prefix cleared.\<close>

fun masked_addr :: "addr_prefix \<Rightarrow> addr" where
  "masked_addr p =
     (case prefix_addr p of
        NoAddr \<Rightarrow> NoAddr
      | V4 w \<Rightarrow> V4 (push_bit (32 - prefix_bits p) (drop_bit (32 - prefix_bits p) w))
      | V6 w \<Rightarrow> V6 (push_bit (128 - prefix_bits p) (drop_bit (128 - prefix_bits p) w)))"

text \<open>\<^verbatim>\<open>Prefix.Contains\<close>: same family, and equal on the bits of the prefix.\<close>

fun prefix_contains :: "addr_prefix \<Rightarrow> addr \<Rightarrow> bool" where
  "prefix_contains p a =
     (case (prefix_addr p, a) of
        (V4 v, V4 w) \<Rightarrow> drop_bit (32 - prefix_bits p) w = drop_bit (32 - prefix_bits p) v
      | (V6 v, V6 w) \<Rightarrow> drop_bit (128 - prefix_bits p) w = drop_bit (128 - prefix_bits p) v
      | _ \<Rightarrow> False)"

text \<open>The number of host bits of a prefix.\<close>

definition host_bits :: "addr_prefix \<Rightarrow> nat" where
  "host_bits p = bitLen (prefix_addr p) - prefix_bits p"

lemma drop_bit_eq_iff:
  fixes v w :: "'a::len word"
  shows "drop_bit n w = drop_bit n v \<longleftrightarrow> unat w div 2 ^ n = unat v div 2 ^ n"
  unfolding word_unat_eq_iff unat_drop_bit_eq by (simp add: drop_bit_eq_div)

lemma prefix_contains_iff:
  "isValid (prefix_addr p) \<Longrightarrow> prefix_contains p a \<longleftrightarrow>
     bitLen a = bitLen (prefix_addr p)
     \<and> addr_nat a div 2 ^ host_bits p = addr_nat (prefix_addr p) div 2 ^ host_bits p"
  by (cases "prefix_addr p"; cases a) (simp_all add: drop_bit_eq_iff host_bits_def)

lemma unat_mask_low:
  fixes w :: "'a::len word"
  shows "unat (push_bit n (drop_bit n w)) = unat w div 2 ^ n * 2 ^ n"
proof -
  have "unat w div 2 ^ n * 2 ^ n \<le> unat w" by (rule div_times_less_eq_dividend)
  then have "unat w div 2 ^ n * 2 ^ n < 2 ^ LENGTH('a)"
    using unsigned_less [of w] by (metis le_less_trans)
  then show ?thesis
    unfolding unsigned_push_bit_eq unat_drop_bit_eq
    unfolding push_bit_eq_mult drop_bit_eq_div by (rule take_bit_nat_eq_self)
qed

lemma masked_addr_facts:
  assumes "isValid (prefix_addr p)"
  shows "bitLen (masked_addr p) = bitLen (prefix_addr p)"
    and "is4 (masked_addr p) = is4 (prefix_addr p)" and "isValid (masked_addr p)"
    and "addr_nat (masked_addr p)
           = addr_nat (prefix_addr p) div 2 ^ host_bits p * 2 ^ host_bits p"
  using assms by (cases "prefix_addr p"; simp add: unat_mask_low host_bits_def)+

section \<open>Text of IPv4 addresses\<close>

text \<open>An octet: decimal digits, no leading zero, at most 255.\<close>

definition parse_octet :: "string \<Rightarrow> nat option" where
  "parse_octet w =
     (if w = [] \<or> \<not> list_all is_digit w \<or> (1 < length w \<and> hd w = CHR ''0'')
         \<or> 255 < digits_val w
      then None else Some (digits_val w))"

definition parse_octets :: "string \<Rightarrow> (nat \<times> nat \<times> nat \<times> nat) option" where
  "parse_octets s =
     (case splitOn CHR ''.'' s of
        [a, b, c, d] \<Rightarrow>
          (case (parse_octet a, parse_octet b, parse_octet c, parse_octet d) of
             (Some i, Some j, Some k, Some l) \<Rightarrow> Some (i, j, k, l)
           | _ \<Rightarrow> None)
      | _ \<Rightarrow> None)"

fun octets_nat :: "nat \<times> nat \<times> nat \<times> nat \<Rightarrow> nat" where
  "octets_nat (a, b, c, d) = 16777216 * a + 65536 * b + 256 * c + d"

definition nat_octets :: "nat \<Rightarrow> nat \<times> nat \<times> nat \<times> nat" where
  "nat_octets n = (n div 16777216, n div 65536 mod 256, n div 256 mod 256, n mod 256)"

fun octets_string :: "nat \<times> nat \<times> nat \<times> nat \<Rightarrow> string" where
  "octets_string (a, b, c, d) = joinWith CHR ''.'' [itoa a, itoa b, itoa c, itoa d]"

definition v4_string :: "32 word \<Rightarrow> string" where
  "v4_string w = octets_string (nat_octets (unat w))"

lemma itoa_head: "0 < n \<Longrightarrow> hd (itoa n) \<noteq> CHR ''0''"
proof (induction n rule: itoa.induct)
  case (1 n)
  show ?case
  proof (cases "n < 10")
    case True
    with "1.prems" have "n = 1 \<or> n = 2 \<or> n = 3 \<or> n = 4 \<or> n = 5 \<or> n = 6 \<or> n = 7 \<or> n = 8 \<or> n = 9"
      by presburger
    then show ?thesis
      by (elim disjE; subst itoa.simps; simp add: digit_char_def)
  next
    case False
    with 1 show ?thesis by (subst itoa.simps) simp
  qed
qed

lemma itoa_zero: "itoa 0 = ''0''"
  by (subst itoa.simps) (simp add: digit_char_def)

lemma parse_octet_itoa: "n < 256 \<Longrightarrow> parse_octet (itoa n) = Some n"
  using itoa_head [of n]
  by (cases "n = 0") (auto simp: parse_octet_def itoa_digits digits_val_itoa itoa_zero
      digits_val_itoa [of 0, unfolded itoa_zero] is_digit_def)

lemma dot_notin_itoa: "CHR ''.'' \<notin> set (itoa n)"
  by (rule not_digit_notin_itoa) (simp add: is_digit_def)

lemma parse_octets_string:
  "a < 256 \<Longrightarrow> b < 256 \<Longrightarrow> c < 256 \<Longrightarrow> d < 256 \<Longrightarrow>
     parse_octets (octets_string (a, b, c, d)) = Some (a, b, c, d)"
  by (simp add: parse_octets_def splitOn_append splitOn_none dot_notin_itoa parse_octet_itoa)

lemma octets_nat_octets: "octets_nat (nat_octets n) = n"
proof -
  define k m q r s t where "k = n div 256" and "m = k div 256" and "q = m div 256"
    and "r = n mod 256" and "s = k mod 256" and "t = m mod 256"
  have n: "256 * k + r = n" and k: "256 * m + s = k" and m: "256 * q + t = m"
    by (simp_all add: k_def m_def q_def r_def s_def t_def)
  have "n div 65536 = m" and "n div 16777216 = q"
    by (simp_all add: k_def m_def q_def div_mult2_eq [symmetric])
  then show ?thesis
    using n k m by (simp add: nat_octets_def r_def [symmetric] k_def [symmetric]
        s_def [symmetric] t_def [symmetric])
qed

text \<open>Printing an IPv4 address and parsing it back.\<close>

definition parse_v4 :: "string \<Rightarrow> addr option" where
  "parse_v4 s = map_option (\<lambda>q. V4 (word_of_nat (octets_nat q))) (parse_octets s)"

lemma nat_octets_bound: "n < 2 ^ 32 \<Longrightarrow> case nat_octets n of (a, b, c, d) \<Rightarrow>
    a < 256 \<and> b < 256 \<and> c < 256 \<and> d < 256"
  by (simp add: nat_octets_def less_mult_imp_div_less)

lemma parse_v4_string: "parse_v4 (v4_string w) = Some (V4 w)"
proof -
  obtain a b c d where q: "nat_octets (unat w) = (a, b, c, d)" by (metis prod_cases4)
  have "unat w < 2 ^ 32" using unsigned_less [of w] by simp
  with q nat_octets_bound have "a < 256" "b < 256" "c < 256" "d < 256" by force+
  then have "parse_octets (v4_string w) = Some (a, b, c, d)"
    by (simp only: v4_string_def q parse_octets_string)
  then show ?thesis
    using octets_nat_octets [of "unat w"] q by (simp add: parse_v4_def)
qed

section \<open>Text of IPv6 addresses\<close>

text \<open>
  The loop of the library's parser: \<open>gs\<close> are the 16-bit groups read so far, \<open>ell\<close> the
  place of the \<^verbatim>\<open>::\<close>, \<open>s\<close> the text left.
\<close>

function parse_groups ::
  "nat list \<Rightarrow> nat option \<Rightarrow> string \<Rightarrow> (nat list \<times> nat option) option" where
  "parse_groups gs ell s =
     (let g = takeWhile is_hex s; r = dropWhile is_hex s; gs' = gs @ [hexes_val g]
      in if 8 \<le> length gs \<or> g = [] \<or> 4 < length g then None
         else case r of
           [] \<Rightarrow> Some (gs', ell)
         | c # r1 \<Rightarrow>
             if c = CHR ''.'' then
               (if ell = None \<and> length gs \<noteq> 6 \<or> 6 < length gs then None
                else map_option (\<lambda>(i, j, k, l). (gs @ [256 * i + j, 256 * k + l], ell))
                       (parse_octets s))
             else if c \<noteq> CHR '':'' then None
             else case r1 of
               [] \<Rightarrow> None
             | d # r2 \<Rightarrow>
                 if d = CHR '':'' then
                   (if ell \<noteq> None then None
                    else if r2 = [] then Some (gs', Some (length gs'))
                    else parse_groups gs' (Some (length gs')) r2)
                 else parse_groups gs' ell r1)"
  by pat_completeness auto
termination
proof (relation "measure (\<lambda>(gs, ell, s). length s)", goal_cases)
  case (2 gs ell s g r gs' c r1 d r2)
  then have "dropWhile is_hex s = c # d # r2" by simp
  then show ?case using length_dropWhile_le [of is_hex s] by simp
next
  case (3 gs ell s g r gs' c r1 d r2)
  then have "dropWhile is_hex s = c # d # r2" by simp
  then show ?case using length_dropWhile_le [of is_hex s] 3 by simp
qed auto

declare parse_groups.simps [simp del]

fun expand_groups :: "nat list \<times> nat option \<Rightarrow> nat list option" where
  "expand_groups (gs, ell) =
     (if length gs < 8 then
        (case ell of
           None \<Rightarrow> None
         | Some e \<Rightarrow> Some (take e gs @ replicate (8 - length gs) 0 @ drop e gs))
      else if ell \<noteq> None then None else Some gs)"

definition groups_nat :: "nat list \<Rightarrow> nat" where
  "groups_nat gs = foldl (\<lambda>n g. 65536 * n + g) 0 gs"

definition parse_v6 :: "string \<Rightarrow> addr option" where
  "parse_v6 s =
     (let parsed =
        (if hasPrefix s ''::''
         then (if length s = 2 then Some ([], Some 0) else parse_groups [] (Some 0) (drop 2 s))
         else parse_groups [] None s)
      in map_option (\<lambda>gs. V6 (word_of_nat (groups_nat gs)))
           (Option.bind parsed expand_groups))"

text \<open>\<^verbatim>\<open>netip.ParseAddr\<close>: the first of the signs \<^verbatim>\<open>.\<close>, \<^verbatim>\<open>:\<close> and \<^verbatim>\<open>%\<close> decides the family.\<close>

definition parseAddr :: "string \<Rightarrow> addr option" where
  "parseAddr s =
     (case find (\<lambda>c. c \<in> set ''.:%'') s of
        None \<Rightarrow> None
      | Some c \<Rightarrow>
          if c = CHR ''.'' then parse_v4 s
          else if c = CHR '':'' then (if CHR ''%'' \<in> set s then None else parse_v6 s)
          else None)"

text \<open>
  \<^verbatim>\<open>netip.ParsePrefix\<close>: the text is cut at its last slash; the number of bits has no sign
  and no leading zero and is at most the length of the address.
\<close>

definition parse_bits :: "string \<Rightarrow> nat option" where
  "parse_bits w =
     (if w = [] \<or> \<not> list_all is_digit w \<or> (1 < length w \<and> hd w = CHR ''0'') then None
      else Some (digits_val w))"

definition parsePrefix :: "string \<Rightarrow> addr_prefix option" where
  "parsePrefix s =
     (let r = rev s;
          tail = rev (takeWhile (\<lambda>c. c \<noteq> CHR ''/'') r);
          front = rev (drop 1 (dropWhile (\<lambda>c. c \<noteq> CHR ''/'') r))
      in if CHR ''/'' \<notin> set s then None
         else case (parseAddr front, parse_bits tail) of
           (Some a, Some n) \<Rightarrow>
             (if n \<le> bitLen a then Some \<lparr>prefix_addr = a, prefix_bits = n\<rparr> else None)
         | _ \<Rightarrow> None)"

lemma parsePrefix_split:
  assumes "CHR ''/'' \<notin> set t"
  shows "parsePrefix (s @ CHR ''/'' # t) =
    (case (parseAddr s, parse_bits t) of
       (Some a, Some n) \<Rightarrow>
         (if n \<le> bitLen a then Some \<lparr>prefix_addr = a, prefix_bits = n\<rparr> else None)
     | _ \<Rightarrow> None)"
proof -
  have cut: "takeWhile (\<lambda>c. c \<noteq> CHR ''/'') (rev t @ CHR ''/'' # rev s) = rev t"
    "dropWhile (\<lambda>c. c \<noteq> CHR ''/'') (rev t @ CHR ''/'' # rev s) = CHR ''/'' # rev s"
    using assms by (auto simp: takeWhile_append dropWhile_append)
  show ?thesis by (simp add: parsePrefix_def Let_def cut cong: option.case_cong)
qed

lemma parseAddr_valid: "parseAddr s = Some a \<Longrightarrow> isValid a"
  by (auto simp: parseAddr_def parse_v4_def parse_v6_def Let_def split: option.splits if_splits)

lemma parsePrefix_valid:
  "parsePrefix s = Some p \<Longrightarrow> isValid (prefix_addr p) \<and> prefix_bits p \<le> bitLen (prefix_addr p)"
  by (auto simp: parsePrefix_def Let_def dest: parseAddr_valid split: if_splits option.splits)

lemma find_dot_itoa:
  assumes "list_all is_digit w"
  shows "find (\<lambda>c. c \<in> set ''.:%'') (w @ CHR ''.'' # s) = Some CHR ''.''"
  using assms by (induction w) (auto simp: is_digit_def)

lemma parseAddr_v4_string: "parseAddr (v4_string w) = Some (V4 w)"
proof -
  obtain a b c d where q: "nat_octets (unat w) = (a, b, c, d)" by (metis prod_cases4)
  have "find (\<lambda>c. c \<in> set ''.:%'') (v4_string w) = Some CHR ''.''"
    unfolding v4_string_def q
    using find_dot_itoa [OF itoa_digits, of a] by simp
  then show ?thesis by (simp add: parseAddr_def parse_v4_string)
qed

section \<open>Printing IPv6 addresses\<close>

definition nat_groups :: "nat \<Rightarrow> nat list" where
  "nat_groups n = map (\<lambda>i. n div 65536 ^ (7 - i) mod 65536) [0..<8]"

text \<open>The length of the run of zero groups that starts at each place, and the longest.\<close>

fun zero_run :: "nat list \<Rightarrow> nat" where
  "zero_run (0 # gs) = Suc (zero_run gs)"
| "zero_run _ = 0"

definition best_run :: "nat list \<Rightarrow> (nat \<times> nat) option" where
  "best_run gs =
     foldl (\<lambda>best i. let n = zero_run (drop i gs)
              in if 2 \<le> n \<and> (case best of None \<Rightarrow> True | Some (j, m) \<Rightarrow> m < n)
                 then Some (i, n) else best)
       None [0..<length gs]"

definition groups_string :: "nat list \<Rightarrow> string" where
  "groups_string gs =
     (case best_run gs of
        None \<Rightarrow> joinWith CHR '':'' (map hex gs)
      | Some (i, n) \<Rightarrow>
          joinWith CHR '':'' (map hex (take i gs)) @ ''::''
            @ joinWith CHR '':'' (map hex (drop (i + n) gs)))"

text \<open>\<^verbatim>\<open>Addr.String\<close>: RFC 5952, with the mixed form for IPv4-mapped addresses.\<close>

definition v6_string :: "128 word \<Rightarrow> string" where
  "v6_string w =
     (if unat w div 4294967296 = 65535
      then ''::ffff:'' @ octets_string (nat_octets (unat w mod 4294967296))
      else groups_string (nat_groups (unat w)))"

fun addr_string :: "addr \<Rightarrow> string" where
  "addr_string NoAddr = ''invalid IP''"
| "addr_string (V4 w) = v4_string w"
| "addr_string (V6 w) = v6_string w"

end
