(* ===== verification/Snapshot.thy ===== *)
theory Snapshot
  imports Go_NetIP Go_Base64 "HOL-Library.Multiset"
begin

text \<open>
  Gateway snapshots, \<^verbatim>\<open>internal/agent/snapshot.go\<close>: the signed list of peers a gateway is to
  serve, its validation, its signature and the difference between it and the peers observed.
  Ed25519 and JSON are not code of the repository: \<open>marshal\<close>, \<open>ed_sign\<close> and \<open>ed_verify\<close> are
  arguments, and \<open>ed25519_sound\<close> states what the code relies on. A Go map ranged over comes
  with its iteration order; \<^verbatim>\<open>sort.Slice\<close> by key and kind is \<open>sort_key\<close> on the pair of both,
  compared byte by byte as Go compares strings.
\<close>

definition maxPeersPerSnapshot :: nat where "maxPeersPerSnapshot = 100000"

record Peer =
  peer_PublicKey :: string
  peer_IPv4 :: string
  peer_IPv6 :: string

record Snapshot =
  snap_GatewayID :: string
  snap_Generation :: int
  snap_ExpiresAt :: time
  snap_Peers :: "Peer list"
  snap_Signature :: string

type_synonym OperationKind = string

abbreviation "OperationAdd \<equiv> ''add''"
abbreviation "OperationUpdate \<equiv> ''update''"
abbreviation "OperationRemove \<equiv> ''remove''"

record Operation =
  op_Kind :: OperationKind
  op_Peer :: Peer

definition validPublicKey :: "string \<Rightarrow> bool" where
  "validPublicKey v =
     (case decode64 StdEncoding v of
        None \<Rightarrow> False
      | Some decoded \<Rightarrow> length decoded = 32 \<and> encode64 StdEncoding decoded = v)"

definition validHostPrefix :: "string \<Rightarrow> nat \<Rightarrow> bool" where
  "validHostPrefix v family =
     (case parsePrefix v of
        None \<Rightarrow> False
      | Some p \<Rightarrow>
          if prefix_bits p \<noteq> bitLen (prefix_addr p) then False
          else (family = 4 \<and> bitLen (prefix_addr p) = 32) \<or> (family = 6 \<and> bitLen (prefix_addr p) = 128))"

text \<open>The loop of \<^verbatim>\<open>Validate\<close> over the peers, with the three sets of what was seen.\<close>

fun validate_peers :: "string set \<Rightarrow> string set \<Rightarrow> string set \<Rightarrow> Peer list \<Rightarrow> error option" where
  "validate_peers seenKeys seenIPv4 seenIPv6 [] = None"
| "validate_peers seenKeys seenIPv4 seenIPv6 (peer # rest) =
     (if \<not> validPublicKey (peer_PublicKey peer) \<or> \<not> validHostPrefix (peer_IPv4 peer) 4
         \<or> \<not> validHostPrefix (peer_IPv6 peer) 6 then Some ErrInvalidSnapshot
      else if peer_PublicKey peer \<in> seenKeys then Some ErrInvalidSnapshot
      else if peer_IPv4 peer \<in> seenIPv4 then Some ErrInvalidSnapshot
      else if peer_IPv6 peer \<in> seenIPv6 then Some ErrInvalidSnapshot
      else validate_peers (insert (peer_PublicKey peer) seenKeys) (insert (peer_IPv4 peer) seenIPv4)
             (insert (peer_IPv6 peer) seenIPv6) rest)"

definition Validate :: "Snapshot \<Rightarrow> time \<Rightarrow> string \<Rightarrow> error option" where
  "Validate s now gatewayID =
     (if snap_GatewayID s = '''' \<or> snap_GatewayID s \<noteq> gatewayID \<or> snap_Generation s \<le> 0
         \<or> \<not> time_after (snap_ExpiresAt s) now then Some ErrInvalidSnapshot
      else if length (snap_Peers s) > maxPeersPerSnapshot then Some ErrInvalidSnapshot
      else validate_peers {} {} {} (snap_Peers s))"

definition signingBytes :: "(Snapshot \<Rightarrow> string result) \<Rightarrow> Snapshot \<Rightarrow> string result" where
  "signingBytes marshal s = marshal (s\<lparr>snap_Signature := []\<rparr>)"

definition Verify ::
  "(Snapshot \<Rightarrow> string result) \<Rightarrow> (string \<Rightarrow> string \<Rightarrow> string \<Rightarrow> bool)
   \<Rightarrow> Snapshot \<Rightarrow> time \<Rightarrow> string \<Rightarrow> string \<Rightarrow> error option" where
  "Verify marshal ed_verify s now gatewayID publicKey =
     (case Validate s now gatewayID of
        Some err \<Rightarrow> Some err
      | None \<Rightarrow>
          if length publicKey \<noteq> 32 \<or> length (snap_Signature s) \<noteq> 64 then Some ErrInvalidSignature
          else case signingBytes marshal s of
            Inl err \<Rightarrow> Some ErrInvalidSignature
          | Inr content \<Rightarrow>
              if \<not> ed_verify publicKey content (snap_Signature s) then Some ErrInvalidSignature
              else None)"

definition Sign ::
  "(Snapshot \<Rightarrow> string result) \<Rightarrow> (string \<Rightarrow> string \<Rightarrow> string) \<Rightarrow> Snapshot \<Rightarrow> string
   \<Rightarrow> Snapshot result" where
  "Sign marshal ed_sign s privateKey =
     (if length privateKey \<noteq> 64 then Inl ErrInvalidSignature
      else
        let s1 = s\<lparr>snap_Signature := []\<rparr> in
        case signingBytes marshal s1 of
          Inl err \<Rightarrow> Inl (Wrapped ''encode snapshot'' err)
        | Inr content \<Rightarrow> Inr (s1\<lparr>snap_Signature := ed_sign privateKey content\<rparr>))"

definition peers_by_key :: "Peer list \<Rightarrow> string \<rightharpoonup> Peer" where
  "peers_by_key peers = foldl (\<lambda>m p. m(peer_PublicKey p \<mapsto> p)) Map.empty peers"

definition no_peer :: Peer where
  "no_peer = \<lparr>peer_PublicKey = [], peer_IPv4 = [], peer_IPv6 = []\<rparr>"

text \<open>The two loops of \<^verbatim>\<open>Diff\<close>, one turn each: the operations it appends.\<close>

definition diff_desired :: "(string \<rightharpoonup> Peer) \<Rightarrow> (string \<rightharpoonup> Peer) \<Rightarrow> string \<Rightarrow> Operation list" where
  "diff_desired desiredByKey observed key =
     (case desiredByKey key of
        None \<Rightarrow> []
      | Some peer \<Rightarrow>
          (case observed key of
             None \<Rightarrow> [\<lparr>op_Kind = OperationAdd, op_Peer = peer\<rparr>]
           | Some current \<Rightarrow>
               if peer_IPv4 current \<noteq> peer_IPv4 peer \<or> peer_IPv6 current \<noteq> peer_IPv6 peer
               then [\<lparr>op_Kind = OperationUpdate, op_Peer = peer\<rparr>] else []))"

definition diff_observed :: "(string \<rightharpoonup> Peer) \<Rightarrow> (string \<rightharpoonup> Peer) \<Rightarrow> string \<Rightarrow> Operation list" where
  "diff_observed desiredByKey observed key =
     (case observed key of
        None \<Rightarrow> []
      | Some peer \<Rightarrow>
          if desiredByKey key = None
          then [\<lparr>op_Kind = OperationRemove, op_Peer = no_peer\<lparr>peer_PublicKey := peer_PublicKey peer\<rparr>\<rparr>]
          else [])"

definition op_order :: "Operation \<Rightarrow> string list" where
  "op_order x = [peer_PublicKey (op_Peer x), op_Kind x]"

definition Diff ::
  "string list \<Rightarrow> string list \<Rightarrow> Snapshot \<Rightarrow> (string \<rightharpoonup> Peer) \<Rightarrow> Operation list result" where
  "Diff order1 order2 desired observed =
     (case Validate desired 0 (snap_GatewayID desired) of
        Some err \<Rightarrow> Inl err
      | None \<Rightarrow>
          let desiredByKey = peers_by_key (snap_Peers desired) in
          Inr (sort_key op_order
                (concat (map (diff_desired desiredByKey observed) order1)
                 @ concat (map (diff_observed desiredByKey observed) order2))))"

section \<open>Validation\<close>

definition valid_peer :: "Peer \<Rightarrow> bool" where
  "valid_peer p \<longleftrightarrow> validPublicKey (peer_PublicKey p) \<and> validHostPrefix (peer_IPv4 p) 4
     \<and> validHostPrefix (peer_IPv6 p) 6"

lemma validate_peers_None:
  "validate_peers K V W ps = None \<longleftrightarrow>
     (\<forall>p\<in>set ps. valid_peer p)
     \<and> distinct (map peer_PublicKey ps) \<and> peer_PublicKey ` set ps \<inter> K = {}
     \<and> distinct (map peer_IPv4 ps) \<and> peer_IPv4 ` set ps \<inter> V = {}
     \<and> distinct (map peer_IPv6 ps) \<and> peer_IPv6 ` set ps \<inter> W = {}"
  by (induction ps arbitrary: K V W) (auto simp: valid_peer_def)

lemma validate_peers_error: "validate_peers K V W ps = Some err \<Longrightarrow> err = ErrInvalidSnapshot"
  by (induction K V W ps rule: validate_peers.induct) (auto split: if_splits)

definition valid_peers :: "Peer list \<Rightarrow> bool" where
  "valid_peers ps \<longleftrightarrow> length ps \<le> maxPeersPerSnapshot \<and> (\<forall>p\<in>set ps. valid_peer p)
     \<and> distinct (map peer_PublicKey ps) \<and> distinct (map peer_IPv4 ps) \<and> distinct (map peer_IPv6 ps)"

lemma Validate_None:
  "Validate s now gatewayID = None \<longleftrightarrow>
     snap_GatewayID s \<noteq> '''' \<and> snap_GatewayID s = gatewayID \<and> 0 < snap_Generation s
     \<and> now < snap_ExpiresAt s \<and> valid_peers (snap_Peers s)"
  by (auto simp: Validate_def validate_peers_None valid_peers_def time_after_def)

lemma Validate_error: "Validate s now gatewayID = Some err \<Longrightarrow> err = ErrInvalidSnapshot"
  by (auto simp: Validate_def split: if_splits dest: validate_peers_error)

lemma Validate_signature [simp]:
  "Validate (s\<lparr>snap_Signature := x\<rparr>) now gatewayID = Validate s now gatewayID"
  by (simp add: Validate_def)

text \<open>The keys that pass are the Base64 texts of 32 bytes.\<close>

lemma validPublicKey_iff: "validPublicKey v \<longleftrightarrow> (\<exists>k. length k = 32 \<and> v = encode64 StdEncoding k)"
  unfolding validPublicKey_def by (rule std.canonical_iff)

text \<open>The host prefixes of each family.\<close>

lemma bitLen_32: "bitLen a = 32 \<longleftrightarrow> (\<exists>w. a = V4 w)" and bitLen_128: "bitLen a = 128 \<longleftrightarrow> (\<exists>w. a = V6 w)"
  by (cases a; simp)+

lemma validHostPrefix_4:
  "validHostPrefix v 4 \<longleftrightarrow> (\<exists>w. parsePrefix v = Some \<lparr>prefix_addr = V4 w, prefix_bits = 32\<rparr>)"
proof (cases "parsePrefix v")
  case (Some p)
  then show ?thesis
    by (cases p) (auto simp: validHostPrefix_def bitLen_32)
qed (simp add: validHostPrefix_def)

lemma validHostPrefix_6:
  "validHostPrefix v 6 \<longleftrightarrow> (\<exists>w. parsePrefix v = Some \<lparr>prefix_addr = V6 w, prefix_bits = 128\<rparr>)"
proof (cases "parsePrefix v")
  case (Some p)
  then show ?thesis
    by (cases p) (auto simp: validHostPrefix_def bitLen_128)
qed (simp add: validHostPrefix_def)

section \<open>Signatures\<close>

definition ed25519_sound ::
  "(string \<Rightarrow> string \<Rightarrow> string) \<Rightarrow> (string \<Rightarrow> string \<Rightarrow> string \<Rightarrow> bool) \<Rightarrow> string \<Rightarrow> string \<Rightarrow> bool" where
  "ed25519_sound ed_sign ed_verify privateKey publicKey \<longleftrightarrow>
     length privateKey = 64 \<and> length publicKey = 32
     \<and> (\<forall>m. length (ed_sign privateKey m) = 64)
     \<and> (\<forall>m. ed_verify publicKey m (ed_sign privateKey m))"

lemma Sign_Inr:
  assumes "Sign marshal ed_sign s privateKey = Inr t"
  obtains content where "signingBytes marshal s = Inr content"
    "t = s\<lparr>snap_Signature := ed_sign privateKey content\<rparr>" "length privateKey = 64"
  using assms by (auto simp: Sign_def signingBytes_def Let_def split: if_splits sum.splits)

lemma Verify_None:
  "Verify marshal ed_verify s now gatewayID publicKey = None \<longleftrightarrow>
     Validate s now gatewayID = None \<and> length publicKey = 32 \<and> length (snap_Signature s) = 64
     \<and> (\<exists>content. signingBytes marshal s = Inr content \<and> ed_verify publicKey content (snap_Signature s))"
  by (auto simp: Verify_def split: option.splits sum.splits if_splits)

lemma signingBytes_signature [simp]:
  "signingBytes marshal (s\<lparr>snap_Signature := x\<rparr>) = signingBytes marshal s"
  by (simp add: signingBytes_def)

lemma Sign_Verify:
  assumes "ed25519_sound ed_sign ed_verify privateKey publicKey"
    and "Validate s now gatewayID = None" "Sign marshal ed_sign s privateKey = Inr t"
  shows "Verify marshal ed_verify t now gatewayID publicKey = None"
proof -
  obtain content where c: "signingBytes marshal s = Inr content"
    "t = s\<lparr>snap_Signature := ed_sign privateKey content\<rparr>"
    using assms(3) by (rule Sign_Inr)
  have "signingBytes marshal t = Inr content" unfolding c(2) signingBytes_signature by (rule c(1))
  moreover have "Validate t now gatewayID = None" unfolding c(2) Validate_signature by (rule assms(2))
  moreover have "snap_Signature t = ed_sign privateKey content" by (simp add: c(2))
  ultimately show ?thesis using assms(1) unfolding Verify_None ed25519_sound_def by auto
qed

section \<open>The difference\<close>

lemma peers_by_key_snoc:
  "peers_by_key (ps @ [p]) = (peers_by_key ps)(peer_PublicKey p \<mapsto> p)"
  by (simp add: peers_by_key_def)

lemma peers_by_key_Nil [simp]: "peers_by_key [] = Map.empty"
  by (simp add: peers_by_key_def)

lemma peers_by_key_key: "peers_by_key ps k = Some p \<Longrightarrow> p \<in> set ps \<and> peer_PublicKey p = k"
  by (induction ps rule: rev_induct) (auto simp: peers_by_key_snoc split: if_splits)

lemma peers_by_key_mem:
  "distinct (map peer_PublicKey ps) \<Longrightarrow> p \<in> set ps \<Longrightarrow> peers_by_key ps (peer_PublicKey p) = Some p"
  by (induction ps rule: rev_induct) (auto simp: peers_by_key_snoc rev_image_eqI)

lemma dom_peers_by_key: "dom (peers_by_key ps) = peer_PublicKey ` set ps"
  by (induction ps rule: rev_induct) (simp_all add: peers_by_key_snoc del: fun_upd_apply)

text \<open>A map of peers whose entries are filed under their own key.\<close>

definition keyed :: "(string \<rightharpoonup> Peer) \<Rightarrow> bool" where
  "keyed m \<longleftrightarrow> (\<forall>k p. m k = Some p \<longrightarrow> peer_PublicKey p = k)"

lemma keyedD: "keyed m \<Longrightarrow> m k = Some p \<Longrightarrow> peer_PublicKey p = k"
  by (simp add: keyed_def)

lemma keyed_peers_by_key [simp]: "keyed (peers_by_key ps)"
  by (auto simp: keyed_def dest: peers_by_key_key)

text \<open>The operation a key needs, and the unsorted list of \<^verbatim>\<open>Diff\<close>.\<close>

definition needed_op :: "(string \<rightharpoonup> Peer) \<Rightarrow> (string \<rightharpoonup> Peer) \<Rightarrow> string \<Rightarrow> Operation list" where
  "needed_op D ob k = diff_desired D ob k @ diff_observed D ob k"

lemma needed_op_cases:
  assumes "keyed D" "keyed ob"
  shows "needed_op D ob k =
    (case (D k, ob k) of
       (None, None) \<Rightarrow> []
     | (None, Some q) \<Rightarrow> [\<lparr>op_Kind = OperationRemove, op_Peer = no_peer\<lparr>peer_PublicKey := k\<rparr>\<rparr>]
     | (Some p, None) \<Rightarrow> [\<lparr>op_Kind = OperationAdd, op_Peer = p\<rparr>]
     | (Some p, Some q) \<Rightarrow> if p = q then [] else [\<lparr>op_Kind = OperationUpdate, op_Peer = p\<rparr>])"
proof -
  have eq: "(peer_IPv4 q \<noteq> peer_IPv4 p \<or> peer_IPv6 q \<noteq> peer_IPv6 p) = (p \<noteq> q)"
    if "D k = Some p" "ob k = Some q" for p q :: Peer
    using keyedD [OF assms(1) that(1)] keyedD [OF assms(2) that(2)] by (auto intro: Peer.equality)
  show ?thesis
  proof (cases "D k")
    case None
    then show ?thesis
      using keyedD [OF assms(2), of k]
      by (auto simp: needed_op_def diff_desired_def diff_observed_def split: option.splits)
  next
    case (Some p)
    then show ?thesis
      using eq [OF Some]
      by (cases "ob k") (simp_all add: needed_op_def diff_desired_def diff_observed_def)
  qed
qed

lemma needed_op_key:
  assumes "keyed D" "keyed ob" "x \<in> set (needed_op D ob k)"
  shows "peer_PublicKey (op_Peer x) = k"
  using assms(3) keyedD [OF assms(1)]
  by (auto simp: needed_op_cases [OF assms(1,2)] split: option.splits if_splits)

section \<open>Correctness of the difference\<close>

definition apply_op :: "Operation \<Rightarrow> (string \<rightharpoonup> Peer) \<Rightarrow> (string \<rightharpoonup> Peer)" where
  "apply_op x m =
     (if op_Kind x = OperationRemove then m(peer_PublicKey (op_Peer x) := None)
      else m(peer_PublicKey (op_Peer x) \<mapsto> op_Peer x))"

abbreviation apply_ops :: "Operation list \<Rightarrow> (string \<rightharpoonup> Peer) \<Rightarrow> (string \<rightharpoonup> Peer)" where
  "apply_ops xs m \<equiv> fold apply_op xs m"

abbreviation op_key :: "Operation \<Rightarrow> string" where
  "op_key x \<equiv> peer_PublicKey (op_Peer x)"

text \<open>Operations on different keys do not interfere, so their order does not matter.\<close>

lemma apply_ops_other:
  "k \<notin> op_key ` set xs \<Longrightarrow> apply_ops xs m k = m k"
  by (induction xs arbitrary: m) (auto simp: apply_op_def)

lemma apply_ops_lookup:
  assumes "distinct (map op_key xs)" "x \<in> set xs"
  shows "apply_ops xs m (op_key x) =
    (if op_Kind x = OperationRemove then None else Some (op_Peer x))"
  using assms
proof (induction xs arbitrary: m)
  case (Cons y xs)
  show ?case
  proof (cases "x = y")
    case True
    with Cons.prems(1) have "op_key x \<notin> op_key ` set xs" by simp
    with True show ?thesis by (simp add: apply_ops_other) (simp add: apply_op_def)
  next
    case False
    with Cons show ?thesis by simp
  qed
qed simp

text \<open>The operations of a difference, whatever the orders: one list per key.\<close>

lemma op_order_inj: "op_order x = op_order y \<longleftrightarrow> op_key x = op_key y \<and> op_Kind x = op_Kind y"
  by (simp add: op_order_def)

definition needed_ops :: "(string \<rightharpoonup> Peer) \<Rightarrow> (string \<rightharpoonup> Peer) \<Rightarrow> Operation set" where
  "needed_ops D ob = {x. \<exists>k. x \<in> set (needed_op D ob k)}"

lemma needed_op_single:
  assumes "keyed D" "keyed ob" "x \<in> set (needed_op D ob k)" "y \<in> set (needed_op D ob k)"
  shows "x = y"
  using assms(3,4) by (auto simp: needed_op_cases [OF assms(1,2)] split: option.splits if_splits)

lemma needed_ops_unique:
  assumes "keyed D" "keyed ob" "x \<in> needed_ops D ob" "y \<in> needed_ops D ob" "op_key x = op_key y"
  shows "x = y"
  using assms(3-5) needed_op_key [OF assms(1,2)] needed_op_single [OF assms(1,2)]
  unfolding needed_ops_def mem_Collect_eq by metis

lemma diff_list_set:
  assumes "iter_order D o1" "iter_order ob o2"
  shows "set (concat (map (diff_desired D ob) o1) @ concat (map (diff_observed D ob) o2)) = needed_ops D ob"
proof -
  have "\<exists>k\<in>set o1. x \<in> set (diff_desired D ob k)" if "x \<in> set (diff_desired D ob k)" for x k
    using that iter_orderD(2) [OF assms(1)] by (force simp: diff_desired_def split: option.splits)
  moreover have "\<exists>k\<in>set o2. x \<in> set (diff_observed D ob k)" if "x \<in> set (diff_observed D ob k)" for x k
    using that iter_orderD(2) [OF assms(2)] by (force simp: diff_observed_def split: option.splits)
  ultimately show ?thesis by (fastforce simp: needed_ops_def needed_op_def)
qed

lemma distinct_concat_keys:
  assumes "distinct ks" "\<And>k x. x \<in> set (f k) \<Longrightarrow> op_key x = k" "\<And>k. length (f k) \<le> 1"
  shows "distinct (map op_key (concat (map f ks)))"
  using assms(1)
proof (induction ks)
  case (Cons k ks)
  from assms(3) [of k] have "distinct (map op_key (f k))"
    by (cases "f k") auto
  moreover have "op_key ` set (f k) \<inter> op_key ` set (concat (map f ks)) = {}"
    using Cons.prems assms(2) by fastforce
  ultimately show ?case using Cons by auto
qed simp

lemma diff_turn_length: "length (diff_desired D ob k) \<le> 1" "length (diff_observed D ob k) \<le> 1"
  by (simp_all add: diff_desired_def diff_observed_def split: option.splits)

lemma diff_list_distinct:
  assumes "keyed D" "keyed ob" "iter_order D o1" "iter_order ob o2"
  shows "distinct (map op_key (concat (map (diff_desired D ob) o1) @ concat (map (diff_observed D ob) o2)))"
proof -
  have k1: "op_key x = k \<and> D k \<noteq> None" if "x \<in> set (diff_desired D ob k)" for x k
    using that keyedD [OF assms(1), of k]
    by (cases "D k") (auto simp: diff_desired_def split: option.splits if_splits)
  have k2: "op_key x = k \<and> D k = None" if "x \<in> set (diff_observed D ob k)" for x k
    using that keyedD [OF assms(2)] by (auto simp: diff_observed_def split: option.splits if_splits)
  have "distinct (map op_key (concat (map (diff_desired D ob) o1)))"
    using k1 diff_turn_length(1) by (intro distinct_concat_keys [OF iter_orderD(1) [OF assms(3)]]) blast+
  moreover have "distinct (map op_key (concat (map (diff_observed D ob) o2)))"
    using k2 diff_turn_length(2) by (intro distinct_concat_keys [OF iter_orderD(1) [OF assms(4)]]) blast+
  moreover have "op_key ` set (concat (map (diff_desired D ob) o1))
      \<inter> op_key ` set (concat (map (diff_observed D ob) o2)) = {}"
  proof -
    have "D (op_key x) \<noteq> None" if "x \<in> set (concat (map (diff_desired D ob) o1))" for x
    proof -
      from that have "x \<in> (\<Union>k\<in>set o1. set (diff_desired D ob k))" by simp
      then obtain k where "x \<in> set (diff_desired D ob k)" by blast
      from k1 [OF this] show ?thesis by blast
    qed
    moreover have "D (op_key x) = None" if "x \<in> set (concat (map (diff_observed D ob) o2))" for x
    proof -
      from that have "x \<in> (\<Union>k\<in>set o2. set (diff_observed D ob k))" by simp
      then obtain k where "x \<in> set (diff_observed D ob k)" by blast
      from k2 [OF this] show ?thesis by blast
    qed
    ultimately show ?thesis by (intro equals0I) (elim IntE imageE, metis)
  qed
  ultimately show ?thesis by simp
qed

text \<open>What \<open>Diff\<close> returns, in one lemma: the needed operations, each once, in key order.\<close>

lemma Diff_Inr:
  assumes "Diff o1 o2 desired ob = Inr xs" "keyed ob"
    and "iter_order (peers_by_key (snap_Peers desired)) o1" "iter_order ob o2"
  shows "valid_peers (snap_Peers desired)" "set xs = needed_ops (peers_by_key (snap_Peers desired)) ob"
    and "distinct (map op_key xs)" "sorted (map op_order xs)"
proof -
  let ?D = "peers_by_key (snap_Peers desired)"
  let ?l = "concat (map (diff_desired ?D ob) o1) @ concat (map (diff_observed ?D ob) o2)"
  from assms(1) have v: "Validate desired 0 (snap_GatewayID desired) = None" and xs: "xs = sort_key op_order ?l"
    by (auto simp: Diff_def Let_def split: option.splits)
  from v show "valid_peers (snap_Peers desired)" by (simp add: Validate_None)
  show "set xs = needed_ops ?D ob" unfolding xs by (simp add: diff_list_set [OF assms(3,4), symmetric])
  have "mset (map op_key xs) = mset (map op_key ?l)" unfolding xs by simp
  with diff_list_distinct [OF keyed_peers_by_key assms(2-4)]
  show "distinct (map op_key xs)" by (metis mset_eq_imp_distinct_iff)
  show "sorted (map op_order xs)" unfolding xs by (rule sorted_sort_key)
qed

lemma sorted_map_inj_unique:
  assumes "sorted (map f xs)" "sorted (map f ys)" "distinct xs" "distinct ys" "set xs = set ys"
    "inj_on f (set xs)"
  shows "xs = ys"
proof -
  have "map f xs = map f ys"
    using assms by (intro sorted_distinct_set_unique) (auto simp: distinct_map)
  then show ?thesis using assms(5,6) map_inj_on [of f xs ys] by auto
qed

lemma Diff_apply:
  assumes "Diff o1 o2 desired ob = Inr xs" "keyed ob"
    and "iter_order (peers_by_key (snap_Peers desired)) o1" "iter_order ob o2"
  shows "apply_ops xs ob = peers_by_key (snap_Peers desired)"
proof
  fix k
  let ?D = "peers_by_key (snap_Peers desired)"
  note d = Diff_Inr [OF assms]
  show "apply_ops xs ob k = ?D k"
  proof (cases "needed_op ?D ob k")
    case Nil
    then have "k \<notin> op_key ` set xs"
      using needed_op_key [OF keyed_peers_by_key assms(2)] by (fastforce simp: d(2) needed_ops_def)
    moreover have "ob k = ?D k"
      using Nil by (auto simp: needed_op_cases [OF keyed_peers_by_key assms(2)] split: option.splits if_splits)
    ultimately show ?thesis by (simp add: apply_ops_other)
  next
    case (Cons x r)
    then have "x \<in> set (needed_op ?D ob k)" by simp
    then have x: "x \<in> set xs" "op_key x = k"
      using needed_op_key [OF keyed_peers_by_key assms(2)] unfolding d(2) needed_ops_def by blast+
    have "(if op_Kind x = OperationRemove then None else Some (op_Peer x)) = ?D k"
      using Cons by (auto simp: needed_op_cases [OF keyed_peers_by_key assms(2)] split: option.splits if_splits)
    with apply_ops_lookup [OF d(3) x(1)] x(2) show ?thesis by simp
  qed
qed

lemma Diff_order:
  assumes "Diff o1 o2 desired ob = Inr xs" "keyed ob"
    and "iter_order (peers_by_key (snap_Peers desired)) o1" "iter_order ob o2"
    and "iter_order (peers_by_key (snap_Peers desired)) o1'" "iter_order ob o2'"
  shows "Diff o1' o2' desired ob = Inr xs"
proof -
  from assms(1) obtain ys where ys: "Diff o1' o2' desired ob = Inr ys"
    by (auto simp: Diff_def Let_def split: option.splits)
  note d = Diff_Inr [OF assms(1-4)] and d' = Diff_Inr [OF ys assms(2,5,6)]
  have "xs = ys"
  proof (rule sorted_map_inj_unique [where f = op_order])
    show "inj_on op_order (set xs)"
      using needed_ops_unique [OF keyed_peers_by_key assms(2)] by (auto simp: inj_on_def d(2) op_order_inj)
  qed (use d d' in \<open>auto simp: distinct_map\<close>)
  with ys show ?thesis by simp
qed

section \<open>Sample snapshots\<close>

definition sample_peer :: "char \<Rightarrow> string \<Rightarrow> string \<Rightarrow> Peer" where
  "sample_peer c v4 v6 = \<lparr>peer_PublicKey = encode64 StdEncoding (replicate 32 c),
     peer_IPv4 = v4, peer_IPv6 = v6\<rparr>"

lemma sample_peer_simps [simp]:
  "peer_PublicKey (sample_peer c v4 v6) = encode64 StdEncoding (replicate 32 c)"
  "peer_IPv4 (sample_peer c v4 v6) = v4" "peer_IPv6 (sample_peer c v4 v6) = v6"
  by (simp_all add: sample_peer_def)

lemma sample_peer_valid:
  "valid_peer (sample_peer c v4 v6) \<longleftrightarrow> validHostPrefix v4 4 \<and> validHostPrefix v6 6"
  by (auto simp: valid_peer_def validPublicKey_iff intro!: exI [of _ "replicate 32 c"])

lemma sample_key_eq:
  "encode64 StdEncoding (replicate 32 c) = encode64 StdEncoding (replicate 32 d) \<longleftrightarrow> c = d"
  by (simp add: std.enc_inj replicate_eq_replicate)

lemma sample_prefixes:
  "validHostPrefix ''10.0.0.2/32'' 4" "validHostPrefix ''10.0.0.3/32'' 4"
  "validHostPrefix ''fd00::2/128'' 6" "validHostPrefix ''fd00::3/128'' 6"
  "validHostPrefix ''FD00:0::2/128'' 6"
  by code_simp+

definition sample_snapshot :: Snapshot where
  "sample_snapshot = \<lparr>snap_GatewayID = ''gw'', snap_Generation = 7, snap_ExpiresAt = 1000,
     snap_Peers = [sample_peer CHR ''a'' ''10.0.0.2/32'' ''fd00::2/128'',
                   sample_peer CHR ''b'' ''10.0.0.3/32'' ''fd00::3/128''],
     snap_Signature = ''''\<rparr>"

lemma sample_snapshot_valid: "t < 1000 \<Longrightarrow> Validate sample_snapshot t ''gw'' = None"
  by (simp add: Validate_None sample_snapshot_def valid_peers_def sample_peer_valid sample_prefixes
      sample_key_eq maxPeersPerSnapshot_def)

lemma sample_snapshot_gateway [simp]: "snap_GatewayID sample_snapshot = ''gw''"
  by (simp add: sample_snapshot_def)

text \<open>What the gateway serves before: the first peer under another address, and a third one.\<close>

definition sample_observed :: "string \<rightharpoonup> Peer" where
  "sample_observed = peers_by_key [sample_peer CHR ''a'' ''10.0.0.3/32'' ''fd00::3/128'',
     sample_peer CHR ''c'' ''10.0.0.2/32'' ''fd00::2/128'']"

abbreviation sample_key :: "char \<Rightarrow> string" where
  "sample_key c \<equiv> encode64 StdEncoding (replicate 32 c)"

lemma sample_peers_by_key:
  "peers_by_key (snap_Peers sample_snapshot) =
     [sample_key CHR ''a'' \<mapsto> sample_peer CHR ''a'' ''10.0.0.2/32'' ''fd00::2/128'',
      sample_key CHR ''b'' \<mapsto> sample_peer CHR ''b'' ''10.0.0.3/32'' ''fd00::3/128'']"
  by (simp add: peers_by_key_def sample_snapshot_def)

lemma sample_observed_map:
  "sample_observed =
     [sample_key CHR ''a'' \<mapsto> sample_peer CHR ''a'' ''10.0.0.3/32'' ''fd00::3/128'',
      sample_key CHR ''c'' \<mapsto> sample_peer CHR ''c'' ''10.0.0.2/32'' ''fd00::2/128'']"
  by (simp add: peers_by_key_def sample_observed_def)

lemma sample_orders:
  "iter_order (peers_by_key (snap_Peers sample_snapshot)) [sample_key CHR ''b'', sample_key CHR ''a'']"
  "iter_order (peers_by_key (snap_Peers sample_snapshot)) [sample_key CHR ''a'', sample_key CHR ''b'']"
  "iter_order sample_observed [sample_key CHR ''a'', sample_key CHR ''c'']"
  unfolding sample_peers_by_key sample_observed_map by (auto simp: iter_order_def sample_key_eq)

definition sample_ops :: "Operation list" where
  "sample_ops =
     [\<lparr>op_Kind = OperationRemove, op_Peer = no_peer\<lparr>peer_PublicKey := sample_key CHR ''c''\<rparr>\<rparr>,
      \<lparr>op_Kind = OperationUpdate, op_Peer = sample_peer CHR ''a'' ''10.0.0.2/32'' ''fd00::2/128''\<rparr>,
      \<lparr>op_Kind = OperationAdd, op_Peer = sample_peer CHR ''b'' ''10.0.0.3/32'' ''fd00::3/128''\<rparr>]"

lemma sample_ops_sorted: "sorted (map op_order sample_ops)"
proof -
  have "sample_key CHR ''c'' < sample_key CHR ''a''" "sample_key CHR ''a'' < sample_key CHR ''b''"
    by code_simp+
  then show ?thesis by (auto simp: sample_ops_def op_order_def no_peer_def)
qed

lemma sample_diff:
  "Diff [sample_key CHR ''b'', sample_key CHR ''a''] [sample_key CHR ''a'', sample_key CHR ''c'']
     sample_snapshot sample_observed = Inr sample_ops"
proof -
  obtain xs where xs: "Diff [sample_key CHR ''b'', sample_key CHR ''a'']
      [sample_key CHR ''a'', sample_key CHR ''c''] sample_snapshot sample_observed = Inr xs"
    using sample_snapshot_valid [of 0] by (simp add: Diff_def Let_def sample_snapshot_gateway)
  have k: "keyed sample_observed" by (simp add: sample_observed_def)
  note d = Diff_Inr [OF xs k sample_orders(1,3)]
  have "set (concat (map (diff_desired (peers_by_key (snap_Peers sample_snapshot)) sample_observed)
        [sample_key CHR ''b'', sample_key CHR ''a''])
      @ concat (map (diff_observed (peers_by_key (snap_Peers sample_snapshot)) sample_observed)
        [sample_key CHR ''a'', sample_key CHR ''c''])) = set sample_ops"
    by (auto simp: diff_desired_def diff_observed_def sample_peers_by_key sample_observed_map
        sample_key_eq sample_ops_def)
  then have "set xs = set sample_ops"
    using diff_list_set [OF sample_orders(1,3)] d(2) by simp
  moreover have "inj_on op_order (set xs)"
    using needed_ops_unique [OF keyed_peers_by_key k] by (auto simp: inj_on_def d(2) op_order_inj)
  moreover have "distinct sample_ops" by (simp add: sample_ops_def)
  ultimately have "xs = sample_ops"
    using d sample_ops_sorted by (intro sorted_map_inj_unique [where f = op_order]) (auto simp: distinct_map)
  with xs show ?thesis by simp
qed

section \<open>Properties\<close>

text \<open>
  C30: \<open>Validate\<close> accepts exactly the snapshots made for this gateway, with a positive
  generation, not expired, of at most 100000 peers whose keys are Base64 texts of 32 bytes,
  whose addresses are IPv4 and IPv6 host prefixes, and no two of which share a key, an IPv4
  text or an IPv6 text; everything else is \<open>ErrInvalidSnapshot\<close>.
\<close>

theorem snapshot_validation_exact:
  "Validate s now gatewayID =
     (if gatewayID \<noteq> '''' \<and> snap_GatewayID s = gatewayID \<and> 0 < snap_Generation s
         \<and> now < snap_ExpiresAt s \<and> length (snap_Peers s) \<le> 100000
         \<and> (\<forall>p\<in>set (snap_Peers s). (\<exists>k. length k = 32 \<and> peer_PublicKey p = encode64 StdEncoding k)
              \<and> (\<exists>w. parsePrefix (peer_IPv4 p) = Some \<lparr>prefix_addr = V4 w, prefix_bits = 32\<rparr>)
              \<and> (\<exists>w. parsePrefix (peer_IPv6 p) = Some \<lparr>prefix_addr = V6 w, prefix_bits = 128\<rparr>))
         \<and> distinct (map peer_PublicKey (snap_Peers s))
         \<and> distinct (map peer_IPv4 (snap_Peers s)) \<and> distinct (map peer_IPv6 (snap_Peers s))
      then None else Some ErrInvalidSnapshot)"
proof -
  have v: "valid_peer p \<longleftrightarrow> (\<exists>k. length k = 32 \<and> peer_PublicKey p = encode64 StdEncoding k)
      \<and> (\<exists>w. parsePrefix (peer_IPv4 p) = Some \<lparr>prefix_addr = V4 w, prefix_bits = 32\<rparr>)
      \<and> (\<exists>w. parsePrefix (peer_IPv6 p) = Some \<lparr>prefix_addr = V6 w, prefix_bits = 128\<rparr>)" for p
    by (simp add: valid_peer_def validPublicKey_iff validHostPrefix_4 validHostPrefix_6)
  show ?thesis
    using Validate_None [of s now gatewayID] Validate_error [of s now gatewayID]
    unfolding valid_peers_def maxPeersPerSnapshot_def v
    by (cases "Validate s now gatewayID") auto
qed

theorem snapshot_validation_exact_witness:
  "Validate sample_snapshot 999 ''gw'' = None \<and> Validate sample_snapshot 1000 ''gw'' = Some ErrInvalidSnapshot"
  using snapshot_validation_exact [of sample_snapshot 1000 "''gw''"] sample_snapshot_valid [of 999]
  by (simp add: sample_snapshot_def)

text \<open>
  C31: A snapshot signed with the key of the control plane verifies at the gateway it was made
  for, until it expires, and the signature covers every field: what verifies passed the
  validation and carries a signature of the marshalled fields themselves.
\<close>

theorem signed_snapshot_verifies:
  assumes "ed25519_sound ed_sign ed_verify privateKey publicKey"
    and "signingBytes marshal s = Inr content" "Validate s now gatewayID = None"
  shows "\<exists>t. Sign marshal ed_sign s privateKey = Inr t
     \<and> t = s\<lparr>snap_Signature := ed_sign privateKey content\<rparr>
     \<and> Verify marshal ed_verify t now gatewayID publicKey = None
     \<and> (\<forall>later u. Verify marshal ed_verify u later gatewayID publicKey = None \<longrightarrow>
          Validate u later gatewayID = None \<and> later < snap_ExpiresAt u
          \<and> (\<exists>bytes. signingBytes marshal u = Inr bytes \<and> ed_verify publicKey bytes (snap_Signature u)))"
proof -
  have "length privateKey = 64" using assms(1) by (simp add: ed25519_sound_def)
  then have s: "Sign marshal ed_sign s privateKey = Inr (s\<lparr>snap_Signature := ed_sign privateKey content\<rparr>)"
    using assms(2) by (simp add: Sign_def Let_def signingBytes_def)
  with Sign_Verify [OF assms(1,3) s] show ?thesis by (auto simp: Verify_None Validate_None)
qed

text \<open>Stand-ins for the witness: a signature that is the first bytes of the content.\<close>

definition toy_marshal :: "Snapshot \<Rightarrow> string result" where
  "toy_marshal s = Inr (snap_GatewayID s)"

definition toy_sign :: "string \<Rightarrow> string \<Rightarrow> string" where
  "toy_sign privateKey m = take 64 (m @ replicate 64 CHR 0x00)"

definition toy_verify :: "string \<Rightarrow> string \<Rightarrow> string \<Rightarrow> bool" where
  "toy_verify publicKey m signature \<longleftrightarrow> signature = take 64 (m @ replicate 64 CHR 0x00)"

lemma toy_ed25519: "ed25519_sound toy_sign toy_verify (replicate 64 CHR ''k'') (replicate 32 CHR ''p'')"
  by (auto simp: ed25519_sound_def toy_sign_def toy_verify_def)

theorem signed_snapshot_verifies_witness:
  "\<exists>t. Sign toy_marshal toy_sign sample_snapshot (replicate 64 CHR ''k'') = Inr t
     \<and> Verify toy_marshal toy_verify t 999 ''gw'' (replicate 32 CHR ''p'') = None"
  using signed_snapshot_verifies [OF toy_ed25519, of toy_marshal sample_snapshot "''gw''" 999 "''gw''"]
    sample_snapshot_valid [of 999]
  by (auto simp: signingBytes_def toy_marshal_def sample_snapshot_def)

text \<open>
  C32: The difference is right: applied to the observed peers it gives the desired peers,
  exactly, whatever was observed.
\<close>

theorem diff_reaches_desired:
  assumes "Diff order1 order2 desired observed = Inr ops"
    and "\<And>k p. observed k = Some p \<Longrightarrow> peer_PublicKey p = k"
    and "iter_order (peers_by_key (snap_Peers desired)) order1" "iter_order observed order2"
  shows "apply_ops ops observed = peers_by_key (snap_Peers desired)"
  using Diff_apply [OF assms(1) _ assms(3,4)] assms(2) by (simp add: keyed_def)

theorem diff_reaches_desired_witness:
  "apply_ops sample_ops sample_observed = peers_by_key (snap_Peers sample_snapshot)"
proof -
  have "keyed sample_observed" by (simp add: sample_observed_def)
  from diff_reaches_desired [OF sample_diff keyedD [OF this] sample_orders(1,3)]
  show ?thesis by simp
qed

text \<open>
  The difference is deterministic and minimal. The order in which Go ranges over the two
  maps does not show in the result; the operations come in key order with at most one for a
  key; a peer already as desired has none, and an operation says what its key needs: an
  addition for a peer not observed, an update for one observed otherwise, a removal for one
  no longer desired.
\<close>

theorem diff_deterministic_minimal:
  assumes "Diff order1 order2 desired observed = Inr ops"
    and "\<And>k p. observed k = Some p \<Longrightarrow> peer_PublicKey p = k"
    and "iter_order (peers_by_key (snap_Peers desired)) order1" "iter_order observed order2"
    and "iter_order (peers_by_key (snap_Peers desired)) order1'" "iter_order observed order2'"
  shows "Diff order1' order2' desired observed = Inr ops
     \<and> sorted (map op_order ops) \<and> distinct (map op_key ops)
     \<and> (\<forall>x. x \<in> set ops \<longleftrightarrow>
          (case (peers_by_key (snap_Peers desired) (op_key x), observed (op_key x)) of
             (Some p, None) \<Rightarrow> x = \<lparr>op_Kind = OperationAdd, op_Peer = p\<rparr>
           | (Some p, Some q) \<Rightarrow> p \<noteq> q \<and> x = \<lparr>op_Kind = OperationUpdate, op_Peer = p\<rparr>
           | (None, Some q) \<Rightarrow>
               x = \<lparr>op_Kind = OperationRemove, op_Peer = no_peer\<lparr>peer_PublicKey := op_key x\<rparr>\<rparr>
           | (None, None) \<Rightarrow> False))"
proof -
  have k: "keyed observed" using assms(2) by (simp add: keyed_def)
  note d = Diff_Inr [OF assms(1) k assms(3,4)]
  have "x \<in> set ops \<longleftrightarrow> x \<in> set (needed_op (peers_by_key (snap_Peers desired)) observed (op_key x))" for x
    using needed_op_key [OF keyed_peers_by_key k] unfolding d(2) needed_ops_def mem_Collect_eq by blast
  then have "x \<in> set ops \<longleftrightarrow> (case (peers_by_key (snap_Peers desired) (op_key x), observed (op_key x)) of
             (Some p, None) \<Rightarrow> x = \<lparr>op_Kind = OperationAdd, op_Peer = p\<rparr>
           | (Some p, Some q) \<Rightarrow> p \<noteq> q \<and> x = \<lparr>op_Kind = OperationUpdate, op_Peer = p\<rparr>
           | (None, Some q) \<Rightarrow>
               x = \<lparr>op_Kind = OperationRemove, op_Peer = no_peer\<lparr>peer_PublicKey := op_key x\<rparr>\<rparr>
           | (None, None) \<Rightarrow> False)" for x
    unfolding needed_op_cases [OF keyed_peers_by_key k] by (auto split: option.splits)
  with d Diff_order [OF assms(1) k assms(3-6)] show ?thesis by blast
qed

theorem diff_deterministic_minimal_witness:
  "Diff [sample_key CHR ''a'', sample_key CHR ''b''] [sample_key CHR ''a'', sample_key CHR ''c'']
     sample_snapshot sample_observed = Inr sample_ops"
proof -
  have "keyed sample_observed" by (simp add: sample_observed_def)
  from diff_deterministic_minimal [OF sample_diff keyedD [OF this] sample_orders(1,3,2,3)]
  show ?thesis by simp
qed

text \<open>
  Uniqueness of addresses is checked on their texts. For IPv6 an address has several
  texts, so \<open>Validate\<close> accepts a snapshot that gives one IPv6 address to two peers.
\<close>

theorem validation_misses_ipv6_spelling:
  "\<exists>s p q. Validate s 0 ''gw'' = None \<and> p \<in> set (snap_Peers s) \<and> q \<in> set (snap_Peers s)
     \<and> peer_PublicKey p \<noteq> peer_PublicKey q \<and> parsePrefix (peer_IPv6 p) \<noteq> None
     \<and> parsePrefix (peer_IPv6 p) = parsePrefix (peer_IPv6 q)"
proof -
  let ?p = "sample_peer CHR ''a'' ''10.0.0.2/32'' ''fd00::2/128''"
  let ?q = "sample_peer CHR ''b'' ''10.0.0.3/32'' ''FD00:0::2/128''"
  let ?s = "sample_snapshot\<lparr>snap_Peers := [?p, ?q]\<rparr>"
  have "Validate ?s 0 ''gw'' = None"
    by (simp add: Validate_None sample_snapshot_def valid_peers_def sample_peer_valid sample_prefixes
        sample_key_eq maxPeersPerSnapshot_def)
  moreover have "parsePrefix ''fd00::2/128'' = parsePrefix ''FD00:0::2/128''"
    "parsePrefix ''fd00::2/128'' \<noteq> None"
    by code_simp+
  ultimately show ?thesis
    by (intro exI [of _ ?s] exI [of _ ?p] exI [of _ ?q]) (simp add: sample_key_eq)
qed

end
