(* ===== verification/Transport.thy ===== *)
theory Transport
  imports Go_Strings Snapshot
begin

text \<open>
  The client side of snapshot delivery: \<^verbatim>\<open>internal/agent/transport.go\<close>, the HTTPS source of
  deliveries, and \<^verbatim>\<open>internal/agent/tls.go\<close>, the TLS configurations of both sides. The HTTP
  client is an argument that acts on the state \<open>'n\<close> of the network; parsing and printing of
  URLs, JSON texts, times and certificates are arguments as well. \<open>delivery_source\<close> is the
  interface \<^verbatim>\<open>DeliverySource\<close> of the worker with what it promises about a claimed delivery;
  it is interpreted on \<open>http_source_ops\<close>.
\<close>

record Delivery =
  del_ID :: string
  del_Generation :: int
  del_Payload :: string
  del_Signature :: string

record url =
  url_Scheme :: string
  url_Host :: string
  url_Path :: string
  url_RawQuery :: string
  url_Fragment :: string

datatype http_method = MethodGet | MethodPost

record http_request =
  rq_Method :: http_method
  rq_URL :: string
  rq_ContentType :: "string option"
  rq_Body :: string

record http_response =
  rs_StatusCode :: nat
  rs_Status :: string
  rs_Body :: string

text \<open>The bodies posted, encoded by \<^verbatim>\<open>json.Marshal\<close>.\<close>

datatype post_body =
    AckBody int
  | RetryBody string string

record 'n http_env =
  he_Do :: "http_request \<Rightarrow> 'n \<Rightarrow> http_response result \<times> 'n"
  he_urlString :: "url \<Rightarrow> string"
  he_checkRequest :: "http_request \<Rightarrow> error option"
  he_marshal :: "post_body \<Rightarrow> string result"
  he_unmarshal :: "string \<Rightarrow> Delivery result"
  he_formatTime :: "time \<Rightarrow> string"

record HTTPSource =
  hs_baseURL :: url
  hs_gatewayID :: string

section \<open>URLs\<close>

text \<open>\<^verbatim>\<open>url.PathEscape\<close>: unreserved characters and \<^verbatim>\<open>$&+=:@\<close> are kept, others become \<^verbatim>\<open>%XX\<close>.\<close>

definition upper_hex :: "nat \<Rightarrow> char" where
  "upper_hex n = (if n < 10 then char_of (48 + n) else char_of (55 + n))"

definition segment_char :: "char \<Rightarrow> bool" where
  "segment_char c \<longleftrightarrow> (CHR ''a'' \<le> c \<and> c \<le> CHR ''z'') \<or> (CHR ''A'' \<le> c \<and> c \<le> CHR ''Z'')
     \<or> (CHR ''0'' \<le> c \<and> c \<le> CHR ''9'') \<or> c \<in> set ''-_.~$&+=:@''"

definition pathEscape :: "string \<Rightarrow> string" where
  "pathEscape s = concat (map (\<lambda>c. if segment_char c then [c]
     else [CHR ''%'', upper_hex (of_char c div 16), upper_hex (of_char c mod 16)]) s)"

text \<open>\<^verbatim>\<open>strings.TrimRight(s, "/")\<close>\<close>

definition trimRightSlash :: "string \<Rightarrow> string" where
  "trimRightSlash s = rev (dropWhile (\<lambda>c. c = CHR ''/'') (rev s))"

section \<open>The source\<close>

definition NewHTTPSource :: "(string \<Rightarrow> url option) \<Rightarrow> string \<Rightarrow> string \<Rightarrow> HTTPSource result" where
  "NewHTTPSource parseURL rawURL gatewayID =
     (case parseURL (trimSpace rawURL) of
        None \<Rightarrow> Inl ErrInvalidTransport
      | Some parsed \<Rightarrow>
          if url_Scheme parsed \<noteq> ''https'' \<or> url_Host parsed = '''' \<or> url_RawQuery parsed \<noteq> ''''
             \<or> url_Fragment parsed \<noteq> '''' \<or> gatewayID = '''' \<or> containsAny gatewayID ''/?#''
          then Inl ErrInvalidTransport
          else Inr \<lparr>hs_baseURL = parsed, hs_gatewayID = gatewayID\<rparr>)"

definition endpoint :: "'n http_env \<Rightarrow> HTTPSource \<Rightarrow> string \<Rightarrow> string" where
  "endpoint env s suffix =
     he_urlString env ((hs_baseURL s)\<lparr>url_Path :=
        trimRightSlash (url_Path (hs_baseURL s)) @ ''/v1/agent/gateways/''
        @ pathEscape (hs_gatewayID s) @ suffix\<rparr>)"

definition statusError :: "http_response \<Rightarrow> error" where
  "statusError response = ErrText (''agent transport status '' @ rs_Status response
     @ '' ('' @ itoa (rs_StatusCode response) @ '')'')"

text \<open>The body is read through a limit of 4 MiB.\<close>

definition decodeLimited :: "'n http_env \<Rightarrow> string \<Rightarrow> Delivery result" where
  "decodeLimited env body =
     (case he_unmarshal env (take (4 * 1024 * 1024) body) of
        Inl err \<Rightarrow> Inl (Wrapped ''decode transport response'' err)
      | Inr delivery \<Rightarrow> Inr delivery)"

definition Claim :: "'n http_env \<Rightarrow> HTTPSource \<Rightarrow> 'n \<Rightarrow> Delivery result \<times> 'n" where
  "Claim env s n =
     (let request = \<lparr>rq_Method = MethodGet, rq_URL = endpoint env s ''/snapshots/next'',
            rq_ContentType = None, rq_Body = ''''\<rparr>
      in case he_checkRequest env request of
        Some err \<Rightarrow> (Inl err, n)
      | None \<Rightarrow>
          (case he_Do env request n of
             (Inl err, n1) \<Rightarrow> (Inl err, n1)
           | (Inr response, n1) \<Rightarrow>
               if rs_StatusCode response = 204 then (Inl ErrNoDelivery, n1)
               else if rs_StatusCode response \<noteq> 200 then (Inl (statusError response), n1)
               else case decodeLimited env (rs_Body response) of
                 Inl err \<Rightarrow> (Inl err, n1)
               | Inr delivery \<Rightarrow>
                   if del_ID delivery = '''' \<or> del_Generation delivery \<le> 0
                      \<or> length (del_Payload delivery) = 0 \<or> length (del_Signature delivery) \<noteq> 64
                   then (Inl ErrInvalidTransport, n1)
                   else (Inr delivery, n1)))"

definition post :: "'n http_env \<Rightarrow> HTTPSource \<Rightarrow> string \<Rightarrow> post_body \<Rightarrow> 'n \<Rightarrow> error option \<times> 'n" where
  "post env s suffix body n =
     (case he_marshal env body of
        Inl err \<Rightarrow> (Some err, n)
      | Inr encoded \<Rightarrow>
          let request = \<lparr>rq_Method = MethodPost, rq_URL = endpoint env s suffix,
                rq_ContentType = Some ''application/json'', rq_Body = encoded\<rparr>
          in case he_checkRequest env request of
            Some err \<Rightarrow> (Some err, n)
          | None \<Rightarrow>
              (case he_Do env request n of
                 (Inl err, n1) \<Rightarrow> (Some err, n1)
               | (Inr response, n1) \<Rightarrow>
                   if rs_StatusCode response < 200 \<or> rs_StatusCode response \<ge> 300
                   then (Some (statusError response), n1)
                   else (None, n1)))"

definition Ack :: "'n http_env \<Rightarrow> HTTPSource \<Rightarrow> string \<Rightarrow> int \<Rightarrow> 'n \<Rightarrow> error option \<times> 'n" where
  "Ack env s deliveryID generation n =
     post env s (''/snapshots/'' @ pathEscape deliveryID @ ''/ack'') (AckBody generation) n"

definition Retry :: "'n http_env \<Rightarrow> HTTPSource \<Rightarrow> string \<Rightarrow> time \<Rightarrow> string \<Rightarrow> 'n \<Rightarrow> error option \<times> 'n" where
  "Retry env s deliveryID retryAt reason n =
     (if time_is_zero retryAt \<or> deliveryID = '''' then (Some ErrInvalidTransport, n)
      else post env s (''/snapshots/'' @ pathEscape deliveryID @ ''/retry'')
             (RetryBody (he_formatTime env retryAt) reason) n)"

section \<open>TLS\<close>

record TLSFiles =
  CertificateFile :: string
  PrivateKeyFile :: string
  CAFile :: string
  ServerName :: string

datatype client_auth = NoClientCert | RequireAndVerifyClientCert

record ('c, 'p) tls_config =
  tls_MinVersion :: nat
  tls_Certificates :: "'c list"
  tls_RootCAs :: "'p option"
  tls_ClientCAs :: "'p option"
  tls_ServerName :: string
  tls_ClientAuth :: client_auth
  tls_InsecureSkipVerify :: bool

definition VersionTLS13 :: nat where "VersionTLS13 = 0x0304"

record ('c, 'p) tls_env =
  te_LoadX509KeyPair :: "string \<Rightarrow> string \<Rightarrow> 'c result"
  te_ReadFile :: "string \<Rightarrow> string result"
  te_CertPool :: "string \<Rightarrow> 'p option"

text \<open>\<open>te_CertPool\<close> is a new pool with the PEM certificates of a text, or \<open>None\<close> when
\<^verbatim>\<open>AppendCertsFromPEM\<close> finds none.\<close>

definition loadTLSMaterial :: "('c, 'p) tls_env \<Rightarrow> TLSFiles \<Rightarrow> ('c \<times> 'p) result" where
  "loadTLSMaterial env files =
     (if CertificateFile files = '''' \<or> PrivateKeyFile files = '''' \<or> CAFile files = ''''
      then Inl ErrInvalidTLSConfiguration
      else case te_LoadX509KeyPair env (CertificateFile files) (PrivateKeyFile files) of
        Inl err \<Rightarrow> Inl (Wrapped ''load agent certificate'' err)
      | Inr certificate \<Rightarrow>
          (case te_ReadFile env (CAFile files) of
             Inl err \<Rightarrow> Inl (Wrapped ''read agent CA'' err)
           | Inr caBytes \<Rightarrow>
               (case te_CertPool env caBytes of
                  None \<Rightarrow> Inl ErrInvalidTLSConfiguration
                | Some roots \<Rightarrow> Inr (certificate, roots))))"

definition ClientTLSConfig :: "('c, 'p) tls_env \<Rightarrow> TLSFiles \<Rightarrow> ('c, 'p) tls_config result" where
  "ClientTLSConfig env files =
     (case loadTLSMaterial env files of
        Inl err \<Rightarrow> Inl err
      | Inr (certificate, roots) \<Rightarrow>
          if ServerName files = '''' then Inl ErrInvalidTLSConfiguration
          else Inr \<lparr>tls_MinVersion = VersionTLS13, tls_Certificates = [certificate],
                  tls_RootCAs = Some roots, tls_ClientCAs = None, tls_ServerName = ServerName files,
                  tls_ClientAuth = NoClientCert, tls_InsecureSkipVerify = False\<rparr>)"

definition ServerTLSConfig :: "('c, 'p) tls_env \<Rightarrow> TLSFiles \<Rightarrow> ('c, 'p) tls_config result" where
  "ServerTLSConfig env files =
     (case loadTLSMaterial env files of
        Inl err \<Rightarrow> Inl err
      | Inr (certificate, roots) \<Rightarrow>
          Inr \<lparr>tls_MinVersion = VersionTLS13, tls_Certificates = [certificate],
             tls_RootCAs = None, tls_ClientCAs = Some roots, tls_ServerName = '''',
             tls_ClientAuth = RequireAndVerifyClientCert, tls_InsecureSkipVerify = False\<rparr>)"

section \<open>The interface of the worker\<close>

record 'n source_ops =
  src_Claim :: "'n \<Rightarrow> Delivery result \<times> 'n"
  src_Ack :: "string \<Rightarrow> int \<Rightarrow> 'n \<Rightarrow> error option \<times> 'n"
  src_Retry :: "string \<Rightarrow> time \<Rightarrow> string \<Rightarrow> 'n \<Rightarrow> error option \<times> 'n"

definition http_source_ops :: "'n http_env \<Rightarrow> HTTPSource \<Rightarrow> 'n source_ops" where
  "http_source_ops env s =
     \<lparr>src_Claim = Claim env s, src_Ack = Ack env s, src_Retry = Retry env s\<rparr>"

locale delivery_source =
  fixes source :: "'n source_ops"
  assumes claim_ok: "src_Claim source n = (Inr d, n') \<Longrightarrow>
      del_ID d \<noteq> '''' \<and> 0 < del_Generation d \<and> del_Payload d \<noteq> [] \<and> length (del_Signature d) = 64"
    and retry_zero: "src_Retry source i 0 reason n = (Some ErrInvalidTransport, n)"

interpretation http_source: delivery_source "http_source_ops env s"
  by unfold_locales
    (auto simp: http_source_ops_def Claim_def Let_def Retry_def time_is_zero_def
      split: option.splits sum.splits prod.splits if_splits)

section \<open>Properties of the URLs and of TLS\<close>

lemma set_pathEscape: "set (pathEscape s) \<subseteq> {c. segment_char c} \<union> {CHR ''%''} \<union> upper_hex ` {..<16}"
proof -
  have "(of_char c :: nat) div 16 < 16" for c :: char
    using of_char_256 [of c] by (simp add: less_mult_imp_div_less)
  then show ?thesis by (auto simp: pathEscape_def split: if_splits)
qed

lemma pathEscape_fixed: "list_all segment_char s \<Longrightarrow> pathEscape s = s"
  by (induction s) (auto simp: pathEscape_def)

text \<open>An escaped identifier is one path segment, and different identifiers stay different.\<close>

lemma upper_hex_val: "n < 16 \<Longrightarrow> upper_hex n \<in> set ''0123456789ABCDEF''"
proof -
  assume n: "n < 16"
  have "list_all (\<lambda>n. upper_hex n \<in> set ''0123456789ABCDEF'') [0..<16]" by code_simp
  from list_all_uptD [OF this, of n] n show ?thesis by simp
qed

lemma upper_hex_inj: "m < 16 \<Longrightarrow> n < 16 \<Longrightarrow> upper_hex m = upper_hex n \<Longrightarrow> m = n"
proof -
  assume a: "m < 16" "n < 16" "upper_hex m = upper_hex n"
  have "list_all (\<lambda>m. list_all (\<lambda>n. upper_hex m = upper_hex n \<longrightarrow> m = n) [0..<16]) [0..<16]"
    by code_simp
  from list_all_uptD [OF list_all_uptD [OF this, of m], of n] a show ?thesis by simp
qed

lemma escape_head:
  assumes "pathEscape (c # s) = pathEscape (d # t)"
  shows "c = d \<and> pathEscape s = pathEscape t"
proof -
  have b: "(of_char x :: nat) div 16 < 16" "(of_char x :: nat) mod 16 < 16" for x :: char
    using of_char_256 [of x] by (simp_all add: less_mult_imp_div_less)
  have p: "\<not> segment_char CHR ''%''" by code_simp
  show ?thesis
  proof (cases "segment_char c \<or> segment_char d")
    case True
    with assms p show ?thesis by (auto simp: pathEscape_def split: if_splits)
  next
    case False
    with assms have "upper_hex (of_char c div 16) = upper_hex (of_char d div 16)"
      "upper_hex (of_char c mod 16) = upper_hex (of_char d mod 16)"
      and r: "pathEscape s = pathEscape t"
      by (simp_all add: pathEscape_def)
    then have "(of_char c :: nat) div 16 = of_char d div 16" "(of_char c :: nat) mod 16 = of_char d mod 16"
      using upper_hex_inj b by blast+
    then have "(of_char c :: nat) = of_char d" by (metis div_mult_mod_eq)
    with r show ?thesis by (simp add: of_char_eq_iff)
  qed
qed

lemma escape_empty: "pathEscape s = [] \<longleftrightarrow> s = []"
  by (cases s) (auto simp: pathEscape_def)

lemma pathEscape_inj: "pathEscape s = pathEscape t \<Longrightarrow> s = t"
proof (induction s arbitrary: t)
  case Nil
  then show ?case using escape_empty [of t] by (simp add: pathEscape_def)
next
  case (Cons c s)
  then obtain d t' where t: "t = d # t'" using escape_empty by (cases t) (auto simp: pathEscape_def split: if_splits)
  with Cons escape_head show ?case by blast
qed

section \<open>Properties\<close>

text \<open>
  Whatever identifiers the agent is given, they stay one segment of the request path: the
  escaped text holds no slash, question mark or number sign, and two different identifiers
  never address the same resource.
\<close>

theorem escaped_id_is_one_segment:
  "CHR ''/'' \<notin> set (pathEscape s) \<and> CHR ''?'' \<notin> set (pathEscape s) \<and> CHR ''#'' \<notin> set (pathEscape s)
   \<and> (pathEscape s = pathEscape t \<longleftrightarrow> s = t)"
proof -
  have u: "upper_hex n \<in> set ''0123456789ABCDEF''" if "n < 16" for n
    by (rule upper_hex_val [OF that])
  have s: "set (pathEscape s) \<subseteq> {c. segment_char c} \<union> {CHR ''%''} \<union> set ''0123456789ABCDEF''"
    using set_pathEscape [of s] u by blast
  have n: "\<not> segment_char CHR ''/''" "\<not> segment_char CHR ''?''" "\<not> segment_char CHR ''#''"
    by code_simp+
  from s n show ?thesis using pathEscape_inj by auto
qed

text \<open>
  A claim gives the worker only a complete delivery: it has an identifier, a positive
  generation, a payload and a signature of 64 bytes, and it was decoded from at most 4 MiB of
  a response with status 200; a response with status 204 means there is none.
\<close>

theorem claim_is_complete:
  assumes "Claim env s n = (Inr d, n')"
  shows "del_ID d \<noteq> '''' \<and> 0 < del_Generation d \<and> del_Payload d \<noteq> [] \<and> length (del_Signature d) = 64
     \<and> (\<exists>request response. he_Do env request n = (Inr response, n') \<and> rq_Method request = MethodGet
          \<and> rq_URL request = endpoint env s ''/snapshots/next'' \<and> rs_StatusCode response = 200
          \<and> (\<exists>body. length body \<le> 4194304 \<and> body = take 4194304 (rs_Body response)
               \<and> he_unmarshal env body = Inr d))"
proof -
  have "del_ID d \<noteq> '''' \<and> 0 < del_Generation d \<and> del_Payload d \<noteq> [] \<and> length (del_Signature d) = 64"
    using http_source.claim_ok [where n = n and n' = n' and env = env and s = s] assms
    by (simp add: http_source_ops_def)
  moreover from assms obtain response where
    "he_Do env \<lparr>rq_Method = MethodGet, rq_URL = endpoint env s ''/snapshots/next'',
       rq_ContentType = None, rq_Body = ''''\<rparr> n = (Inr response, n')"
    "rs_StatusCode response = 200" "decodeLimited env (rs_Body response) = Inr d"
    by (auto simp: Claim_def Let_def split: option.splits prod.splits sum.splits if_splits)
  ultimately show ?thesis
    by (fastforce simp: decodeLimited_def split: sum.splits)
qed

definition sample_http :: "nat http_env" where
  "sample_http = \<lparr>he_Do = (\<lambda>rq n. (Inr \<lparr>rs_StatusCode = 200, rs_Status = ''200 OK'', rs_Body = ''body''\<rparr>, n + 1)),
     he_urlString = (\<lambda>u. url_Scheme u @ ''://'' @ url_Host u @ url_Path u),
     he_checkRequest = (\<lambda>_. None), he_marshal = (\<lambda>_. Inr ''{}''),
     he_unmarshal = (\<lambda>_. Inr \<lparr>del_ID = ''d1'', del_Generation = 3, del_Payload = ''{}'',
        del_Signature = replicate 64 CHR ''s''\<rparr>), he_formatTime = (\<lambda>_. ''now'')\<rparr>"

theorem claim_is_complete_witness:
  "\<exists>d n'. Claim sample_http \<lparr>hs_baseURL = \<lparr>url_Scheme = ''https'', url_Host = ''api'', url_Path = '''',
       url_RawQuery = '''', url_Fragment = ''''\<rparr>, hs_gatewayID = ''gw''\<rparr> 0 = (Inr d, n')
     \<and> length (del_Signature d) = 64"
proof -
  obtain d n' where c: "Claim sample_http \<lparr>hs_baseURL = \<lparr>url_Scheme = ''https'', url_Host = ''api'',
       url_Path = '''', url_RawQuery = '''', url_Fragment = ''''\<rparr>, hs_gatewayID = ''gw''\<rparr> 0 = (Inr d, n')"
    by (simp add: Claim_def sample_http_def decodeLimited_def Let_def)
  from claim_is_complete [OF c] c show ?thesis by blast
qed

text \<open>
  The TLS configurations are mutual and strict: TLS 1.3, an own certificate, the other side
  checked against the pool of the CA file; the client never skips the verification and
  always checks a server name, the server requires and verifies a client certificate.
\<close>

theorem tls_is_mutual:
  "(ClientTLSConfig env files = Inr c \<longrightarrow>
      tls_MinVersion c = 0x0304 \<and> \<not> tls_InsecureSkipVerify c \<and> tls_ServerName c \<noteq> ''''
      \<and> (\<exists>cert roots pem. loadTLSMaterial env files = Inr (cert, roots) \<and> tls_Certificates c = [cert]
           \<and> te_ReadFile env (CAFile files) = Inr pem \<and> te_CertPool env pem = Some roots
           \<and> tls_RootCAs c = Some roots))
   \<and> (ServerTLSConfig env files = Inr c \<longrightarrow>
      tls_MinVersion c = 0x0304 \<and> tls_ClientAuth c = RequireAndVerifyClientCert
      \<and> (\<exists>cert roots pem. loadTLSMaterial env files = Inr (cert, roots) \<and> tls_Certificates c = [cert]
           \<and> te_ReadFile env (CAFile files) = Inr pem \<and> te_CertPool env pem = Some roots
           \<and> tls_ClientCAs c = Some roots))"
proof -
  have "\<exists>pem. te_ReadFile env (CAFile files) = Inr pem \<and> te_CertPool env pem = Some roots"
    if "loadTLSMaterial env files = Inr (cert, roots)" for cert roots
    using that by (auto simp: loadTLSMaterial_def split: if_splits sum.splits option.splits)
  then show ?thesis
    by (auto simp: ClientTLSConfig_def ServerTLSConfig_def VersionTLS13_def
        split: sum.splits prod.splits if_splits)
qed

definition sample_tls :: "(string, string) tls_env" where
  "sample_tls = \<lparr>te_LoadX509KeyPair = (\<lambda>c k. Inr c), te_ReadFile = (\<lambda>f. Inr f),
     te_CertPool = (\<lambda>pem. Some pem)\<rparr>"

theorem tls_is_mutual_witness:
  "\<exists>c. ServerTLSConfig sample_tls \<lparr>CertificateFile = ''c'', PrivateKeyFile = ''k'', CAFile = ''ca'',
        ServerName = ''''\<rparr> = Inr c \<and> tls_ClientAuth c = RequireAndVerifyClientCert"
proof -
  obtain c where c: "ServerTLSConfig sample_tls \<lparr>CertificateFile = ''c'', PrivateKeyFile = ''k'',
      CAFile = ''ca'', ServerName = ''''\<rparr> = Inr c"
    by (simp add: ServerTLSConfig_def loadTLSMaterial_def sample_tls_def)
  from tls_is_mutual [of sample_tls _ c] c show ?thesis by blast
qed

end
