(* ===== verification/Httpapi.thy ===== *)
theory Httpapi
  imports Device_Interface Session Transport
begin

text \<open>
  The HTTP interface, \<^verbatim>\<open>internal/httpapi\<close>: the helpers that read and write JSON, the handlers
  for accounts, devices, regions and gateways (the routes of \<^verbatim>\<open>NewMux\<close> and the headers
  \<^verbatim>\<open>securityHeaders\<close> puts on every response are in \<open>Router\<close>). A handler gets the request and the writer and
  acts on the state \<open>'s\<close> of the services in an environment \<open>'e\<close>. The services are the
  interfaces of the code; parsing JSON is an argument (\<open>request_codec\<close>), a response body is
  kept as the value that is encoded.
\<close>

section \<open>Requests and responses\<close>

text \<open>
  \<open>sr_Path\<close> is the path of the request as it was sent, with its percent escapes, and
  \<open>sr_Header\<close> is empty for a header that is missing. \<open>tls_CommonNames\<close>: the subjects of \<^verbatim>\<open>r.TLS.PeerCertificates\<close>, which TLS has verified.
\<close>

record tls_conn =
  tls_CommonNames :: "string list"

record server_request =
  sr_Method :: string
  sr_Path :: string
  sr_Header :: "string \<Rightarrow> string"
  sr_Body :: string
  sr_TLS :: "tls_conn option"

datatype reply =
    RProblem string nat string
  | RText string
  | RStatus string
  | RUser string
  | RPair token_pair
  | RDevices "Device list"
  | RDevice Device
  | RConfiguration TunnelConfiguration
  | RRegions "Region list"
  | RDelivery Delivery

text \<open>
  A \<^verbatim>\<open>http.ResponseWriter\<close>: the first status sent fixes the status and the headers of the
  response; what is encoded later is appended to the body.
\<close>

record writer =
  w_Header :: "string \<rightharpoonup> string"
  w_Sent :: "(nat \<times> (string \<rightharpoonup> string)) option"
  w_Body :: "reply list"

definition new_writer :: writer where
  "new_writer = \<lparr>w_Header = Map.empty, w_Sent = None, w_Body = []\<rparr>"

definition header_set :: "string \<Rightarrow> string \<Rightarrow> writer \<Rightarrow> writer" where
  "header_set k v w = w\<lparr>w_Header := (w_Header w)(k \<mapsto> v)\<rparr>"

definition WriteHeader :: "nat \<Rightarrow> writer \<Rightarrow> writer" where
  "WriteHeader status w =
     (case w_Sent w of None \<Rightarrow> w\<lparr>w_Sent := Some (status, w_Header w)\<rparr> | Some _ \<Rightarrow> w)"

definition encode_reply :: "reply \<Rightarrow> writer \<Rightarrow> writer" where
  "encode_reply body w = (let w1 = WriteHeader 200 w in w1\<lparr>w_Body := w_Body w1 @ [body]\<rparr>)"

definition reply_status :: "writer \<Rightarrow> nat" where
  "reply_status w = (case w_Sent w of None \<Rightarrow> 200 | Some (status, _) \<Rightarrow> status)"

text \<open>\<^verbatim>\<open>http.StatusText\<close>, for the statuses of the program.\<close>

definition statusText :: "nat \<Rightarrow> string" where
  "statusText status =
     (if status = 400 then ''Bad Request'' else if status = 401 then ''Unauthorized''
      else if status = 403 then ''Forbidden'' else if status = 404 then ''Not Found''
      else if status = 405 then ''Method Not Allowed'' else if status = 409 then ''Conflict''
      else if status = 415 then ''Unsupported Media Type''
      else if status = 500 then ''Internal Server Error''
      else if status = 503 then ''Service Unavailable'' else '''')"

definition writeJSON :: "nat \<Rightarrow> reply \<Rightarrow> writer \<Rightarrow> writer" where
  "writeJSON status body w =
     encode_reply body (WriteHeader status (header_set ''Content-Type'' ''application/json'' w))"

definition writeProblem :: "nat \<Rightarrow> string \<Rightarrow> writer \<Rightarrow> writer" where
  "writeProblem status detail w =
     encode_reply (RProblem (statusText status) status detail)
       (WriteHeader status (header_set ''Content-Type'' ''application/problem+json'' w))"

section \<open>Reading requests\<close>

text \<open>
  A decoder gives the first JSON value of the right shape, without unknown fields, and the
  rest of the input; \<open>rc_eof\<close> says that decoding the rest ends with \<^verbatim>\<open>io.EOF\<close>.
\<close>

record request_codec =
  rc_credentials :: "string \<Rightarrow> ((string \<times> string) \<times> string) option"
  rc_refresh :: "string \<Rightarrow> (string \<times> string) option"
  rc_device :: "string \<Rightarrow> (RegisterDeviceRequest \<times> string) option"
  rc_region :: "string \<Rightarrow> (string \<times> string) option"
  rc_generation :: "string \<Rightarrow> (int \<times> string) option"
  rc_retry :: "string \<Rightarrow> ((time \<times> string) \<times> string) option"
  rc_eof :: "string \<Rightarrow> bool"
  rc_lower :: "string \<Rightarrow> string"

definition maxJSONBody :: nat where "maxJSONBody = 16 * 1024"

definition decodeJSON ::
  "request_codec \<Rightarrow> (string \<Rightarrow> ('v \<times> string) option) \<Rightarrow> server_request \<Rightarrow> writer \<Rightarrow> 'v option \<times> writer" where
  "decodeJSON rc dec r w =
     (if \<not> hasPrefix (toLower (rc_lower rc) (sr_Header r ''Content-Type'')) ''application/json''
      then (None, writeProblem 415 ''content type must be application/json'' w)
      else case dec (take maxJSONBody (sr_Body r)) of
        None \<Rightarrow> (None, writeProblem 400 ''invalid JSON body'' w)
      | Some (destination, rest) \<Rightarrow>
          if \<not> rc_eof rc rest then (None, writeProblem 400 ''request must contain one JSON object'' w)
          else (Some destination, w))"

definition bearerToken :: "string \<Rightarrow> string option" where
  "bearerToken value =
     (case stringsFields value of
        [scheme, token] \<Rightarrow> if equalFold scheme ''bearer'' \<and> token \<noteq> '''' then Some token else None
      | _ \<Rightarrow> None)"

section \<open>Accounts\<close>

record ('e, 's) auth_api =
  au_Register :: "'e \<Rightarrow> string \<Rightarrow> string \<Rightarrow> 's \<Rightarrow> string result \<times> 's"
  au_Login :: "'e \<Rightarrow> string \<Rightarrow> string \<Rightarrow> 's \<Rightarrow> token_pair result \<times> 's"
  au_Refresh :: "'e \<Rightarrow> string \<Rightarrow> 's \<Rightarrow> (token_pair \<times> string) result \<times> 's"
  au_Logout :: "'e \<Rightarrow> string \<Rightarrow> 's \<Rightarrow> 's"
  au_AuthenticateAccess :: "'e \<Rightarrow> string \<Rightarrow> 's \<Rightarrow> string result"

type_synonym 's handler = "server_request \<Rightarrow> writer \<Rightarrow> 's \<Rightarrow> writer \<times> 's"

definition AuthHandler_Register :: "('e, 's) auth_api \<Rightarrow> request_codec \<Rightarrow> 'e \<Rightarrow> 's handler" where
  "AuthHandler_Register service rc e r w s =
     (case decodeJSON rc (rc_credentials rc) r w of
        (None, w1) \<Rightarrow> (w1, s)
      | (Some (email, password), w1) \<Rightarrow>
          (case au_Register service e email password s of
             (Inl err, s1) \<Rightarrow>
               if errors_is err ErrConflict then (writeProblem 409 ''account already exists'' w1, s1)
               else (writeProblem 400 ''invalid registration'' w1, s1)
           | (Inr userID, s1) \<Rightarrow> (writeJSON 201 (RUser userID) w1, s1)))"

definition AuthHandler_Login :: "('e, 's) auth_api \<Rightarrow> request_codec \<Rightarrow> 'e \<Rightarrow> 's handler" where
  "AuthHandler_Login service rc e r w s =
     (case decodeJSON rc (rc_credentials rc) r w of
        (None, w1) \<Rightarrow> (w1, s)
      | (Some (email, password), w1) \<Rightarrow>
          (case au_Login service e email password s of
             (Inl err, s1) \<Rightarrow> (writeProblem 401 ''invalid credentials'' w1, s1)
           | (Inr pair, s1) \<Rightarrow> (writeJSON 200 (RPair pair) w1, s1)))"

definition AuthHandler_Refresh :: "('e, 's) auth_api \<Rightarrow> request_codec \<Rightarrow> 'e \<Rightarrow> 's handler" where
  "AuthHandler_Refresh service rc e r w s =
     (case decodeJSON rc (rc_refresh rc) r w of
        (None, w1) \<Rightarrow> (w1, s)
      | (Some refreshToken, w1) \<Rightarrow>
          (case au_Refresh service e refreshToken s of
             (Inl err, s1) \<Rightarrow> (writeProblem 401 ''invalid refresh token'' w1, s1)
           | (Inr (pair, _), s1) \<Rightarrow> (writeJSON 200 (RPair pair) w1, s1)))"

definition AuthHandler_Logout :: "('e, 's) auth_api \<Rightarrow> 'e \<Rightarrow> 's handler" where
  "AuthHandler_Logout service e r w s =
     (case bearerToken (sr_Header r ''Authorization'') of
        None \<Rightarrow> (writeProblem 401 ''missing bearer token'' w, s)
      | Some token \<Rightarrow>
          (case au_AuthenticateAccess service e token s of
             Inl err \<Rightarrow> (writeProblem 401 ''invalid access token'' w, s)
           | Inr userID \<Rightarrow> (WriteHeader 204 w, au_Logout service e userID s)))"

section \<open>Devices and regions\<close>

definition authenticatedUser ::
  "('e, 's) auth_api \<Rightarrow> 'e \<Rightarrow> server_request \<Rightarrow> writer \<Rightarrow> 's \<Rightarrow> string option \<times> writer" where
  "authenticatedUser auth e r w s =
     (case bearerToken (sr_Header r ''Authorization'') of
        None \<Rightarrow> (None, writeProblem 401 ''missing bearer token'' w)
      | Some token \<Rightarrow>
          (case au_AuthenticateAccess auth e token s of
             Inl err \<Rightarrow> (None, writeProblem 401 ''invalid access token'' w)
           | Inr userID \<Rightarrow> (Some userID, w)))"

definition DeviceHandler_List ::
  "('e, 's) auth_api \<Rightarrow> ('e, 's) device_ops \<Rightarrow> 'e \<Rightarrow> 's handler" where
  "DeviceHandler_List auth devs e r w s =
     (case authenticatedUser auth e r w s of
        (None, w1) \<Rightarrow> (w1, s)
      | (Some ownerID, w1) \<Rightarrow>
          (case ds_ListDevices devs e ownerID s of
             Inl err \<Rightarrow> (writeProblem 500 ''could not list devices'' w1, s)
           | Inr ds \<Rightarrow> (writeJSON 200 (RDevices ds) w1, s)))"

definition DeviceHandler_Register ::
  "('e, 's) auth_api \<Rightarrow> ('e, 's) device_ops \<Rightarrow> request_codec \<Rightarrow> 'e \<Rightarrow> 's handler" where
  "DeviceHandler_Register auth devs rc e r w s =
     (case authenticatedUser auth e r w s of
        (None, w1) \<Rightarrow> (w1, s)
      | (Some ownerID, w1) \<Rightarrow>
          (case decodeJSON rc (rc_device rc) r w1 of
             (None, w2) \<Rightarrow> (w2, s)
           | (Some request, w2) \<Rightarrow>
               (case ds_RegisterDevice devs e ownerID request s of
                  (Inl err, s1) \<Rightarrow>
                    (if errors_is err ErrConflict then writeProblem 409 ''device key already registered'' w2
                     else if errors_is err ErrInvalidInput then writeProblem 400 ''invalid device'' w2
                     else writeProblem 500 ''could not register device'' w2, s1)
                | (Inr device, s1) \<Rightarrow> (writeJSON 201 (RDevice device) w2, s1))))"

definition DeviceHandler_Revoke ::
  "('e, 's) auth_api \<Rightarrow> ('e, 's) device_ops \<Rightarrow> string \<Rightarrow> 'e \<Rightarrow> 's handler" where
  "DeviceHandler_Revoke auth devs deviceID e r w s =
     (case authenticatedUser auth e r w s of
        (None, w1) \<Rightarrow> (w1, s)
      | (Some ownerID, w1) \<Rightarrow>
          (case ds_RequestRevocation devs e ownerID deviceID s of
             (Inl err, s1) \<Rightarrow>
               (if errors_is err ErrNotFound then writeProblem 404 ''device not found'' w1
                else writeProblem 500 ''could not revoke device'' w1, s1)
           | (Inr _, s1) \<Rightarrow> (WriteHeader 204 w1, s1)))"

text \<open>Line 107--122: the status and the text for an error of the allocation.\<close>

definition configuration_problem :: "error \<Rightarrow> nat \<times> string" where
  "configuration_problem err =
     (if errors_is err ErrNotFound then (404, ''device or region not found'')
      else if errors_is err ErrDeviceNotActive then (409, ''device is not active'')
      else if errors_is err ErrDeviceAlreadyAllocated
        then (409, ''device already has an active tunnel in another region'')
      else if errors_is err ErrCapacityExhausted then (503, ''region capacity is unavailable'')
      else if errors_is err ErrConflict then (409, ''idempotency key was reused with different data'')
      else if errors_is err ErrInvalidInput then (400, ''invalid tunnel request'')
      else (500, ''could not create tunnel configuration''))"

definition DeviceHandler_Configuration ::
  "('e, 's) auth_api \<Rightarrow> ('e, 's) device_ops \<Rightarrow> request_codec \<Rightarrow> string \<Rightarrow> 'e \<Rightarrow> 's handler" where
  "DeviceHandler_Configuration auth devs rc deviceID e r w s =
     (case authenticatedUser auth e r w s of
        (None, w1) \<Rightarrow> (w1, s)
      | (Some ownerID, w1) \<Rightarrow>
          let idempotencyKey = trimSpace (sr_Header r ''Idempotency-Key'') in
          if length idempotencyKey < 16 \<or> length idempotencyKey > 128
          then (writeProblem 400 ''valid Idempotency-Key header is required'' w1, s)
          else (case decodeJSON rc (rc_region rc) r w1 of
             (None, w2) \<Rightarrow> (w2, s)
           | (Some regionID, w2) \<Rightarrow>
               (case ds_CreateTunnelConfiguration devs e ownerID deviceID regionID idempotencyKey s of
                  (Inl err, s1) \<Rightarrow>
                    (case configuration_problem err of (status, detail) \<Rightarrow> (writeProblem status detail w2, s1))
                | (Inr (configuration, created), s1) \<Rightarrow>
                    (writeJSON (if created then 201 else 200) (RConfiguration configuration) w2, s1))))"

definition RegionHandler_List ::
  "('e, 's) auth_api \<Rightarrow> ('e \<Rightarrow> 's \<Rightarrow> Region list result) \<Rightarrow> 'e \<Rightarrow> 's handler" where
  "RegionHandler_List auth listRegions e r w s =
     (case bearerToken (sr_Header r ''Authorization'') of
        None \<Rightarrow> (writeProblem 401 ''authentication required'' w, s)
      | Some token \<Rightarrow>
          (case au_AuthenticateAccess auth e token s of
             Inl err \<Rightarrow> (writeProblem 401 ''authentication required'' w, s)
           | Inr _ \<Rightarrow>
               (case listRegions e s of
                  Inl err \<Rightarrow> (writeProblem 503 ''regions unavailable'' w, s)
                | Inr rs \<Rightarrow> (writeJSON 200 (RRegions rs) w, s))))"

section \<open>Gateways\<close>

record ('e, 's) gateway_api =
  gw_ClaimSnapshot :: "'e \<Rightarrow> string \<Rightarrow> 's \<Rightarrow> Delivery result \<times> 's"
  gw_AckSnapshotDelivery :: "'e \<Rightarrow> string \<Rightarrow> string \<Rightarrow> int \<Rightarrow> 's \<Rightarrow> error option \<times> 's"
  gw_RetrySnapshotDelivery ::
    "'e \<Rightarrow> string \<Rightarrow> string \<Rightarrow> time \<Rightarrow> string \<Rightarrow> 's \<Rightarrow> error option \<times> 's"

definition gatewayIdentity :: "server_request \<Rightarrow> string option" where
  "gatewayIdentity r =
     (case sr_TLS r of
        None \<Rightarrow> None
      | Some conn \<Rightarrow>
          (case tls_CommonNames conn of
             [] \<Rightarrow> None
           | commonName # _ \<Rightarrow>
               if commonName = '''' \<or> containsAny commonName ''/?#'' then None else Some commonName))"

definition GatewayHandler_Claim :: "('e, 's) gateway_api \<Rightarrow> string \<Rightarrow> 'e \<Rightarrow> 's handler" where
  "GatewayHandler_Claim service pathID e r w s =
     (case gatewayIdentity r of
        None \<Rightarrow> (writeProblem 401 ''gateway mTLS identity required'' w, s)
      | Some gatewayID \<Rightarrow>
          if gatewayID \<noteq> pathID then (writeProblem 403 ''gateway identity mismatch'' w, s)
          else (case gw_ClaimSnapshot service e gatewayID s of
             (Inl err, s1) \<Rightarrow>
               if errors_is err ErrNoDelivery then (WriteHeader 204 w, s1)
               else (writeProblem 503 ''snapshot unavailable'' w, s1)
           | (Inr delivery, s1) \<Rightarrow>
               (encode_reply (RDelivery delivery) (header_set ''Content-Type'' ''application/json'' w), s1)))"

definition GatewayHandler_Ack ::
  "('e, 's) gateway_api \<Rightarrow> request_codec \<Rightarrow> string \<Rightarrow> string \<Rightarrow> 'e \<Rightarrow> 's handler" where
  "GatewayHandler_Ack service rc pathID deliveryID e r w s =
     (case gatewayIdentity r of
        None \<Rightarrow> (writeProblem 401 ''gateway mTLS identity required'' w, s)
      | Some gatewayID \<Rightarrow>
          if gatewayID \<noteq> pathID then (writeProblem 403 ''gateway identity mismatch'' w, s)
          else (case decodeJSON rc (rc_generation rc) r w of
             (None, w1) \<Rightarrow> (writeProblem 400 ''invalid generation'' w1, s)
           | (Some generation, w1) \<Rightarrow>
               if generation \<le> 0 then (writeProblem 400 ''invalid generation'' w1, s)
               else (case gw_AckSnapshotDelivery service e gatewayID deliveryID generation s of
                  (Some err, s1) \<Rightarrow> (writeProblem 404 ''delivery not found'' w1, s1)
                | (None, s1) \<Rightarrow> (WriteHeader 204 w1, s1))))"

definition GatewayHandler_Retry ::
  "('e, 's) gateway_api \<Rightarrow> request_codec \<Rightarrow> string \<Rightarrow> string \<Rightarrow> 'e \<Rightarrow> 's handler" where
  "GatewayHandler_Retry service rc pathID deliveryID e r w s =
     (case gatewayIdentity r of
        None \<Rightarrow> (writeProblem 401 ''gateway mTLS identity required'' w, s)
      | Some gatewayID \<Rightarrow>
          if gatewayID \<noteq> pathID then (writeProblem 403 ''gateway identity mismatch'' w, s)
          else (case decodeJSON rc (rc_retry rc) r w of
             (None, w1) \<Rightarrow> (writeProblem 400 ''invalid retry request'' w1, s)
           | (Some (retryAt, reason), w1) \<Rightarrow>
               if time_is_zero retryAt \<or> length reason > 512
               then (writeProblem 400 ''invalid retry request'' w1, s)
               else (case gw_RetrySnapshotDelivery service e gatewayID deliveryID retryAt reason s of
                  (Some err, s1) \<Rightarrow> (writeProblem 404 ''delivery not found'' w1, s1)
                | (None, s1) \<Rightarrow> (WriteHeader 204 w1, s1))))"

end
