(* ===== verification/Router.thy ===== *)
theory Router
  imports Httpapi
begin

text \<open>
  Routes and servers, \<^verbatim>\<open>internal/httpapi/router.go\<close>: \<open>NewMux\<close> gives the table of routes,
  \<open>mux_serve\<close> is \<^verbatim>\<open>http.ServeMux\<close> on such a table, and \<open>NewServer\<close> wraps it in
  \<open>securityHeaders\<close>. The patterns of the program are a method and segments that are a
  literal or a wildcard; no two of them match the same request, so the table needs no order of
  precedence.
\<close>

section \<open>Paths\<close>

text \<open>\<^verbatim>\<open>url.PathUnescape\<close>, and \<^verbatim>\<open>pathUnescape\<close> of \<^verbatim>\<open>http.ServeMux\<close>, which keeps a bad segment.\<close>

fun urlUnescape :: "string \<Rightarrow> string option" where
  "urlUnescape [] = Some []"
| "urlUnescape (c # s) =
     (if c = CHR ''%'' then
        (case s of
           h # l # t \<Rightarrow>
             if is_hex h \<and> is_hex l
             then map_option ((#) (char_of (16 * hex_val h + hex_val l))) (urlUnescape t)
             else None
         | _ \<Rightarrow> None)
      else map_option ((#) c) (urlUnescape s))"

definition mux_unescape :: "string \<Rightarrow> string" where
  "mux_unescape s = (case urlUnescape s of None \<Rightarrow> s | Some u \<Rightarrow> u)"

text \<open>\<^verbatim>\<open>cleanPath\<close>: dot segments and repeated slashes removed, a slash at the end kept.\<close>

fun clean_segments :: "string list \<Rightarrow> string list \<Rightarrow> string list" where
  "clean_segments done_rev [] = rev done_rev"
| "clean_segments done_rev (x # xs) =
     (if x = '''' \<or> x = ''.'' then clean_segments done_rev xs
      else if x = ''..'' then clean_segments (tl done_rev) xs
      else clean_segments (x # done_rev) xs)"

definition cleanPath :: "string \<Rightarrow> string" where
  "cleanPath p =
     (if p = '''' then ''/''
      else let rooted = (if hd p = CHR ''/'' then p else CHR ''/'' # p);
               np = CHR ''/'' # joinWith (CHR ''/'') (clean_segments [] (splitOn (CHR ''/'') rooted))
           in if last rooted = CHR ''/'' \<and> np \<noteq> ''/'' then np @ ''/'' else np)"

definition path_segments :: "string \<Rightarrow> string list" where
  "path_segments p = splitOn (CHR ''/'') (tl p)"

section \<open>Patterns\<close>

datatype pattern_segment = Lit string | Wild

text \<open>The values of the wildcards. A slash at the end is no segment a wildcard matches.\<close>

fun match_segments :: "pattern_segment list \<Rightarrow> string list \<Rightarrow> string list option" where
  "match_segments [] [] = Some []"
| "match_segments (Lit l # ps) (x # xs) = (if mux_unescape x = l then match_segments ps xs else None)"
| "match_segments (Wild # ps) (x # xs) =
     (if x = '''' \<and> xs = [] then None
      else map_option ((#) (mux_unescape x)) (match_segments ps xs))"
| "match_segments _ _ = None"

type_synonym ('e, 's) route = "string \<times> pattern_segment list \<times> (string list \<Rightarrow> 'e \<Rightarrow> 's handler)"

definition method_matches :: "string \<Rightarrow> string \<Rightarrow> bool" where
  "method_matches pattern_method method \<longleftrightarrow>
     pattern_method = method \<or> pattern_method = ''GET'' \<and> method = ''HEAD''"

fun find_route :: "('e, 's) route list \<Rightarrow> string \<Rightarrow> string list \<Rightarrow> ('e \<Rightarrow> 's handler) option" where
  "find_route [] method xs = None"
| "find_route ((pm, ps, h) # routes) method xs =
     (case match_segments ps xs of
        Some vs \<Rightarrow> if method_matches pm method then Some (h vs) else find_route routes method xs
      | None \<Rightarrow> find_route routes method xs)"

definition allowed_methods :: "('e, 's) route list \<Rightarrow> string list \<Rightarrow> string list" where
  "allowed_methods routes xs =
     sort (remdups (concat (map (\<lambda>(pm, ps, h).
       if match_segments ps xs = None then [] else if pm = ''GET'' then [''GET'', ''HEAD''] else [pm]) routes)))"

text \<open>\<^verbatim>\<open>http.Error\<close> and \<^verbatim>\<open>http.Redirect\<close>; the target is left unescaped and without the query.\<close>

definition http_error :: "string \<Rightarrow> nat \<Rightarrow> writer \<Rightarrow> writer" where
  "http_error message code w =
     encode_reply (RText message) (WriteHeader code
       (header_set ''X-Content-Type-Options'' ''nosniff''
         (header_set ''Content-Type'' ''text/plain; charset=utf-8'' w)))"

definition redirect_to :: "string \<Rightarrow> writer \<Rightarrow> writer" where
  "redirect_to target w = WriteHeader 301 (header_set ''Location'' target w)"

fun joinMethods :: "string list \<Rightarrow> string" where
  "joinMethods [] = ''''"
| "joinMethods [m] = m"
| "joinMethods (m # ms) = m @ '', '' @ joinMethods ms"

definition mux_serve :: "('e, 's) route list \<Rightarrow> 'e \<Rightarrow> 's handler" where
  "mux_serve routes e r w s =
     (if sr_Path r = ''*'' then (WriteHeader 400 w, s)
      else let path = (if sr_Method r = ''CONNECT'' then sr_Path r else cleanPath (sr_Path r)) in
        if path \<noteq> sr_Path r then (redirect_to path w, s)
        else (case find_route routes (sr_Method r) (path_segments path) of
                Some h \<Rightarrow> h e r w s
              | None \<Rightarrow>
                  let ms = allowed_methods routes (path_segments path) in
                  if ms = [] then (http_error ''404 page not found'' 404 w, s)
                  else (http_error (statusText 405) 405 (header_set ''Allow'' (joinMethods ms) w), s)))"

section \<open>The routes of the program\<close>

definition health_handler :: "'e \<Rightarrow> 's handler" where
  "health_handler e r w s =
     (encode_reply (RStatus ''ok'') (header_set ''Content-Type'' ''application/json'' w), s)"

definition ready_handler :: "('e \<Rightarrow> 's \<Rightarrow> error option) option \<Rightarrow> 'e \<Rightarrow> 's handler" where
  "ready_handler healthChecker e r w s =
     (if (case healthChecker of None \<Rightarrow> True | Some ping \<Rightarrow> ping e s \<noteq> None)
      then (writeProblem 503 ''database is not ready'' w, s)
      else (encode_reply (RStatus ''ready'') (header_set ''Content-Type'' ''application/json'' w), s))"

text \<open>A device service may also list regions: the interface \<^verbatim>\<open>RegionService\<close> of the code.\<close>

type_synonym ('e, 's) device_service_value =
  "('e, 's) device_ops \<times> ('e \<Rightarrow> 's \<Rightarrow> Region list result) option"

definition auth_routes :: "('e, 's) auth_api \<Rightarrow> request_codec \<Rightarrow> ('e, 's) route list" where
  "auth_routes auth rc =
     [(''POST'', [Lit ''v1'', Lit ''auth'', Lit ''register''], \<lambda>_. AuthHandler_Register auth rc),
      (''POST'', [Lit ''v1'', Lit ''auth'', Lit ''login''], \<lambda>_. AuthHandler_Login auth rc),
      (''POST'', [Lit ''v1'', Lit ''auth'', Lit ''refresh''], \<lambda>_. AuthHandler_Refresh auth rc),
      (''POST'', [Lit ''v1'', Lit ''auth'', Lit ''logout''], \<lambda>_. AuthHandler_Logout auth)]"

definition device_routes ::
  "('e, 's) auth_api \<Rightarrow> ('e, 's) device_ops \<Rightarrow> request_codec \<Rightarrow> ('e, 's) route list" where
  "device_routes auth devs rc =
     [(''GET'', [Lit ''v1'', Lit ''devices''], \<lambda>_. DeviceHandler_List auth devs),
      (''POST'', [Lit ''v1'', Lit ''devices''], \<lambda>_. DeviceHandler_Register auth devs rc),
      (''DELETE'', [Lit ''v1'', Lit ''devices'', Wild], \<lambda>vs. DeviceHandler_Revoke auth devs (vs ! 0)),
      (''POST'', [Lit ''v1'', Lit ''devices'', Wild, Lit ''configuration''],
         \<lambda>vs. DeviceHandler_Configuration auth devs rc (vs ! 0))]"

definition region_routes ::
  "('e, 's) auth_api \<Rightarrow> ('e \<Rightarrow> 's \<Rightarrow> Region list result) \<Rightarrow> ('e, 's) route list" where
  "region_routes auth listRegions =
     [(''GET'', [Lit ''v1'', Lit ''regions''], \<lambda>_. RegionHandler_List auth listRegions)]"

definition gateway_routes :: "('e, 's) gateway_api \<Rightarrow> request_codec \<Rightarrow> ('e, 's) route list" where
  "gateway_routes service rc =
     [(''GET'', [Lit ''v1'', Lit ''agent'', Lit ''gateways'', Wild, Lit ''snapshots'', Lit ''next''],
         \<lambda>vs. GatewayHandler_Claim service (vs ! 0)),
      (''POST'', [Lit ''v1'', Lit ''agent'', Lit ''gateways'', Wild, Lit ''snapshots'', Wild, Lit ''ack''],
         \<lambda>vs. GatewayHandler_Ack service rc (vs ! 0) (vs ! 1)),
      (''POST'', [Lit ''v1'', Lit ''agent'', Lit ''gateways'', Wild, Lit ''snapshots'', Wild, Lit ''retry''],
         \<lambda>vs. GatewayHandler_Retry service rc (vs ! 0) (vs ! 1))]"

definition NewMux ::
  "request_codec \<Rightarrow> ('e, 's) auth_api option \<Rightarrow> ('e, 's) device_service_value option
   \<Rightarrow> ('e \<Rightarrow> 's \<Rightarrow> error option) option \<Rightarrow> ('e, 's) gateway_api option list \<Rightarrow> ('e, 's) route list" where
  "NewMux rc authService deviceService healthChecker gatewayServices =
     [(''GET'', [Lit ''v1'', Lit ''health''], \<lambda>_. health_handler),
      (''GET'', [Lit ''v1'', Lit ''ready''], \<lambda>_. ready_handler healthChecker)]
     @ (case authService of None \<Rightarrow> [] | Some auth \<Rightarrow> auth_routes auth rc)
     @ (case (authService, deviceService) of
          (Some auth, Some (devs, _)) \<Rightarrow> device_routes auth devs rc | _ \<Rightarrow> [])
     @ (case (authService, deviceService) of
          (Some auth, Some (_, Some listRegions)) \<Rightarrow> region_routes auth listRegions | _ \<Rightarrow> [])
     @ (case gatewayServices of Some service # _ \<Rightarrow> gateway_routes service rc | _ \<Rightarrow> [])"

section \<open>Servers\<close>

definition securityHeaders :: "('e \<Rightarrow> 's handler) \<Rightarrow> 'e \<Rightarrow> 's handler" where
  "securityHeaders next e r w s =
     (let w1 = header_set ''Cache-Control'' ''no-store''
                 (header_set ''Referrer-Policy'' ''no-referrer''
                   (header_set ''X-Content-Type-Options'' ''nosniff'' w));
          w2 = (if sr_TLS r \<noteq> None
                then header_set ''Strict-Transport-Security'' ''max-age=31536000; includeSubDomains'' w1
                else w1)
      in next e r w2 s)"

record ('c, 'p, 'e, 's) http_server =
  srv_Addr :: string
  srv_Handler :: "'e \<Rightarrow> 's handler"
  srv_ReadHeaderTimeout :: duration
  srv_ReadTimeout :: duration
  srv_WriteTimeout :: duration
  srv_IdleTimeout :: duration
  srv_MaxHeaderBytes :: nat
  srv_TLSConfig :: "('c, 'p) tls_config option"

definition NewServer :: "string \<Rightarrow> ('e \<Rightarrow> 's handler) \<Rightarrow> ('c, 'p, 'e, 's) http_server" where
  "NewServer address handler =
     \<lparr>srv_Addr = address, srv_Handler = securityHeaders handler,
      srv_ReadHeaderTimeout = 5 * second, srv_ReadTimeout = 15 * second,
      srv_WriteTimeout = 15 * second, srv_IdleTimeout = 60 * second,
      srv_MaxHeaderBytes = 16 * 1024, srv_TLSConfig = None\<rparr>"

definition NewMTLSServer ::
  "string \<Rightarrow> ('e \<Rightarrow> 's handler) \<Rightarrow> ('c, 'p) tls_config \<Rightarrow> ('c, 'p, 'e, 's) http_server" where
  "NewMTLSServer address handler tlsConfig =
     (NewServer address handler)\<lparr>srv_TLSConfig := Some tlsConfig\<rparr>"

text \<open>What the server sends for a request, and the header it sends with it.\<close>

definition serve :: "('c, 'p, 'e, 's) http_server \<Rightarrow> 'e \<Rightarrow> server_request \<Rightarrow> 's \<Rightarrow> writer \<times> 's" where
  "serve srv e r s = srv_Handler srv e r new_writer s"

definition sent_header :: "writer \<Rightarrow> string \<rightharpoonup> string" where
  "sent_header w = (case w_Sent w of None \<Rightarrow> w_Header w | Some (_, h) \<Rightarrow> h)"

end
