(* ===== verification/Router_Facts.thy ===== *)
theory Router_Facts
  imports Router
begin

text \<open>
  What the servers of \<open>Router\<close> promise whatever the services behind them do: every request
  gets one well formed response with the security headers, and nothing happens to the state,
  and nothing private is shown, except to the holder of an access token, to a gateway that
  proved its identity, or through the public account routes.
\<close>

section \<open>Routing\<close>

lemma find_route_Some:
  assumes "find_route routes m xs = Some h"
  obtains pm ps f vs where "(pm, ps, f) \<in> set routes" "match_segments ps xs = Some vs"
    "method_matches pm m" "h = f vs"
  using assms by (induction routes m xs rule: find_route.induct) (auto split: option.splits if_splits)

lemma match_segments_Cons:
  "match_segments (p # ps) xs = Some vs \<longleftrightarrow>
     (\<exists>y ys. xs = y # ys \<and>
       (case p of Lit l \<Rightarrow> mux_unescape y = l \<and> match_segments ps ys = Some vs
        | Wild \<Rightarrow> \<not> (y = '''' \<and> ys = []) \<and> (\<exists>us. vs = mux_unescape y # us \<and> match_segments ps ys = Some us)))"
  by (cases p; cases xs) auto

lemma match_segments_Nil: "match_segments [] xs = Some vs \<longleftrightarrow> xs = [] \<and> vs = []"
  by (cases xs) auto

lemmas match_segments_iff = match_segments_Cons match_segments_Nil

lemma mux_serve_cases:
  assumes "mux_serve routes e r w s = (w', s')"
  obtains (bad) "w' = WriteHeader 400 w" "s' = s"
  | (unclean) p where "w' = redirect_to p w" "s' = s"
  | (missing) "w' = http_error ''404 page not found'' 404 w" "s' = s"
  | (not_allowed) a where "w' = http_error (statusText 405) 405 (header_set ''Allow'' a w)" "s' = s"
  | (routed) pm ps f vs where "(pm, ps, f) \<in> set routes"
      "match_segments ps (path_segments (sr_Path r)) = Some vs" "method_matches pm (sr_Method r)"
      "f vs e r w s = (w', s')"
  using assms
  by (auto simp: mux_serve_def Let_def split: if_splits option.splits elim!: find_route_Some)

section \<open>Every response\<close>

definition statuses :: "nat list" where
  "statuses = [200, 201, 204, 301, 400, 401, 403, 404, 405, 409, 415, 500, 503]"

text \<open>A problem names the status that was sent; a body that is no problem goes with a success.\<close>

definition body_fits :: "nat \<Rightarrow> reply list \<Rightarrow> bool" where
  "body_fits status body =
     (case body of
        [] \<Rightarrow> status \<in> {204, 301, 400}
      | RProblem t n d # rest \<Rightarrow> n = status \<and> t = statusText n \<and> t \<noteq> '''' \<and> length rest \<le> 1
      | RText t # rest \<Rightarrow> status \<in> {404, 405} \<and> rest = []
      | _ # rest \<Rightarrow> status \<in> {200, 201} \<and> rest = [])"

definition free_headers :: "string list" where
  "free_headers = [''Content-Type'', ''Location'', ''Allow'']"

definition responds :: "writer \<Rightarrow> writer \<Rightarrow> bool" where
  "responds w w' \<longleftrightarrow> (case w_Sent w' of
       None \<Rightarrow> False
     | Some (status, h) \<Rightarrow> status \<in> set statuses \<and> body_fits status (w_Body w')
         \<and> (\<forall>k. k \<notin> set free_headers \<longrightarrow> k \<noteq> ''X-Content-Type-Options'' \<longrightarrow> h k = w_Header w k)
         \<and> h ''X-Content-Type-Options'' \<in> {w_Header w ''X-Content-Type-Options'', Some ''nosniff''})"

definition fresh :: "writer \<Rightarrow> bool" where
  "fresh w \<longleftrightarrow> w_Sent w = None \<and> w_Body w = []"

lemmas response_defs = responds_def fresh_def statuses_def body_fits_def free_headers_def
  writeJSON_def writeProblem_def encode_reply_def WriteHeader_def header_set_def http_error_def
  redirect_to_def statusText_def Let_def

lemma fresh_header_set [simp]: "fresh (header_set k v w) = fresh w"
  by (simp add: fresh_def header_set_def)

lemma responds_problem:
  "fresh w \<Longrightarrow> n \<in> {400, 401, 403, 404, 409, 415, 500, 503} \<Longrightarrow> responds w (writeProblem n d w)"
  by (auto simp: response_defs)

lemma responds_twice:
  "fresh w \<Longrightarrow> n \<in> {400, 415} \<Longrightarrow> responds w (writeProblem 400 d (writeProblem n d' w))"
  by (auto simp: response_defs)

lemma responds_JSON:
  "fresh w \<Longrightarrow> n \<in> {200, 201} \<Longrightarrow> (case x of RProblem _ _ _ \<Rightarrow> False | RText _ \<Rightarrow> False | _ \<Rightarrow> True) \<Longrightarrow>
     responds w (writeJSON n x w)"
  by (auto simp: response_defs split: reply.splits)

lemma responds_encode:
  "fresh w \<Longrightarrow> (case x of RProblem _ _ _ \<Rightarrow> False | RText _ \<Rightarrow> False | _ \<Rightarrow> True) \<Longrightarrow>
     responds w (encode_reply x (header_set ''Content-Type'' ''application/json'' w))"
  by (auto simp: response_defs split: reply.splits)

lemma responds_204: "fresh w \<Longrightarrow> responds w (WriteHeader 204 w)"
  by (auto simp: response_defs)

lemma responds_mux:
  "fresh w \<Longrightarrow> responds w (WriteHeader 400 w)"
  "fresh w \<Longrightarrow> responds w (redirect_to p w)"
  "fresh w \<Longrightarrow> responds w (http_error t 404 w)"
  "fresh w \<Longrightarrow> responds w (http_error t 405 (header_set ''Allow'' a w))"
  by (auto simp: response_defs)

lemmas responds_intros = responds_problem responds_twice responds_JSON responds_encode
  responds_204 responds_mux

text \<open>Reading the body either fails with a response or leaves the writer as it is.\<close>

lemma decodeJSON_cases:
  assumes "decodeJSON rc dc r w = (v, w')"
  obtains (bad) n d where "v = None" "n \<in> {400, 415}" "w' = writeProblem n d w"
  | (ok) x where "v = Some x" "w' = w"
  using assms by (auto simp: decodeJSON_def split: if_splits option.splits) blast

lemma authenticatedUser_cases:
  assumes "authenticatedUser auth e r w s = (v, w')"
  obtains (bad) d where "v = None" "w' = writeProblem 401 d w"
  | (ok) token u where "v = Some u" "w' = w" "bearerToken (sr_Header r ''Authorization'') = Some token"
      "au_AuthenticateAccess auth e token s = Inr u"
  using assms by (auto simp: authenticatedUser_def split: option.splits sum.splits)

lemma handlers_respond:
  assumes "fresh w"
  shows "AuthHandler_Register au rc e r w s = (w', s') \<Longrightarrow> responds w w'"
    and "AuthHandler_Login au rc e r w s = (w', s') \<Longrightarrow> responds w w'"
    and "AuthHandler_Refresh au rc e r w s = (w', s') \<Longrightarrow> responds w w'"
    and "AuthHandler_Logout au e r w s = (w', s') \<Longrightarrow> responds w w'"
    and "DeviceHandler_List au ops e r w s = (w', s') \<Longrightarrow> responds w w'"
    and "DeviceHandler_Register au ops rc e r w s = (w', s') \<Longrightarrow> responds w w'"
    and "DeviceHandler_Revoke au ops i e r w s = (w', s') \<Longrightarrow> responds w w'"
    and "DeviceHandler_Configuration au ops rc i e r w s = (w', s') \<Longrightarrow> responds w w'"
    and "RegionHandler_List au lr e r w s = (w', s') \<Longrightarrow> responds w w'"
    and "GatewayHandler_Claim svc g e r w s = (w', s') \<Longrightarrow> responds w w'"
    and "GatewayHandler_Ack svc rc g i e r w s = (w', s') \<Longrightarrow> responds w w'"
    and "GatewayHandler_Retry svc rc g i e r w s = (w', s') \<Longrightarrow> responds w w'"
    and "health_handler e r w s = (w', s') \<Longrightarrow> responds w w'"
    and "ready_handler hc e r w s = (w', s') \<Longrightarrow> responds w w'"
  using assms
  by (auto simp: AuthHandler_Register_def AuthHandler_Login_def AuthHandler_Refresh_def
      AuthHandler_Logout_def DeviceHandler_List_def DeviceHandler_Register_def
      DeviceHandler_Revoke_def DeviceHandler_Configuration_def configuration_problem_def
      RegionHandler_List_def GatewayHandler_Claim_def GatewayHandler_Ack_def
      GatewayHandler_Retry_def health_handler_def ready_handler_def Let_def
      intro!: responds_intros
      elim!: decodeJSON_cases authenticatedUser_cases
      split: if_splits option.splits sum.splits prod.splits)

section \<open>Who may do what\<close>

text \<open>Replies that show nothing of an account, a device or a gateway.\<close>

definition public_reply :: "reply \<Rightarrow> bool" where
  "public_reply x = (case x of RProblem _ _ _ \<Rightarrow> True | RText _ \<Rightarrow> True | RStatus _ \<Rightarrow> True | _ \<Rightarrow> False)"

definition public_writer :: "writer \<Rightarrow> bool" where
  "public_writer w \<longleftrightarrow> (\<forall>x\<in>set (w_Body w). public_reply x)"

text \<open>The three account requests that need no token.\<close>

definition account_request :: "server_request \<Rightarrow> bool" where
  "account_request r \<longleftrightarrow> sr_Method r = ''POST''
     \<and> map mux_unescape (path_segments (sr_Path r))
         \<in> {[''v1'', ''auth'', ''register''], [''v1'', ''auth'', ''login''], [''v1'', ''auth'', ''refresh'']}"

text \<open>The request carries an access token of the user \<open>u\<close>.\<close>

definition token_of :: "('e, 's) auth_api option \<Rightarrow> 'e \<Rightarrow> server_request \<Rightarrow> 's \<Rightarrow> string \<Rightarrow> bool" where
  "token_of auth e r s u = (case auth of None \<Rightarrow> False
     | Some au \<Rightarrow> (case bearerToken (sr_Header r ''Authorization'') of None \<Rightarrow> False
         | Some token \<Rightarrow> au_AuthenticateAccess au e token s = Inr u))"

text \<open>What a request can do to the state on behalf of a user, and of a gateway.\<close>

inductive acts_as_user ::
  "('e, 's) auth_api option \<Rightarrow> ('e, 's) device_service_value option \<Rightarrow> 'e \<Rightarrow> string \<Rightarrow> 's \<Rightarrow> 's \<Rightarrow> bool"
  for auth devs e u s where
  nothing: "acts_as_user auth devs e u s s"
| logout: "auth = Some au \<Longrightarrow> acts_as_user auth devs e u s (au_Logout au e u s)"
| register: "devs = Some (ops, lr) \<Longrightarrow> acts_as_user auth devs e u s (snd (ds_RegisterDevice ops e u q s))"
| revoke: "devs = Some (ops, lr) \<Longrightarrow> acts_as_user auth devs e u s (snd (ds_RequestRevocation ops e u i s))"
| configure: "devs = Some (ops, lr) \<Longrightarrow>
    acts_as_user auth devs e u s (snd (ds_CreateTunnelConfiguration ops e u i rg k s))"

text \<open>What the account requests without a token can do.\<close>

inductive acts_as_visitor :: "('e, 's) auth_api option \<Rightarrow> 'e \<Rightarrow> 's \<Rightarrow> 's \<Rightarrow> bool" for auth e s where
  register_account: "auth = Some au \<Longrightarrow> acts_as_visitor auth e s (snd (au_Register au e email password s))"
| login: "auth = Some au \<Longrightarrow> acts_as_visitor auth e s (snd (au_Login au e email password s))"
| refresh: "auth = Some au \<Longrightarrow> acts_as_visitor auth e s (snd (au_Refresh au e token s))"

inductive acts_as_gateway ::
  "('e, 's) gateway_api option list \<Rightarrow> 'e \<Rightarrow> string \<Rightarrow> 's \<Rightarrow> 's \<Rightarrow> bool"
  for gws e g s where
  idle: "acts_as_gateway gws e g s s"
| claim: "gws = Some svc # rest \<Longrightarrow> acts_as_gateway gws e g s (snd (gw_ClaimSnapshot svc e g s))"
| ack: "gws = Some svc # rest \<Longrightarrow> acts_as_gateway gws e g s (snd (gw_AckSnapshotDelivery svc e g i n s))"
| fail: "gws = Some svc # rest \<Longrightarrow>
    acts_as_gateway gws e g s (snd (gw_RetrySnapshotDelivery svc e g i t reason s))"

inductive_cases acts_as_userE: "acts_as_user auth devs e u s s'"
inductive_cases acts_as_visitorE: "acts_as_visitor auth e s s'"
inductive_cases acts_as_gatewayE: "acts_as_gateway gws e g s s'"

lemmas public_defs = public_writer_def public_reply_def writeJSON_def writeProblem_def encode_reply_def
  WriteHeader_def header_set_def http_error_def redirect_to_def Let_def

lemma public_problem [simp]: "public_writer (writeProblem n d w) = public_writer w"
  by (auto simp: public_defs split: option.splits)

lemma public_status [simp]: "public_writer (WriteHeader n w) = public_writer w"
  by (auto simp: public_defs split: option.splits)

lemma public_error [simp]: "public_writer (http_error t n w) = public_writer w"
  by (auto simp: public_defs split: option.splits)

lemma public_header [simp]: "public_writer (header_set k v w) = public_writer w"
  by (auto simp: public_defs)

lemma public_redirect [simp]: "public_writer (redirect_to p w) = public_writer w"
  by (simp add: redirect_to_def)

lemma public_health [simp]: "public_writer (encode_reply (RStatus t) w) = public_writer w"
  by (auto simp: public_defs split: option.splits)

lemma snd_of: "x = (a, b) \<Longrightarrow> b = snd x"
  by simp

lemma acts_as_user_intros:
  "ds_RegisterDevice ops e u q s = (res, s') \<Longrightarrow> acts_as_user auth (Some (ops, lr)) e u s s'"
  "ds_RequestRevocation ops e u i s = (res', s') \<Longrightarrow> acts_as_user auth (Some (ops, lr)) e u s s'"
  "ds_CreateTunnelConfiguration ops e u i rg k s = (res'', s') \<Longrightarrow> acts_as_user auth (Some (ops, lr)) e u s s'"
  by (drule snd_of, simp, rule acts_as_user.intros, rule refl)+

lemma acts_as_visitor_intros:
  "au_Register au e email password s = (res, s') \<Longrightarrow> acts_as_visitor (Some au) e s s'"
  "au_Login au e email password s = (res', s') \<Longrightarrow> acts_as_visitor (Some au) e s s'"
  "au_Refresh au e token s = (res'', s') \<Longrightarrow> acts_as_visitor (Some au) e s s'"
  by (drule snd_of, simp, rule acts_as_visitor.intros, rule refl)+

lemma acts_as_gateway_intros:
  "gw_ClaimSnapshot svc e g s = (res, s') \<Longrightarrow> acts_as_gateway (Some svc # rest) e g s s'"
  "gw_AckSnapshotDelivery svc e g i n s = (res', s') \<Longrightarrow> acts_as_gateway (Some svc # rest) e g s s'"
  "gw_RetrySnapshotDelivery svc e g i t reason s = (res', s') \<Longrightarrow> acts_as_gateway (Some svc # rest) e g s s'"
  by (drule snd_of, simp, rule acts_as_gateway.intros, rule refl)+

text \<open>The handlers behind a token do nothing, or what their user may do.\<close>

lemma token_ofI:
  "bearerToken (sr_Header r ''Authorization'') = Some token \<Longrightarrow> au_AuthenticateAccess au e token s = Inr u
     \<Longrightarrow> token_of (Some au) e r s u"
  by (simp add: token_of_def)

lemma user_handlers_act:
  assumes "public_writer w"
  shows "AuthHandler_Logout au e r w s = (w', s') \<Longrightarrow>
      s' = s \<and> public_writer w' \<or> (\<exists>u. token_of (Some au) e r s u \<and> acts_as_user (Some au) devs e u s s')"
    and "DeviceHandler_List au ops e r w s = (w', s') \<Longrightarrow>
      s' = s \<and> public_writer w' \<or> (\<exists>u. token_of (Some au) e r s u \<and> acts_as_user (Some au) (Some (ops, lr)) e u s s')"
    and "DeviceHandler_Register au ops rc e r w s = (w', s') \<Longrightarrow>
      s' = s \<and> public_writer w' \<or> (\<exists>u. token_of (Some au) e r s u \<and> acts_as_user (Some au) (Some (ops, lr)) e u s s')"
    and "DeviceHandler_Revoke au ops i e r w s = (w', s') \<Longrightarrow>
      s' = s \<and> public_writer w' \<or> (\<exists>u. token_of (Some au) e r s u \<and> acts_as_user (Some au) (Some (ops, lr)) e u s s')"
    and "DeviceHandler_Configuration au ops rc i e r w s = (w', s') \<Longrightarrow>
      s' = s \<and> public_writer w' \<or> (\<exists>u. token_of (Some au) e r s u \<and> acts_as_user (Some au) (Some (ops, lr)) e u s s')"
    and "RegionHandler_List au listRegions e r w s = (w', s') \<Longrightarrow>
      s' = s \<and> public_writer w' \<or> (\<exists>u. token_of (Some au) e r s u \<and> acts_as_user (Some au) devs e u s s')"
  using assms
  by (auto simp: AuthHandler_Logout_def DeviceHandler_List_def DeviceHandler_Register_def
      DeviceHandler_Revoke_def DeviceHandler_Configuration_def RegionHandler_List_def Let_def
      intro: token_ofI acts_as_user_intros acts_as_user.nothing acts_as_user.logout
      elim!: decodeJSON_cases authenticatedUser_cases
      split: if_splits option.splits sum.splits prod.splits)

lemma visitor_handlers_act:
  assumes "public_writer w"
  shows "AuthHandler_Register au rc e r w s = (w', s') \<Longrightarrow>
      s' = s \<and> public_writer w' \<or> acts_as_visitor (Some au) e s s'"
    and "AuthHandler_Login au rc e r w s = (w', s') \<Longrightarrow>
      s' = s \<and> public_writer w' \<or> acts_as_visitor (Some au) e s s'"
    and "AuthHandler_Refresh au rc e r w s = (w', s') \<Longrightarrow>
      s' = s \<and> public_writer w' \<or> acts_as_visitor (Some au) e s s'"
  using assms
  by (auto simp: AuthHandler_Register_def AuthHandler_Login_def AuthHandler_Refresh_def
      intro: acts_as_visitor_intros elim!: decodeJSON_cases
      split: if_splits option.splits sum.splits prod.splits)

text \<open>The handlers of the agent do nothing, or what the gateway named in the path may do.\<close>

lemma gateway_handlers_act:
  assumes "public_writer w"
  shows "GatewayHandler_Claim svc g e r w s = (w', s') \<Longrightarrow>
      s' = s \<and> public_writer w' \<or> gatewayIdentity r = Some g \<and> acts_as_gateway (Some svc # rest) e g s s'"
    and "GatewayHandler_Ack svc rc g i e r w s = (w', s') \<Longrightarrow>
      s' = s \<and> public_writer w' \<or> gatewayIdentity r = Some g \<and> acts_as_gateway (Some svc # rest) e g s s'"
    and "GatewayHandler_Retry svc rc g i e r w s = (w', s') \<Longrightarrow>
      s' = s \<and> public_writer w' \<or> gatewayIdentity r = Some g \<and> acts_as_gateway (Some svc # rest) e g s s'"
  using assms
  by (auto simp: GatewayHandler_Claim_def GatewayHandler_Ack_def GatewayHandler_Retry_def
      intro: acts_as_gateway_intros
      elim!: decodeJSON_cases
      split: if_splits option.splits sum.splits prod.splits)

lemma NewMux_cases:
  assumes "(pm, ps, f) \<in> set (NewMux rc auth devs hc gws)"
  obtains (health) "f \<in> {\<lambda>_. health_handler, \<lambda>_. ready_handler hc}"
  | (account) au where "auth = Some au" "pm = ''POST''"
      "(ps, f) \<in> {([Lit ''v1'', Lit ''auth'', Lit ''register''], \<lambda>_. AuthHandler_Register au rc),
         ([Lit ''v1'', Lit ''auth'', Lit ''login''], \<lambda>_. AuthHandler_Login au rc),
         ([Lit ''v1'', Lit ''auth'', Lit ''refresh''], \<lambda>_. AuthHandler_Refresh au rc)}"
  | (logout) au where "auth = Some au" "f = (\<lambda>_. AuthHandler_Logout au)"
  | (device) au ops lr where "auth = Some au" "devs = Some (ops, lr)"
      "f \<in> {\<lambda>_. DeviceHandler_List au ops, \<lambda>_. DeviceHandler_Register au ops rc,
         \<lambda>vs. DeviceHandler_Revoke au ops (vs ! 0), \<lambda>vs. DeviceHandler_Configuration au ops rc (vs ! 0)}"
  | (region) au ops lr where "auth = Some au" "devs = Some (ops, Some lr)"
      "f = (\<lambda>_. RegionHandler_List au lr)"
  | (gateway) svc rest last where "gws = Some svc # rest"
      "ps = [Lit ''v1'', Lit ''agent'', Lit ''gateways'', Wild, Lit ''snapshots''] @ last"
      "f \<in> {\<lambda>vs. GatewayHandler_Claim svc (vs ! 0), \<lambda>vs. GatewayHandler_Ack svc rc (vs ! 0) (vs ! 1),
         \<lambda>vs. GatewayHandler_Retry svc rc (vs ! 0) (vs ! 1)}"
  using assms
  by (auto simp: NewMux_def auth_routes_def device_routes_def region_routes_def gateway_routes_def
      split: option.splits list.splits prod.splits)

lemma routed_responds:
  assumes "(pm, ps, f) \<in> set (NewMux rc auth devs hc gws)" "f vs e r w s = (w', s')" "fresh w"
  shows "responds w w'"
  using assms(1)
  by (cases rule: NewMux_cases) (use assms(2,3) in \<open>auto dest: handlers_respond\<close>)

lemma mux_responds:
  assumes "mux_serve (NewMux rc auth devs hc gws) e r w s = (w', s')" "fresh w"
  shows "responds w w'"
  using assms(1)
proof (cases rule: mux_serve_cases)
  case routed
  then show ?thesis using assms(2) by (auto dest: routed_responds)
qed (use assms(2) in \<open>simp_all add: responds_mux\<close>)

text \<open>The writer the handlers get from \<open>securityHeaders\<close>.\<close>

definition secured :: "server_request \<Rightarrow> writer" where
  "secured r =
     (let w = header_set ''Cache-Control'' ''no-store'' (header_set ''Referrer-Policy'' ''no-referrer''
                (header_set ''X-Content-Type-Options'' ''nosniff'' new_writer))
      in if sr_TLS r \<noteq> None
         then header_set ''Strict-Transport-Security'' ''max-age=31536000; includeSubDomains'' w else w)"

lemma serve_NewServer: "serve (NewServer address h) e r s = h e r (secured r) s"
  by (simp add: serve_def NewServer_def securityHeaders_def secured_def Let_def)

lemma secured_writer:
  "fresh (secured r)" "public_writer (secured r)"
  "w_Header (secured r) ''X-Content-Type-Options'' = Some ''nosniff''"
  "w_Header (secured r) ''Referrer-Policy'' = Some ''no-referrer''"
  "w_Header (secured r) ''Cache-Control'' = Some ''no-store''"
  "w_Header (secured r) ''Strict-Transport-Security'' =
     (if sr_TLS r = None then None else Some ''max-age=31536000; includeSubDomains'')"
  by (simp_all add: secured_def Let_def new_writer_def fresh_def public_writer_def header_set_def)

text \<open>
  C15: Every request gets exactly one response and it is well formed: its status is one the
  program knows, its body fits the status (a problem names the status that was sent), and it
  carries the security headers, with strict transport security exactly on TLS. This holds for
  every request and whatever services are behind the server.
\<close>

theorem every_response_is_well_formed:
  "let w = fst (serve (NewServer address (mux_serve (NewMux rc auth devs hc gws))) e r s) in
     \<exists>status h. w_Sent w = Some (status, h) \<and> status \<in> set statuses \<and> body_fits status (w_Body w)
       \<and> h ''X-Content-Type-Options'' = Some ''nosniff'' \<and> h ''Referrer-Policy'' = Some ''no-referrer''
       \<and> h ''Cache-Control'' = Some ''no-store''
       \<and> h ''Strict-Transport-Security'' =
           (if sr_TLS r = None then None else Some ''max-age=31536000; includeSubDomains'')"
proof -
  obtain w s' where mux: "mux_serve (NewMux rc auth devs hc gws) e r (secured r) s = (w, s')" by fastforce
  from mux_responds [OF mux secured_writer(1)] secured_writer(3-6) [of r] show ?thesis
    by (auto simp: serve_NewServer mux responds_def free_headers_def split: option.splits)
qed

lemma routed_access:
  assumes "(pm, ps, f) \<in> set (NewMux rc auth devs hc gws)"
    and "match_segments ps (path_segments (sr_Path r)) = Some vs" "method_matches pm (sr_Method r)"
    and "f vs e r w s = (w', s')" "public_writer w"
  shows "s' = s \<and> public_writer w' \<or> account_request r \<and> acts_as_visitor auth e s s'
     \<or> (\<exists>u. token_of auth e r s u \<and> acts_as_user auth devs e u s s')
     \<or> (\<exists>g rest. gatewayIdentity r = Some g
          \<and> map mux_unescape (path_segments (sr_Path r)) = [''v1'', ''agent'', ''gateways'', g] @ rest
          \<and> acts_as_gateway gws e g s s')"
  using assms(1)
proof (cases rule: NewMux_cases)
  case health
  with assms(4,5) show ?thesis
    by (auto simp: health_handler_def ready_handler_def split: if_splits option.splits)
next
  case (account au)
  with assms(2,3) have "account_request r"
    by (auto simp: account_request_def match_segments_iff method_matches_def)
  moreover have "s' = s \<and> public_writer w' \<or> acts_as_visitor auth e s s'"
    using account(3) assms(4,5) visitor_handlers_act unfolding account(1) by fast
  ultimately show ?thesis by blast
next
  case logout
  with assms(4,5) user_handlers_act(1) show ?thesis by fast
next
  case device
  with assms(4,5) user_handlers_act(2-5) show ?thesis by fast
next
  case region
  with assms(4,5) user_handlers_act(6) show ?thesis by fast
next
  case (gateway svc rest last)
  then obtain g us ys where path: "map mux_unescape (path_segments (sr_Path r)) = [''v1'', ''agent'', ''gateways'', g] @ ys"
    and vs: "vs ! 0 = g"
    using assms(2) by (auto simp: match_segments_iff)
  have "s' = s \<and> public_writer w' \<or> gatewayIdentity r = Some (vs ! 0) \<and> acts_as_gateway gws e (vs ! 0) s s'"
    using gateway(3) assms(4,5) gateway_handlers_act [where rest = rest] unfolding gateway(1) by fast
  with path vs show ?thesis by blast
qed

lemma mux_access:
  assumes "mux_serve (NewMux rc auth devs hc gws) e r w s = (w', s')" "public_writer w"
  shows "s' = s \<and> public_writer w' \<or> account_request r \<and> acts_as_visitor auth e s s'
     \<or> (\<exists>u. token_of auth e r s u \<and> acts_as_user auth devs e u s s')
     \<or> (\<exists>g rest. gatewayIdentity r = Some g
          \<and> map mux_unescape (path_segments (sr_Path r)) = [''v1'', ''agent'', ''gateways'', g] @ rest
          \<and> acts_as_gateway gws e g s s')"
  using assms(1)
proof (cases rule: mux_serve_cases)
  case (routed pm ps f vs)
  from routed_access [OF routed assms(2)] show ?thesis .
qed (simp_all add: assms(2))

text \<open>
  C14: Access control is complete. A request changes nothing and sees nothing but problems and
  the health of the service, unless it registers, logs in or refreshes, or carries a valid
  access token and then acts as the user of that token only, or comes over mutual TLS from the
  gateway its path names and then acts as that gateway only. This holds for every request,
  also for paths with escapes, and whatever services are behind the server.
\<close>

theorem access_control_complete:
  "case serve (NewServer address (mux_serve (NewMux rc auth devs hc gws))) e r s of (w, s') \<Rightarrow>
       s' = s \<and> public_writer w
     \<or> account_request r \<and> acts_as_visitor auth e s s'
     \<or> (\<exists>u. token_of auth e r s u \<and> acts_as_user auth devs e u s s')
     \<or> (\<exists>g rest. gatewayIdentity r = Some g
          \<and> map mux_unescape (path_segments (sr_Path r)) = [''v1'', ''agent'', ''gateways'', g] @ rest
          \<and> acts_as_gateway gws e g s s')"
proof -
  obtain w s' where mux: "mux_serve (NewMux rc auth devs hc gws) e r (secured r) s = (w, s')" by fastforce
  from mux_access [OF this secured_writer(2)] show ?thesis
    unfolding serve_NewServer mux prod.case .
qed

end
