(* ===== verification/Go_Time.thy ===== *)
theory Go_Time
  imports Go_Strings
begin

text \<open>
  \<^verbatim>\<open>time.ParseDuration\<close>, which reads the intervals of the commands: a sign, then numbers with
  units, added up in 64-bit arithmetic with its checks for overflow. The one step in floating
  point, \<^verbatim>\<open>uint64(float64(f) * (float64(unit) / scale))\<close>, is the argument \<open>fmul\<close>.
\<close>

definition two63 :: nat where "two63 = 9223372036854775808"

fun leadingInt :: "nat \<Rightarrow> string \<Rightarrow> (nat \<times> string) option" where
  "leadingInt x [] = Some (x, [])"
| "leadingInt x (c # s) =
     (if \<not> is_digit c then Some (x, c # s)
      else if x > two63 div 10 then None
      else let y = 10 * x + digit_val c in if y > two63 then None else leadingInt y s)"

fun leadingFraction :: "nat \<Rightarrow> nat \<Rightarrow> bool \<Rightarrow> string \<Rightarrow> nat \<times> nat \<times> string" where
  "leadingFraction x scale overflow [] = (x, scale, [])"
| "leadingFraction x scale overflow (c # s) =
     (if \<not> is_digit c then (x, scale, c # s)
      else if overflow then leadingFraction x scale True s
      else if x > (two63 - 1) div 10 then leadingFraction x scale True s
      else let y = 10 * x + digit_val c
           in if y > two63 then leadingFraction x scale True s
              else leadingFraction y (10 * scale) False s)"

definition unitMap :: "string \<Rightarrow> nat option" where
  "unitMap u =
     (if u = ''ns'' then Some 1
      else if u = ''us'' \<or> u = [CHR 0xC2, CHR 0xB5, CHR ''s''] \<or> u = [CHR 0xCE, CHR 0xBC, CHR ''s'']
        then Some 1000
      else if u = ''ms'' then Some 1000000
      else if u = ''s'' then Some 1000000000
      else if u = ''m'' then Some 60000000000
      else if u = ''h'' then Some 3600000000000
      else None)"

definition unit_char :: "char \<Rightarrow> bool" where
  "unit_char c \<longleftrightarrow> c \<noteq> CHR ''.'' \<and> \<not> is_digit c"

text \<open>One number with its unit: its value in nanoseconds and the rest.\<close>

definition duration_item :: "(nat \<Rightarrow> nat \<Rightarrow> nat \<Rightarrow> nat) \<Rightarrow> string \<Rightarrow> (nat \<times> string) option" where
  "duration_item fmul s =
     (if s = [] \<or> unit_char (hd s) then None
      else case leadingInt 0 s of
        None \<Rightarrow> None
      | Some (v, s1) \<Rightarrow>
          let pre = (length s1 \<noteq> length s);
              dot = (s1 \<noteq> [] \<and> hd s1 = CHR ''.'');
              (f, scale, s2) = (if dot then leadingFraction 0 1 False (tl s1) else (0, 1, s1));
              post = (dot \<and> length s2 \<noteq> length (tl s1))
          in if \<not> pre \<and> \<not> post then None
             else let u = takeWhile unit_char s2; s3 = dropWhile unit_char s2
             in if u = [] then None
                else (case unitMap u of
                  None \<Rightarrow> None
                | Some unit \<Rightarrow>
                    if v > two63 div unit then None
                    else if f > 0 then
                      (let w = v * unit + fmul f unit scale in if w > two63 then None else Some (w, s3))
                    else Some (v * unit, s3)))"

lemma leadingInt_length: "leadingInt x s = Some (v, t) \<Longrightarrow> length t \<le> length s"
  by (induction x s rule: leadingInt.induct) (fastforce simp: Let_def split: if_splits)+

lemma leadingFraction_length: "leadingFraction x scale b s = (f, sc, t) \<Longrightarrow> length t \<le> length s"
  by (induction x scale b s rule: leadingFraction.induct) (fastforce simp: Let_def split: if_splits)+

lemma dropWhile_shorter: "takeWhile P s \<noteq> [] \<Longrightarrow> length (dropWhile P s) < length s"
  by (cases s) (auto simp: le_imp_less_Suc length_dropWhile_le split: if_splits)

lemma duration_item_shorter:
  assumes "duration_item fmul s = Some (v, t)"
  shows "length t < length s"
proof -
  obtain v1 s1 f scale s2 where int: "leadingInt 0 s = Some (v1, s1)"
    and frac: "(if s1 \<noteq> [] \<and> hd s1 = CHR ''.'' then leadingFraction 0 1 False (tl s1) else (0, 1, s1)) = (f, scale, s2)"
    and unit: "takeWhile unit_char s2 \<noteq> []" "t = dropWhile unit_char s2"
    using assms by (auto simp: duration_item_def Let_def split: if_splits option.splits prod.splits)
  have "length s2 \<le> length s1"
    using frac leadingFraction_length [of 0 1 False "tl s1"] by (auto split: if_splits)
  with leadingInt_length [OF int] dropWhile_shorter [OF unit(1)] unit(2) show ?thesis by simp
qed

function duration_items :: "(nat \<Rightarrow> nat \<Rightarrow> nat \<Rightarrow> nat) \<Rightarrow> nat \<Rightarrow> string \<Rightarrow> nat option" where
  "duration_items fmul d s =
     (if s = [] then Some d
      else case duration_item fmul s of
        None \<Rightarrow> None
      | Some (v, t) \<Rightarrow>
          let d1 = (d + v) mod (2 * two63) in if d1 > two63 then None else duration_items fmul d1 t)"
  by pat_completeness auto

termination
  by (relation "measure (\<lambda>(fmul, d, s). length s)") (auto dest: duration_item_shorter)

declare duration_items.simps [simp del]

definition parseDuration :: "(nat \<Rightarrow> nat \<Rightarrow> nat \<Rightarrow> nat) \<Rightarrow> string \<Rightarrow> duration option" where
  "parseDuration fmul s =
     (let neg = (s \<noteq> [] \<and> hd s = CHR ''-'');
          s1 = (if s \<noteq> [] \<and> (hd s = CHR ''-'' \<or> hd s = CHR ''+'') then tl s else s)
      in if s1 = ''0'' then Some 0
         else if s1 = [] then None
         else case duration_items fmul 0 s1 of
           None \<Rightarrow> None
         | Some d \<Rightarrow> if neg then Some (- int d) else if d > two63 - 1 then None else Some (int d))"

text \<open>A parsed duration is a 64-bit number.\<close>

lemma duration_items_bound:
  assumes "duration_items fmul d s = Some n" "d \<le> two63"
  shows "n \<le> two63"
  using assms
  by (induction fmul d s rule: duration_items.induct)
     (subst (asm) duration_items.simps, auto simp: Let_def split: if_splits option.splits prod.splits)

lemma parseDuration_int64:
  assumes "parseDuration fmul s = Some t"
  shows "- (2 ^ 63) \<le> t" and "t < 2 ^ 63"
  using assms duration_items_bound [of fmul 0]
  by (fastforce simp: parseDuration_def Let_def two63_def split: if_splits option.splits)+

end
