(* ===== verification/WireGuard.thy ===== *)
theory WireGuard
  imports Snapshot
begin

text \<open>
  Applying operations to the WireGuard interface, \<^verbatim>\<open>internal/agent/wireguard.go\<close>. The command
  runner is an interface (\<^verbatim>\<open>CommandRunner\<close>): a function from a program name, its arguments and
  the state \<open>'k\<close> of the kernel to an error and the new state. What \<^verbatim>\<open>wg set\<close> does to the table
  of allowed addresses is documented behaviour of WireGuard, stated as the hypothesis
  \<open>wg_kernel\<close>: setting the addresses of one peer takes them away from every other.
\<close>

type_synonym 'k runner = "string \<Rightarrow> string list \<Rightarrow> 'k \<Rightarrow> error option \<times> 'k"

record 'k WireGuardBackend =
  InterfaceName :: string
  Runner :: "'k runner option"

definition name_char :: "char \<Rightarrow> bool" where
  "name_char c \<longleftrightarrow> (CHR ''a'' \<le> c \<and> c \<le> CHR ''z'') \<or> (CHR ''A'' \<le> c \<and> c \<le> CHR ''Z'')
     \<or> (CHR ''0'' \<le> c \<and> c \<le> CHR ''9'') \<or> c = CHR ''_'' \<or> c = CHR ''-''"

definition sanitizeInterfaceName :: "string \<Rightarrow> string" where
  "sanitizeInterfaceName v = (if list_all name_char v then v else [])"

definition operationArguments :: "string \<Rightarrow> Operation \<Rightarrow> string list result" where
  "operationArguments interfaceName operation =
     (if interfaceName = '''' \<or> interfaceName \<noteq> sanitizeInterfaceName interfaceName
      then Inl ErrInvalidOperation
      else if \<not> validPublicKey (peer_PublicKey (op_Peer operation)) then Inl ErrInvalidOperation
      else if op_Kind operation = OperationRemove then
        (if peer_IPv4 (op_Peer operation) \<noteq> '''' \<or> peer_IPv6 (op_Peer operation) \<noteq> ''''
         then Inl ErrInvalidOperation
         else Inr [''set'', interfaceName, ''peer'', peer_PublicKey (op_Peer operation), ''remove''])
      else if op_Kind operation = OperationAdd \<or> op_Kind operation = OperationUpdate then
        (if \<not> validHostPrefix (peer_IPv4 (op_Peer operation)) 4
            \<or> \<not> validHostPrefix (peer_IPv6 (op_Peer operation)) 6
         then Inl ErrInvalidOperation
         else Inr [''set'', interfaceName, ''peer'', peer_PublicKey (op_Peer operation),
                ''allowed-ips'', peer_IPv4 (op_Peer operation) @ '','' @ peer_IPv6 (op_Peer operation)])
      else Inl ErrInvalidOperation)"

text \<open>The loop of \<^verbatim>\<open>Apply\<close>: it stops at the first operation that fails.\<close>

fun apply_loop :: "string \<Rightarrow> 'k runner \<Rightarrow> Operation list \<Rightarrow> 'k \<Rightarrow> error option \<times> 'k" where
  "apply_loop interfaceName run [] k = (None, k)"
| "apply_loop interfaceName run (operation # rest) k =
     (case operationArguments interfaceName operation of
        Inl err \<Rightarrow> (Some err, k)
      | Inr args \<Rightarrow>
          (case run ''wg'' args k of
             (Some err, k1) \<Rightarrow>
               (Some (Wrapped (''apply WireGuard operation '' @ op_Kind operation) err), k1)
           | (None, k1) \<Rightarrow> apply_loop interfaceName run rest k1))"

definition Apply :: "'k WireGuardBackend \<Rightarrow> Operation list \<Rightarrow> 'k \<Rightarrow> error option \<times> 'k" where
  "Apply b operations k =
     (case Runner b of
        None \<Rightarrow> (Some ErrInvalidOperation, k)
      | Some run \<Rightarrow>
          if InterfaceName b = '''' \<or> length operations > maxPeersPerSnapshot
          then (Some ErrInvalidOperation, k)
          else apply_loop (InterfaceName b) run operations k)"

section \<open>The arguments\<close>

definition good_interface :: "string \<Rightarrow> bool" where
  "good_interface v \<longleftrightarrow> v \<noteq> '''' \<and> list_all name_char v"

lemma sanitize_fixed: "v \<noteq> '''' \<and> v = sanitizeInterfaceName v \<longleftrightarrow> good_interface v"
  by (auto simp: sanitizeInterfaceName_def good_interface_def)

text \<open>The operations \<open>operationArguments\<close> accepts, and the command line of each.\<close>

definition good_op :: "Operation \<Rightarrow> bool" where
  "good_op x \<longleftrightarrow> validPublicKey (peer_PublicKey (op_Peer x))
     \<and> (if op_Kind x = OperationRemove then peer_IPv4 (op_Peer x) = '''' \<and> peer_IPv6 (op_Peer x) = ''''
        else op_Kind x \<in> {OperationAdd, OperationUpdate} \<and> valid_peer (op_Peer x))"

definition op_args :: "string \<Rightarrow> Operation \<Rightarrow> string list" where
  "op_args interfaceName x =
     [''set'', interfaceName, ''peer'', peer_PublicKey (op_Peer x)] @
     (if op_Kind x = OperationRemove then [''remove'']
      else [''allowed-ips'', peer_IPv4 (op_Peer x) @ '','' @ peer_IPv6 (op_Peer x)])"

lemma operationArguments_Inr:
  "operationArguments interfaceName x = Inr args \<longleftrightarrow>
     good_interface interfaceName \<and> good_op x \<and> args = op_args interfaceName x"
  unfolding operationArguments_def good_op_def op_args_def sanitize_fixed [symmetric] valid_peer_def
  by auto

lemma operationArguments_Inl:
  "operationArguments interfaceName x = Inl err \<Longrightarrow> err = ErrInvalidOperation"
  by (auto simp: operationArguments_def split: if_splits)

text \<open>Every operation of a difference between valid snapshots is accepted.\<close>

lemma needed_ops_good:
  assumes "valid_peers ps" "keyed ob" "\<And>k p. ob k = Some p \<Longrightarrow> validPublicKey k"
    and "x \<in> needed_ops (peers_by_key ps) ob"
  shows "good_op x"
proof -
  from assms(4) obtain k where k: "x \<in> set (needed_op (peers_by_key ps) ob k)"
    by (auto simp: needed_ops_def)
  have "valid_peer p \<and> peer_PublicKey p = k" if "peers_by_key ps k = Some p" for p
    using peers_by_key_key [OF that] assms(1) by (auto simp: valid_peers_def)
  with k assms(3) [of k] show ?thesis
    by (cases "ob k") (auto simp: needed_op_cases [OF keyed_peers_by_key assms(2)] good_op_def valid_peer_def no_peer_def
        split: option.splits if_splits)
qed

section \<open>The kernel\<close>

text \<open>The addresses of a peer, and what \<^verbatim>\<open>wg set\<close> does to the table of a kernel.\<close>

definition prefixes_of :: "Peer \<Rightarrow> addr_prefix set" where
  "prefixes_of p = {q. parsePrefix (peer_IPv4 p) = Some q \<or> parsePrefix (peer_IPv6 p) = Some q}"

definition wg_kernel :: "'k runner \<Rightarrow> ('k \<Rightarrow> string \<rightharpoonup> addr_prefix set) \<Rightarrow> string \<Rightarrow> bool" where
  "wg_kernel run allowed interfaceName \<longleftrightarrow>
     (\<forall>key v4 v6 a b k k'. parsePrefix v4 = Some a \<longrightarrow> parsePrefix v6 = Some b \<longrightarrow>
        run ''wg'' [''set'', interfaceName, ''peer'', key, ''allowed-ips'', v4 @ '','' @ v6] k = (None, k') \<longrightarrow>
        allowed k' = (\<lambda>j. if j = key then Some {a, b} else map_option (\<lambda>S. S - {a, b}) (allowed k j)))
   \<and> (\<forall>key k k'. run ''wg'' [''set'', interfaceName, ''peer'', key, ''remove''] k = (None, k') \<longrightarrow>
        allowed k' = (allowed k)(key := None))"

definition op_effect :: "Operation \<Rightarrow> (string \<rightharpoonup> addr_prefix set) \<Rightarrow> (string \<rightharpoonup> addr_prefix set)" where
  "op_effect x m =
     (if op_Kind x = OperationRemove then m(op_key x := None)
      else (\<lambda>j. if j = op_key x then Some (prefixes_of (op_Peer x))
                else map_option (\<lambda>S. S - prefixes_of (op_Peer x)) (m j)))"

lemma valid_peer_prefixes:
  assumes "valid_peer p"
  obtains a b where "parsePrefix (peer_IPv4 p) = Some a" "parsePrefix (peer_IPv6 p) = Some b"
    "prefixes_of p = {a, b}"
  using assms by (auto simp: valid_peer_def validHostPrefix_def prefixes_of_def split: option.splits)

lemma wg_kernel_op:
  assumes "wg_kernel run allowed i" "good_op x" "run ''wg'' (op_args i x) k = (None, k')"
  shows "allowed k' = op_effect x (allowed k)"
proof (cases "op_Kind x = OperationRemove")
  case True
  with assms show ?thesis by (simp add: wg_kernel_def op_args_def op_effect_def)
next
  case False
  with assms(2) have "valid_peer (op_Peer x)" by (simp add: good_op_def)
  then obtain a b where ab: "parsePrefix (peer_IPv4 (op_Peer x)) = Some a"
    "parsePrefix (peer_IPv6 (op_Peer x)) = Some b" "prefixes_of (op_Peer x) = {a, b}"
    by (rule valid_peer_prefixes)
  have "run ''wg'' [''set'', i, ''peer'', op_key x, ''allowed-ips'',
      peer_IPv4 (op_Peer x) @ '','' @ peer_IPv6 (op_Peer x)] k = (None, k')"
    using assms(3) False by (simp add: op_args_def)
  with assms(1) ab(1,2) have "allowed k' = (\<lambda>j. if j = op_key x then Some {a, b}
      else map_option (\<lambda>S. S - {a, b}) (allowed k j))"
    unfolding wg_kernel_def by blast
  moreover have "op_effect x m = (\<lambda>j. if j = op_key x then Some {a, b}
      else map_option (\<lambda>S. S - {a, b}) (m j))" for m
    unfolding op_effect_def ab(3) [symmetric] using False by simp
  ultimately show ?thesis by simp
qed

lemma apply_loop_effect:
  assumes "wg_kernel run allowed i" "apply_loop i run xs k = (None, k')"
  shows "allowed k' = fold op_effect xs (allowed k)"
  using assms(2)
proof (induction xs arbitrary: k)
  case (Cons x xs)
  from Cons.prems obtain args k1 where a: "operationArguments i x = Inr args"
    "run ''wg'' args k = (None, k1)" "apply_loop i run xs k1 = (None, k')"
    by (auto split: sum.splits prod.splits option.splits)
  from a(1) have "good_op x" "args = op_args i x" by (simp_all add: operationArguments_Inr)
  with wg_kernel_op [OF assms(1)] a(2) have "allowed k1 = op_effect x (allowed k)" by blast
  with Cons.IH [OF a(3)] show ?case by simp
qed simp

text \<open>
  The table after a difference was applied: every key with an operation left to apply aside,
  it is the desired one. Addresses taken away from other peers are never addresses of a
  desired peer that is already in place, because no two desired peers share one.
\<close>

definition unambiguous :: "Peer list \<Rightarrow> bool" where
  "unambiguous ps \<longleftrightarrow> (\<forall>p\<in>set ps. \<forall>q\<in>set ps. p \<noteq> q \<longrightarrow> prefixes_of p \<inter> prefixes_of q = {})"

abbreviation table_of :: "(string \<rightharpoonup> Peer) \<Rightarrow> (string \<rightharpoonup> addr_prefix set)" where
  "table_of m \<equiv> (\<lambda>key. map_option prefixes_of (m key))"

lemma fold_op_effect:
  assumes "unambiguous ps"
    and "\<And>x. x \<in> set xs \<Longrightarrow>
      peers_by_key ps (op_key x) = (if op_Kind x = OperationRemove then None else Some (op_Peer x))"
    and "\<And>k. k \<notin> op_key ` set xs \<Longrightarrow> m k = table_of (peers_by_key ps) k"
  shows "fold op_effect xs m = table_of (peers_by_key ps)"
  using assms(2,3)
proof (induction xs arbitrary: m)
  case (Cons x xs)
  note x = Cons.prems(1) [of x, simplified]
  have "op_effect x m k = table_of (peers_by_key ps) k" if k: "k \<notin> op_key ` set xs" for k
  proof (cases "k = op_key x")
    case True
    with x show ?thesis by (auto simp: op_effect_def)
  next
    case False
    with k Cons.prems(2) have m: "m k = table_of (peers_by_key ps) k" by simp
    have "S - prefixes_of (op_Peer x) = S"
      if "op_Kind x \<noteq> OperationRemove" "table_of (peers_by_key ps) k = Some S" for S
    proof -
      from that(2) obtain q where q: "peers_by_key ps k = Some q" "S = prefixes_of q" by auto
      from that(1) x have "peers_by_key ps (op_key x) = Some (op_Peer x)" by simp
      with peers_by_key_key [OF this] peers_by_key_key [OF q(1)] False
      have "op_Peer x \<in> set ps" "q \<in> set ps" "op_Peer x \<noteq> q" by auto
      with assms(1) have "prefixes_of (op_Peer x) \<inter> prefixes_of q = {}" by (simp add: unambiguous_def)
      with q show ?thesis by blast
    qed
    with m False show ?thesis
      by (cases "table_of (peers_by_key ps) k") (auto simp: op_effect_def)
  qed
  with Cons.IH Cons.prems(1) show ?case by simp
qed auto

lemma Diff_op_desired:
  assumes "keyed ob" "x \<in> needed_ops (peers_by_key ps) ob"
  shows "peers_by_key ps (op_key x) = (if op_Kind x = OperationRemove then None else Some (op_Peer x))"
proof -
  from assms(2) obtain k where k: "x \<in> set (needed_op (peers_by_key ps) ob k)"
    by (auto simp: needed_ops_def)
  note key = needed_op_key [OF keyed_peers_by_key assms(1) k]
  show ?thesis
    unfolding key using k
    by (auto simp: needed_op_cases [OF keyed_peers_by_key assms(1)] split: option.splits if_splits)
qed

lemma Diff_no_op:
  assumes "keyed ob" "k \<notin> op_key ` needed_ops (peers_by_key ps) ob"
  shows "ob k = peers_by_key ps k"
proof -
  have "needed_op (peers_by_key ps) ob k = []"
  proof (rule ccontr)
    assume "needed_op (peers_by_key ps) ob k \<noteq> []"
    then obtain x where "x \<in> set (needed_op (peers_by_key ps) ob k)" by (meson list.set_sel(1))
    with assms(2) needed_op_key [OF keyed_peers_by_key assms(1) this] show False
      by (auto simp: needed_ops_def image_iff)
  qed
  then show ?thesis
    by (auto simp: needed_op_cases [OF keyed_peers_by_key assms(1)] split: option.splits if_splits)
qed

lemma Apply_None:
  "Apply b xs k = (None, k') \<Longrightarrow>
     \<exists>run. Runner b = Some run \<and> apply_loop (InterfaceName b) run xs k = (None, k')"
  by (auto simp: Apply_def split: option.splits if_splits)

lemma Diff_then_apply:
  assumes kernel: "\<And>run. Runner b = Some run \<Longrightarrow> wg_kernel run allowed (InterfaceName b)"
    and diff: "Diff o1 o2 desired ob = Inr xs" "keyed ob"
      "iter_order (peers_by_key (snap_Peers desired)) o1" "iter_order ob o2"
    and un: "unambiguous (snap_Peers desired)"
    and start: "allowed k = table_of ob" and applied: "Apply b xs k = (None, k')"
  shows "allowed k' = table_of (peers_by_key (snap_Peers desired))"
proof -
  note d = Diff_Inr [OF diff]
  from Apply_None [OF applied] obtain run where run: "Runner b = Some run"
    "apply_loop (InterfaceName b) run xs k = (None, k')" by blast
  have "allowed k' = fold op_effect xs (allowed k)"
    by (rule apply_loop_effect [OF kernel [OF run(1)] run(2)])
  also have "\<dots> = table_of (peers_by_key (snap_Peers desired))"
  proof (rule fold_op_effect [OF un])
    fix x assume "x \<in> set xs"
    with Diff_op_desired [OF diff(2)] show "peers_by_key (snap_Peers desired) (op_key x) =
        (if op_Kind x = OperationRemove then None else Some (op_Peer x))"
      by (simp add: d(2))
  next
    fix j assume "j \<notin> op_key ` set xs"
    with Diff_no_op [OF diff(2)] have "ob j = peers_by_key (snap_Peers desired) j" by (simp add: d(2))
    with start show "allowed k j = table_of (peers_by_key (snap_Peers desired)) j" by simp
  qed
  finally show ?thesis .
qed

text \<open>How far the loop of \<open>Apply\<close> gets.\<close>

lemma apply_loop_trace:
  assumes "good_interface i" "apply_loop i run xs k = (r, k')"
  shows "\<exists>done_ops rest k1. xs = done_ops @ rest \<and> (\<forall>x\<in>set done_ops. good_op x)
    \<and> foldl (\<lambda>(e, k) x. if e = None then run ''wg'' (op_args i x) k else (e, k)) (None, k) done_ops
        = (None, k1)
    \<and> (case rest of
         [] \<Rightarrow> r = None \<and> k' = k1
       | x # _ \<Rightarrow>
           if good_op x
           then \<exists>err. run ''wg'' (op_args i x) k1 = (Some err, k')
                 \<and> r = Some (Wrapped (''apply WireGuard operation '' @ op_Kind x) err)
           else r = Some ErrInvalidOperation \<and> k' = k1)"
  using assms(2)
proof (induction xs arbitrary: k)
  case Nil
  then show ?case by simp
next
  case (Cons x xs)
  show ?case
  proof (cases "operationArguments i x")
    case (Inl err)
    with Cons.prems have "r = Some ErrInvalidOperation" "k' = k" "\<not> good_op x"
      using operationArguments_Inl [OF Inl] operationArguments_Inr [of i x "op_args i x"] assms(1)
      by auto
    then show ?thesis by (intro exI [of _ "[]"] exI [of _ "x # xs"] exI [of _ k]) simp
  next
    case (Inr args)
    then have x: "good_op x" "args = op_args i x" by (simp_all add: operationArguments_Inr)
    obtain e k1 where k1: "run ''wg'' args k = (e, k1)" by fastforce
    show ?thesis
    proof (cases e)
      case (Some err)
      with Cons.prems Inr k1 have "r = Some (Wrapped (''apply WireGuard operation '' @ op_Kind x) err)"
        "k' = k1" by simp_all
      with Some x k1 show ?thesis by (intro exI [of _ "[]"] exI [of _ "x # xs"] exI [of _ k]) simp
    next
      case None
      with Cons.prems Inr k1 have "apply_loop i run xs k1 = (r, k')" by simp
      from Cons.IH [OF this] obtain d rest k2 where d: "xs = d @ rest" "\<forall>x\<in>set d. good_op x"
        "foldl (\<lambda>(e, k) x. if e = None then run ''wg'' (op_args i x) k else (e, k)) (None, k1) d
          = (None, k2)"
        "case rest of [] \<Rightarrow> r = None \<and> k' = k2
         | x # _ \<Rightarrow> if good_op x
             then \<exists>err. run ''wg'' (op_args i x) k2 = (Some err, k')
                   \<and> r = Some (Wrapped (''apply WireGuard operation '' @ op_Kind x) err)
             else r = Some ErrInvalidOperation \<and> k' = k2"
        by blast
      with x k1 None show ?thesis
        by (intro exI [of _ "x # d"] exI [of _ rest] exI [of _ k2]) simp
    qed
  qed
qed

section \<open>A kernel for the witnesses\<close>

text \<open>The documented behaviour of \<^verbatim>\<open>wg set\<close>, on the table itself.\<close>

fun toy_wg :: "(string \<rightharpoonup> addr_prefix set) runner" where
  "toy_wg prog [_, _, _, key, _] m = (None, m(key := None))"
| "toy_wg prog [_, _, _, key, _, ips] m =
     (case splitOn CHR '','' ips of
        [v4, v6] \<Rightarrow>
          (case (parsePrefix v4, parsePrefix v6) of
             (Some a, Some b) \<Rightarrow>
               (None, \<lambda>j. if j = key then Some {a, b} else map_option (\<lambda>S. S - {a, b}) (m j))
           | _ \<Rightarrow> (Some (ErrText ''exit status 1''), m))
      | _ \<Rightarrow> (Some (ErrText ''exit status 1''), m))"
| "toy_wg prog _ m = (Some (ErrText ''exit status 1''), m)"

lemma length_splitOn: "length (splitOn c s) = Suc (count_list s c)"
  by (induction c s rule: splitOn.induct) (auto split: list.splits)

lemma split_pair: "splitOn c (v @ c # w) = [x, y] \<Longrightarrow> x = v \<and> y = w"
proof -
  assume s: "splitOn c (v @ c # w) = [x, y]"
  then have "count_list v c + count_list w c = 0"
    using length_splitOn [of c "v @ c # w"] by simp
  then have "c \<notin> set v" "c \<notin> set w" by (simp_all add: count_list_0_iff)
  with s show "x = v \<and> y = w" by (simp add: splitOn_append splitOn_none)
qed

lemma toy_wg_kernel: "wg_kernel toy_wg (\<lambda>m. m) i"
proof -
  have "k' = (\<lambda>j. if j = key then Some {a, b} else map_option (\<lambda>S. S - {a, b}) (k j))"
    if "parsePrefix v4 = Some a" "parsePrefix v6 = Some b"
      "toy_wg ''wg'' [''set'', i, ''peer'', key, ''allowed-ips'', v4 @ '','' @ v6] k = (None, k')"
    for key v4 v6 a b k k'
  proof -
    from that(3) obtain x y where xy: "splitOn CHR '','' (v4 @ CHR '','' # v6) = [x, y]"
      by (auto split: list.splits)
    with split_pair have "x = v4" "y = v6" by blast+
    with that xy show ?thesis by simp
  qed
  then show ?thesis by (simp add: wg_kernel_def)
qed

definition sample_backend :: "(string \<rightharpoonup> addr_prefix set) WireGuardBackend" where
  "sample_backend = \<lparr>InterfaceName = ''wg0'', Runner = Some toy_wg\<rparr>"

lemma sample_ops_good: "x \<in> set sample_ops \<Longrightarrow> good_op x"
  by (auto simp: sample_ops_def good_op_def sample_peer_valid sample_prefixes no_peer_def
      validPublicKey_iff intro!: exI [of _ "replicate 32 _"])

lemma sample_apply: "\<exists>k'. Apply sample_backend sample_ops (table_of sample_observed) = (None, k')"
proof -
  have "good_interface ''wg0''" by code_simp
  then have a: "operationArguments ''wg0'' x = Inr (op_args ''wg0'' x)" if "x \<in> set sample_ops" for x
    using sample_ops_good [OF that] by (simp add: operationArguments_Inr)
  have s: "splitOn CHR '','' ''10.0.0.2/32,fd00::2/128'' = [''10.0.0.2/32'', ''fd00::2/128'']"
    "splitOn CHR '','' ''10.0.0.3/32,fd00::3/128'' = [''10.0.0.3/32'', ''fd00::3/128'']"
    by code_simp+
  obtain a1 a2 b1 b2 where p: "parsePrefix ''10.0.0.2/32'' = Some a1" "parsePrefix ''10.0.0.3/32'' = Some a2"
    "parsePrefix ''fd00::2/128'' = Some b1" "parsePrefix ''fd00::3/128'' = Some b2"
    using sample_prefixes unfolding validHostPrefix_4 validHostPrefix_6 by blast
  show ?thesis
    using a by (simp add: Apply_def sample_backend_def maxPeersPerSnapshot_def sample_ops_def
        op_args_def no_peer_def s p)
qed

lemma sample_unambiguous: "unambiguous (snap_Peers sample_snapshot)"
proof -
  have "parsePrefix ''10.0.0.2/32'' \<noteq> parsePrefix ''10.0.0.3/32''"
    "parsePrefix ''fd00::2/128'' \<noteq> parsePrefix ''fd00::3/128''"
    "parsePrefix ''10.0.0.2/32'' \<noteq> parsePrefix ''fd00::3/128''"
    "parsePrefix ''fd00::2/128'' \<noteq> parsePrefix ''10.0.0.3/32''"
    by code_simp+
  then show ?thesis
    by (auto simp: unambiguous_def sample_snapshot_def prefixes_of_def)
qed

section \<open>Properties\<close>

text \<open>
  C33: Applying the difference brings WireGuard to the desired state: when the interface
  serves the observed peers and every command succeeds, it then serves exactly the peers of
  the snapshot with exactly their addresses, although setting the addresses of one peer
  takes them from another; the only condition is that no two desired peers share an address.
\<close>

theorem wireguard_reaches_desired:
  assumes "wg_kernel run allowed (InterfaceName b)" and "Runner b = Some run"
    and "Diff order1 order2 desired observed = Inr ops"
    and "\<And>k p. observed k = Some p \<Longrightarrow> peer_PublicKey p = k"
    and "iter_order (peers_by_key (snap_Peers desired)) order1" "iter_order observed order2"
    and "unambiguous (snap_Peers desired)" and "allowed k = table_of observed"
    and "Apply b ops k = (None, k')"
  shows "allowed k' = table_of (peers_by_key (snap_Peers desired))"
proof (rule Diff_then_apply [where allowed = allowed and k = k and k' = k', OF _ assms(3) _ assms(5-9)])
  show "keyed observed" using assms(4) by (simp add: keyed_def)
qed (use assms(1,2) in simp)

theorem wireguard_reaches_desired_witness:
  "\<exists>k'. Apply sample_backend sample_ops (table_of sample_observed) = (None, k')
     \<and> k' = table_of (peers_by_key (snap_Peers sample_snapshot))"
proof -
  obtain k' where k': "Apply sample_backend sample_ops (table_of sample_observed) = (None, k')"
    using sample_apply by blast
  have "keyed sample_observed" by (simp add: sample_observed_def)
  from wireguard_reaches_desired [OF toy_wg_kernel _ sample_diff keyedD [OF this] sample_orders(1,3)
      sample_unambiguous refl k'] k'
  show ?thesis by (simp add: sample_backend_def)
qed

text \<open>
  The backend runs nothing but \<^verbatim>\<open>wg set\<close> on its own interface, for one peer key at a
  time: whatever operations it is given, each command is of one of the two fixed forms, with
  a valid key and host prefixes. Applying stops at the first operation refused or failed, and
  what was run before it stays.
\<close>

theorem apply_runs_fixed_commands:
  assumes "Apply b ops k = (r, k')"
  shows "(r = Some ErrInvalidOperation \<and> k' = k)
     \<or> (\<exists>run done_ops rest k1. Runner b = Some run \<and> good_interface (InterfaceName b)
          \<and> ops = done_ops @ rest \<and> (\<forall>x\<in>set done_ops. good_op x)
          \<and> foldl (\<lambda>(e, k) x. if e = None then run ''wg'' (op_args (InterfaceName b) x) k else (e, k))
              (None, k) done_ops = (None, k1)
          \<and> (case rest of
               [] \<Rightarrow> r = None \<and> k' = k1
             | x # _ \<Rightarrow>
                 if good_op x
                 then \<exists>err. run ''wg'' (op_args (InterfaceName b) x) k1 = (Some err, k')
                       \<and> r = Some (Wrapped (''apply WireGuard operation '' @ op_Kind x) err)
                 else r = Some ErrInvalidOperation \<and> k' = k1))
     \<or> (ops = [] \<and> r = None \<and> k' = k)"
proof (cases "Runner b")
  case None
  with assms show ?thesis by (simp add: Apply_def)
next
  case run: (Some run)
  show ?thesis
  proof (cases "good_interface (InterfaceName b)")
    case False
    then have "operationArguments (InterfaceName b) x = Inl ErrInvalidOperation" for x
      using operationArguments_Inr [of "InterfaceName b" x] operationArguments_Inl [of "InterfaceName b" x]
      by (cases "operationArguments (InterfaceName b) x") auto
    with assms run show ?thesis
      by (cases ops) (auto simp: Apply_def split: if_splits)
  next
    case True
    with assms run apply_loop_trace [OF True, of run ops k r k'] show ?thesis
      by (fastforce simp: Apply_def split: if_splits)
  qed
qed

theorem apply_runs_fixed_commands_witness:
  "\<exists>r k'. Apply sample_backend (sample_ops @ [\<lparr>op_Kind = ''other'', op_Peer = no_peer\<rparr>])
      (table_of sample_observed) = (r, k') \<and> r \<noteq> None"
proof -
  obtain r k' where r: "Apply sample_backend (sample_ops @ [\<lparr>op_Kind = ''other'', op_Peer = no_peer\<rparr>])
      (table_of sample_observed) = (r, k')" by fastforce
  have bad: "\<not> good_op \<lparr>op_Kind = ''other'', op_Peer = no_peer\<rparr>" by (simp add: good_op_def)
  have "r \<noteq> None"
  proof
    assume "r = None"
    with apply_runs_fixed_commands [OF r] obtain run d rest k1
      where d: "sample_ops @ [\<lparr>op_Kind = ''other'', op_Peer = no_peer\<rparr>] = d @ rest"
        "\<forall>x\<in>set d. good_op x"
        and rest: "case rest of [] \<Rightarrow> r = None \<and> k' = k1
          | x # _ \<Rightarrow> if good_op x
              then \<exists>err. run ''wg'' (op_args (InterfaceName sample_backend) x) k1 = (Some err, k')
                    \<and> r = Some (Wrapped (''apply WireGuard operation '' @ op_Kind x) err)
              else r = Some ErrInvalidOperation \<and> k' = k1"
      by (elim disjE exE conjE) simp_all
    have "rest = []" using rest \<open>r = None\<close> by (cases rest) (auto split: if_splits)
    with d(1) have "\<lparr>op_Kind = ''other'', op_Peer = no_peer\<rparr> \<in> set d" by auto
    with d(2) bad show False by blast
  qed
  with r show ?thesis by blast
qed

end
