(* ===== verification/Worker.thy ===== *)
theory Worker
  imports Transport WireGuard
begin

text \<open>
  The gateway agent, \<^verbatim>\<open>internal/agent/worker.go\<close>: it claims a delivery, verifies the snapshot,
  applies the difference to the peers it believes are set and acknowledges. The source of
  deliveries acts on the state \<open>'n\<close> of the network and the applier on the state \<open>'k\<close> of the
  kernel. Clocks, JSON, Ed25519 and the iteration orders of Go maps are arguments
  (\<open>worker_env\<close>). The locale \<open>snapshot_applier\<close> is the contract of \<^verbatim>\<open>SnapshotApplier\<close>,
  interpreted on the WireGuard backend.
\<close>

type_synonym 'k applier = "Operation list \<Rightarrow> 'k \<Rightarrow> error option \<times> 'k"

record ('n, 'k) worker =
  Source :: "'n source_ops option"
  Applier :: "'k applier option"
  GatewayID :: string
  VerifyKey :: string
  Current :: Snapshot
  CurrentPeers :: "string \<rightharpoonup> Peer"

record worker_env =
  we_marshal :: "Snapshot \<Rightarrow> string result"
  we_unmarshal :: "string \<Rightarrow> Snapshot result"
  we_verify :: "string \<Rightarrow> string \<Rightarrow> string \<Rightarrow> bool"
  we_now :: time
  we_retryNow :: time
  we_order1 :: "(string \<rightharpoonup> Peer) \<Rightarrow> string list"
  we_order2 :: "(string \<rightharpoonup> Peer) \<Rightarrow> string list"

text \<open>\<^verbatim>\<open>retry\<close>: the cause is reported to the source and returned, unless reporting fails.\<close>

definition worker_retry ::
  "worker_env \<Rightarrow> 'n source_ops \<Rightarrow> Delivery \<Rightarrow> error \<Rightarrow> 'n \<Rightarrow> error option \<times> 'n" where
  "worker_retry env source delivery cause n =
     (case src_Retry source (del_ID delivery) (we_retryNow env + minute) (error_text cause) n of
        (Some err, n1) \<Rightarrow> (Some err, n1)
      | (None, n1) \<Rightarrow> (Some cause, n1))"

definition ApplyOnce ::
  "worker_env \<Rightarrow> ('n, 'k) worker \<Rightarrow> 'n \<Rightarrow> 'k \<Rightarrow> error option \<times> ('n, 'k) worker \<times> 'n \<times> 'k" where
  "ApplyOnce env w n k =
     (case (Source w, Applier w) of
        (Some source, Some applier) \<Rightarrow>
          if GatewayID w = '''' \<or> length (VerifyKey w) \<noteq> 32 then (Some ErrInvalidOperation, w, n, k)
          else (case src_Claim source n of
            (Inl err, n1) \<Rightarrow> (Some err, w, n1, k)
          | (Inr delivery, n1) \<Rightarrow>
          (case we_unmarshal env (del_Payload delivery) of
            Inl err \<Rightarrow>
              let (r, n2) = worker_retry env source delivery (Wrapped ''decode snapshot'' err) n1
              in (r, w, n2, k)
          | Inr decoded \<Rightarrow>
          let snapshot = decoded\<lparr>snap_Signature := del_Signature delivery\<rparr> in
          if snap_Generation snapshot \<noteq> del_Generation delivery then
            (let (r, n2) = worker_retry env source delivery ErrInvalidSnapshot n1 in (r, w, n2, k))
          else (case Verify (we_marshal env) (we_verify env) snapshot (we_now env) (GatewayID w)
                       (VerifyKey w) of
            Some err \<Rightarrow> (let (r, n2) = worker_retry env source delivery err n1 in (r, w, n2, k))
          | None \<Rightarrow>
          if snap_Generation snapshot \<le> snap_Generation (Current w) then
            (let (r, n2) = src_Ack source (del_ID delivery) (del_Generation delivery) n1
             in (r, w, n2, k))
          else (case Diff (we_order1 env (peers_by_key (snap_Peers snapshot)))
                       (we_order2 env (CurrentPeers w)) snapshot (CurrentPeers w) of
            Inl err \<Rightarrow> (let (r, n2) = worker_retry env source delivery err n1 in (r, w, n2, k))
          | Inr operations \<Rightarrow>
          (case applier operations k of
            (Some err, k1) \<Rightarrow>
              (let (r, n2) = worker_retry env source delivery (Wrapped ''apply snapshot'' err) n1
               in (r, w, n2, k1))
          | (None, k1) \<Rightarrow>
          (case src_Ack source (del_ID delivery) (del_Generation delivery) n1 of
            (Some err, n2) \<Rightarrow> (Some err, w, n2, k1)
          | (None, n2) \<Rightarrow>
              (None, w\<lparr>Current := snapshot,
                       CurrentPeers := peers_by_key (snap_Peers snapshot)\<rparr>, n2, k1)))))))
      | _ \<Rightarrow> (Some ErrInvalidOperation, w, n, k))"

text \<open>
  One turn of the loop of \<^verbatim>\<open>Run\<close>: the waiting time that follows a result of \<open>ApplyOnce\<close>.
  The loop itself runs over the turns until the context is cancelled, which is what each
  turn's flag says; the list of turns is the bound of the model.
\<close>

definition next_backoff :: "duration \<Rightarrow> duration \<Rightarrow> error option \<Rightarrow> duration" where
  "next_backoff interval backoff err =
     (case err of
        None \<Rightarrow> interval
      | Some e \<Rightarrow>
          if errors_is e ErrNoDelivery then interval
          else if backoff < 30 * second then
            (if backoff * 2 > 30 * second then 30 * second else backoff * 2)
          else backoff)"

fun run_turns ::
  "duration \<Rightarrow> duration \<Rightarrow> (worker_env \<times> bool) list \<Rightarrow> ('n, 'k) worker \<Rightarrow> 'n \<Rightarrow> 'k
   \<Rightarrow> (duration list \<times> bool) \<times> ('n, 'k) worker \<times> 'n \<times> 'k" where
  "run_turns interval backoff [] w n k = (([], False), w, n, k)"
| "run_turns interval backoff ((env, cancelled) # turns) w n k =
     (let (err, w1, n1, k1) = ApplyOnce env w n k;
          backoff1 = next_backoff interval backoff err
      in if cancelled then (([backoff1], True), w1, n1, k1)
         else let ((waits, stopped), r) = run_turns interval backoff1 turns w1 n1 k1
              in ((backoff1 # waits, stopped), r))"

definition Run ::
  "duration \<Rightarrow> (worker_env \<times> bool) list \<Rightarrow> ('n, 'k) worker \<Rightarrow> 'n \<Rightarrow> 'k
   \<Rightarrow> error + (duration list \<times> bool) \<times> ('n, 'k) worker \<times> 'n \<times> 'k" where
  "Run interval turns w n k =
     (if interval \<le> 0 then Inl ErrInvalidOperation else Inr (run_turns interval interval turns w n k))"

section \<open>The outcomes of a round\<close>

text \<open>A delivery was claimed whose snapshot verified.\<close>

definition claimed ::
  "worker_env \<Rightarrow> ('n, 'k) worker \<Rightarrow> 'n source_ops \<Rightarrow> 'n \<Rightarrow> Delivery \<Rightarrow> Snapshot \<Rightarrow> 'n \<Rightarrow> bool" where
  "claimed env w source n delivery snapshot n1 \<longleftrightarrow>
     src_Claim source n = (Inr delivery, n1)
     \<and> (\<exists>decoded. we_unmarshal env (del_Payload delivery) = Inr decoded
          \<and> snapshot = decoded\<lparr>snap_Signature := del_Signature delivery\<rparr>)
     \<and> snap_Generation snapshot = del_Generation delivery
     \<and> Verify (we_marshal env) (we_verify env) snapshot (we_now env) (GatewayID w) (VerifyKey w) = None"

definition fresh_diff :: "worker_env \<Rightarrow> ('n, 'k) worker \<Rightarrow> Snapshot \<Rightarrow> Operation list \<Rightarrow> bool" where
  "fresh_diff env w snapshot operations \<longleftrightarrow>
     snap_Generation (Current w) < snap_Generation snapshot
     \<and> Diff (we_order1 env (peers_by_key (snap_Peers snapshot))) (we_order2 env (CurrentPeers w))
         snapshot (CurrentPeers w) = Inr operations"

lemma worker_retry_Some: "worker_retry env source d cause n = (r, n1) \<Longrightarrow> r \<noteq> None"
  by (auto simp: worker_retry_def split: prod.splits option.splits)

text \<open>A round that acknowledges nothing: at most a claim and a report of a failure reach the source.\<close>

definition quiet :: "('n, 'k) worker \<Rightarrow> 'n \<Rightarrow> 'n \<Rightarrow> bool" where
  "quiet w n n' \<longleftrightarrow> n' = n \<or> (\<exists>source c n1. Source w = Some source \<and> src_Claim source n = (c, n1)
     \<and> (n' = n1 \<or> (\<exists>d t reason. c = Inr d \<and> n' = snd (src_Retry source (del_ID d) t reason n1))))"

lemma quiet_claim: "Source w = Some source \<Longrightarrow> src_Claim source n = (c, n1) \<Longrightarrow> quiet w n n1"
  by (auto simp: quiet_def)

lemma quiet_retry:
  assumes "Source w = Some source" "src_Claim source n = (Inr d, n1)" "worker_retry env source d cause n1 = (r, n2)"
  shows "quiet w n n2"
proof -
  have "n2 = snd (src_Retry source (del_ID d) (we_retryNow env + minute) (error_text cause) n1)"
    using assms(3) by (auto simp: worker_retry_def split: prod.splits option.splits)
  with assms(1,2) show ?thesis unfolding quiet_def by blast
qed

lemma retry_result:
  assumes "(let (r, n2) = worker_retry env source d cause n1 in (r, w, n2, k)) = (r, w', n', k')"
    and "Source w = Some source" "src_Claim source n = (Inr d, n1)"
  shows "r \<noteq> None \<and> w' = w \<and> k' = k \<and> quiet w n n'"
  using assms worker_retry_Some [of env source d cause n1] quiet_retry [OF assms(2,3), of env cause]
  by (cases "worker_retry env source d cause n1") auto

text \<open>
  The stages of a round: what follows the claim of a delivery, and what follows the
  verification of its snapshot.
\<close>

definition apply_verified ::
  "worker_env \<Rightarrow> ('n, 'k) worker \<Rightarrow> 'n source_ops \<Rightarrow> (Operation list \<Rightarrow> 'k \<Rightarrow> error option \<times> 'k) \<Rightarrow> Delivery
   \<Rightarrow> Snapshot \<Rightarrow> 'n \<Rightarrow> 'k \<Rightarrow> error option \<times> ('n, 'k) worker \<times> 'n \<times> 'k" where
  "apply_verified env w source applier d s n1 k =
     (if snap_Generation s \<le> snap_Generation (Current w) then
        (let (r, n2) = src_Ack source (del_ID d) (del_Generation d) n1 in (r, w, n2, k))
      else (case Diff (we_order1 env (peers_by_key (snap_Peers s))) (we_order2 env (CurrentPeers w)) s (CurrentPeers w) of
        Inl err \<Rightarrow> (let (r, n2) = worker_retry env source d err n1 in (r, w, n2, k))
      | Inr operations \<Rightarrow>
      (case applier operations k of
        (Some err, k1) \<Rightarrow>
          (let (r, n2) = worker_retry env source d (Wrapped ''apply snapshot'' err) n1 in (r, w, n2, k1))
      | (None, k1) \<Rightarrow>
      (case src_Ack source (del_ID d) (del_Generation d) n1 of
        (Some err, n2) \<Rightarrow> (Some err, w, n2, k1)
      | (None, n2) \<Rightarrow>
          (None, w\<lparr>Current := s, CurrentPeers := peers_by_key (snap_Peers s)\<rparr>, n2, k1)))))"

definition apply_claimed ::
  "worker_env \<Rightarrow> ('n, 'k) worker \<Rightarrow> 'n source_ops \<Rightarrow> (Operation list \<Rightarrow> 'k \<Rightarrow> error option \<times> 'k) \<Rightarrow> Delivery
   \<Rightarrow> 'n \<Rightarrow> 'k \<Rightarrow> error option \<times> ('n, 'k) worker \<times> 'n \<times> 'k" where
  "apply_claimed env w source applier d n1 k =
     (case we_unmarshal env (del_Payload d) of
        Inl err \<Rightarrow> (let (r, n2) = worker_retry env source d (Wrapped ''decode snapshot'' err) n1 in (r, w, n2, k))
      | Inr decoded \<Rightarrow>
      let s = decoded\<lparr>snap_Signature := del_Signature d\<rparr> in
      if snap_Generation s \<noteq> del_Generation d then
        (let (r, n2) = worker_retry env source d ErrInvalidSnapshot n1 in (r, w, n2, k))
      else (case Verify (we_marshal env) (we_verify env) s (we_now env) (GatewayID w) (VerifyKey w) of
        Some err \<Rightarrow> (let (r, n2) = worker_retry env source d err n1 in (r, w, n2, k))
      | None \<Rightarrow> apply_verified env w source applier d s n1 k))"

lemma ApplyOnce_stages:
  "ApplyOnce env w n k =
     (case (Source w, Applier w) of
        (Some source, Some applier) \<Rightarrow>
          if GatewayID w = '''' \<or> length (VerifyKey w) \<noteq> 32 then (Some ErrInvalidOperation, w, n, k)
          else (case src_Claim source n of
            (Inl err, n1) \<Rightarrow> (Some err, w, n1, k)
          | (Inr d, n1) \<Rightarrow> apply_claimed env w source applier d n1 k)
      | _ \<Rightarrow> (Some ErrInvalidOperation, w, n, k))"
  unfolding ApplyOnce_def apply_claimed_def apply_verified_def ..

lemma apply_claimed_cases:
  assumes "apply_claimed env w source applier d n1 k = (r, w', n', k')"
    and "Source w = Some source" "src_Claim source n = (Inr d, n1)"
  obtains (refused) "r \<noteq> None" "w' = w" "k' = k" "quiet w n n'"
  | (verified) s where "claimed env w source n d s n1" "apply_verified env w source applier d s n1 k = (r, w', n', k')"
proof -
  note retried = retry_result [OF _ assms(2,3), of env _ k r w' n' k']
  show ?thesis
  proof (cases "we_unmarshal env (del_Payload d)")
    case (Inl e)
    with assms(1) refused retried [of "Wrapped ''decode snapshot'' e"] show ?thesis by (auto simp: apply_claimed_def)
  next
    case dec: (Inr dec)
    let ?s = "dec\<lparr>snap_Signature := del_Signature d\<rparr>"
    let ?v = "Verify (we_marshal env) (we_verify env) ?s (we_now env) (GatewayID w) (VerifyKey w)"
    consider "snap_Generation ?s \<noteq> del_Generation d" | e where "snap_Generation ?s = del_Generation d" "?v = Some e"
      | "snap_Generation ?s = del_Generation d" "?v = None" by fastforce
    then show ?thesis
    proof cases
      case 1
      with assms(1) dec refused retried [of ErrInvalidSnapshot] show ?thesis by (auto simp: apply_claimed_def)
    next
      case (2 e)
      with assms(1) dec refused retried [of e] show ?thesis by (auto simp: apply_claimed_def)
    next
      case 3
      with assms dec verified [of ?s] show ?thesis by (auto simp: apply_claimed_def claimed_def)
    qed
  qed
qed

lemma apply_verified_cases:
  assumes "apply_verified env w source applier d s n1 k = (r, w', n', k')"
  obtains (stale) "snap_Generation s \<le> snap_Generation (Current w)" "w' = w" "k' = k"
      "src_Ack source (del_ID d) (del_Generation d) n1 = (r, n')"
  | (nodiff) e where "worker_retry env source d e n1 = (r, n')" "w' = w" "k' = k"
      "snap_Generation (Current w) < snap_Generation s"
      "Diff (we_order1 env (peers_by_key (snap_Peers s))) (we_order2 env (CurrentPeers w)) s (CurrentPeers w) = Inl e"
  | (failed) ops e where "fresh_diff env w s ops" "applier ops k = (Some e, k')" "r \<noteq> None" "w' = w"
      "worker_retry env source d (Wrapped ''apply snapshot'' e) n1 = (r, n')"
  | (unacked) ops e where "fresh_diff env w s ops" "applier ops k = (None, k')"
      "src_Ack source (del_ID d) (del_Generation d) n1 = (Some e, n')" "r = Some e" "w' = w"
  | (applied) ops where "fresh_diff env w s ops" "applier ops k = (None, k')"
      "src_Ack source (del_ID d) (del_Generation d) n1 = (None, n')" "r = None"
      "w' = w\<lparr>Current := s, CurrentPeers := peers_by_key (snap_Peers s)\<rparr>"
proof (cases "snap_Generation s \<le> snap_Generation (Current w)")
  case True
  with assms stale show ?thesis by (auto simp: apply_verified_def split: prod.splits)
next
  case newer: False
  show ?thesis
  proof (cases "Diff (we_order1 env (peers_by_key (snap_Peers s))) (we_order2 env (CurrentPeers w)) s (CurrentPeers w)")
    case (Inl e)
    with assms newer nodiff show ?thesis by (auto simp: apply_verified_def split: prod.splits)
  next
    case diff: (Inr ops)
    have f: "fresh_diff env w s ops" using newer diff by (simp add: fresh_diff_def)
    obtain e k1 where a: "applier ops k = (e, k1)" by fastforce
    show ?thesis
    proof (cases e)
      case (Some x)
      with assms newer diff a failed [OF f] show ?thesis
        by (auto simp: apply_verified_def dest: worker_retry_Some split: prod.splits)
    next
      case None
      with assms newer diff a unacked [OF f] applied [OF f] show ?thesis
        by (auto simp: apply_verified_def split: prod.splits option.splits)
    qed
  qed
qed

lemma ApplyOnce_cases:
  assumes "ApplyOnce env w n k = (r, w', n', k')"
  obtains (refused) "r \<noteq> None" "w' = w" "k' = k" "quiet w n n'"
  | (stale) source d s n1 where "Source w = Some source" "claimed env w source n d s n1"
      "snap_Generation s \<le> snap_Generation (Current w)" "w' = w" "k' = k"
      "src_Ack source (del_ID d) (del_Generation d) n1 = (r, n')"
  | (failed) source d s n1 ops applier e where "Source w = Some source" "claimed env w source n d s n1"
      "fresh_diff env w s ops" "Applier w = Some applier" "applier ops k = (Some e, k')"
      "r \<noteq> None" "w' = w"
      "worker_retry env source d (Wrapped ''apply snapshot'' e) n1 = (r, n')"
  | (unacked) source d s n1 ops applier e where "Source w = Some source" "claimed env w source n d s n1"
      "fresh_diff env w s ops" "Applier w = Some applier" "applier ops k = (None, k')"
      "src_Ack source (del_ID d) (del_Generation d) n1 = (Some e, n')" "r = Some e" "w' = w"
  | (applied) source d s n1 ops applier where "Source w = Some source" "claimed env w source n d s n1"
      "fresh_diff env w s ops" "Applier w = Some applier" "applier ops k = (None, k')"
      "src_Ack source (del_ID d) (del_Generation d) n1 = (None, n')" "r = None"
      "w' = w\<lparr>Current := s, CurrentPeers := peers_by_key (snap_Peers s)\<rparr>"
proof (cases "\<exists>source applier. Source w = Some source \<and> Applier w = Some applier
    \<and> GatewayID w \<noteq> '''' \<and> length (VerifyKey w) = 32")
  case False
  with assms have "r \<noteq> None" "w' = w" "k' = k" "quiet w n n'"
    by (auto simp: ApplyOnce_stages quiet_def split: option.splits)
  then show ?thesis by (rule refused)
next
  case True
  then obtain source applier where s: "Source w = Some source" and a: "Applier w = Some applier"
    and id: "GatewayID w \<noteq> ''''" "length (VerifyKey w) = 32" by blast
  obtain c n1 where c: "src_Claim source n = (c, n1)" by fastforce
  show ?thesis
  proof (cases c)
    case (Inl e)
    with assms s a id c have "r = Some e" "w' = w" "k' = k" "n' = n1" by (simp_all add: ApplyOnce_stages)
    with refused quiet_claim [OF s c] show ?thesis by simp
  next
    case (Inr d)
    with c have c': "src_Claim source n = (Inr d, n1)" by simp
    with assms s a id have "apply_claimed env w source applier d n1 k = (r, w', n', k')" by (simp add: ApplyOnce_stages)
    then show ?thesis
    proof (cases rule: apply_claimed_cases [OF _ s c', consumes 1, case_names refused verified])
      case (verified snap)
      note cl = verified(1)
      from verified(2) show ?thesis
      proof (cases rule: apply_verified_cases)
        case (nodiff e)
        show ?thesis
          by (rule refused [OF worker_retry_Some [OF nodiff(1)] nodiff(2,3) quiet_retry [OF s c' nodiff(1)]])
      qed (rule stale [OF s cl] failed [OF s cl _ a] unacked [OF s cl _ a] applied [OF s cl _ a]; assumption)+
    qed (rule refused)
  qed
qed

section \<open>The calls a round makes\<close>

text \<open>
  A source that keeps a log of the calls it answers, and a worker on it. The log is only written,
  so a round on it is the round on the source itself.
\<close>

datatype source_call =
    ClaimCall "Delivery result"
  | AckCall string int "error option"
  | RetryCall string time string "error option"

definition logged_source :: "'n source_ops \<Rightarrow> ('n \<times> source_call list) source_ops" where
  "logged_source source =
     \<lparr>src_Claim = (\<lambda>(n, calls). let (c, n1) = src_Claim source n in (c, (n1, calls @ [ClaimCall c]))),
      src_Ack = (\<lambda>i g (n, calls). let (r, n1) = src_Ack source i g n in (r, (n1, calls @ [AckCall i g r]))),
      src_Retry = (\<lambda>i t reason (n, calls). let (r, n1) = src_Retry source i t reason n
        in (r, (n1, calls @ [RetryCall i t reason r])))\<rparr>"

definition logged_worker :: "('n, 'k) worker \<Rightarrow> ('n \<times> source_call list, 'k) worker" where
  "logged_worker w = \<lparr>Source = map_option logged_source (Source w), Applier = Applier w, GatewayID = GatewayID w,
     VerifyKey = VerifyKey w, Current = Current w, CurrentPeers = CurrentPeers w\<rparr>"

lemma logged_source_simps [simp]:
  "src_Claim (logged_source source) (n, calls) =
     (fst (src_Claim source n), (snd (src_Claim source n), calls @ [ClaimCall (fst (src_Claim source n))]))"
  "src_Ack (logged_source source) i g (n, calls) =
     (fst (src_Ack source i g n), (snd (src_Ack source i g n), calls @ [AckCall i g (fst (src_Ack source i g n))]))"
  "src_Retry (logged_source source) i t reason (n, calls) = (fst (src_Retry source i t reason n),
     (snd (src_Retry source i t reason n), calls @ [RetryCall i t reason (fst (src_Retry source i t reason n))]))"
  by (simp_all add: logged_source_def split: prod.splits)

lemma logged_worker_simps [simp]:
  "Source (logged_worker w) = map_option logged_source (Source w)" "Applier (logged_worker w) = Applier w"
  "GatewayID (logged_worker w) = GatewayID w" "VerifyKey (logged_worker w) = VerifyKey w"
  "Current (logged_worker w) = Current w" "CurrentPeers (logged_worker w) = CurrentPeers w"
  "logged_worker (w\<lparr>Current := s, CurrentPeers := ps\<rparr>) = (logged_worker w)\<lparr>Current := s, CurrentPeers := ps\<rparr>"
  by (simp_all add: logged_worker_def)

lemma logged_retry:
  "worker_retry env (logged_source source) d cause (n, calls) = (let (r, n1) = worker_retry env source d cause n
     in (r, (n1, calls @ [RetryCall (del_ID d) (we_retryNow env + minute) (error_text cause)
          (fst (src_Retry source (del_ID d) (we_retryNow env + minute) (error_text cause) n))])))"
  by (simp add: worker_retry_def split: prod.splits option.splits)

text \<open>No call of the log is an acknowledgement.\<close>

definition no_ack :: "source_call list \<Rightarrow> bool" where
  "no_ack calls \<longleftrightarrow> (\<forall>i g r. AckCall i g r \<notin> set calls)"

lemma no_ack_simps [simp]: "no_ack []" "no_ack (calls @ [ClaimCall c]) = no_ack calls"
  "no_ack (calls @ [RetryCall i t reason r]) = no_ack calls" "\<not> no_ack (calls @ [AckCall i g r])"
  "no_ack [ClaimCall c]"
  by (auto simp: no_ack_def)

lemma logged_apply_verified:
  assumes "apply_verified env w source applier d s n1 k = (r, w', n', k')" "no_ack calls"
  shows "\<exists>calls'. apply_verified env (logged_worker w) (logged_source source) applier d s (n1, calls) k =
      (r, logged_worker w', (n', calls'), k')
    \<and> (no_ack calls' \<and> r \<noteq> None \<and> w' = w
       \<or> calls' = calls @ [AckCall (del_ID d) (del_Generation d) r]
         \<and> src_Ack source (del_ID d) (del_Generation d) n1 = (r, n')
         \<and> (snap_Generation s \<le> snap_Generation (Current w) \<and> w' = w \<and> k' = k
            \<or> (\<exists>ops. fresh_diff env w s ops \<and> applier ops k = (None, k')
                 \<and> w' = (if r = None then w\<lparr>Current := s, CurrentPeers := peers_by_key (snap_Peers s)\<rparr> else w))))"
proof (cases rule: apply_verified_cases [OF assms(1), case_names stale nodiff failed unacked applied])
  case stale
  then show ?thesis by (simp add: apply_verified_def)
next
  case (nodiff e)
  then show ?thesis using assms(2) worker_retry_Some [OF nodiff(1)] by (simp add: apply_verified_def logged_retry)
next
  case (failed ops e)
  then show ?thesis using assms(2) by (auto simp: apply_verified_def fresh_diff_def logged_retry)
next
  case (unacked ops e)
  then show ?thesis by (simp add: apply_verified_def fresh_diff_def)
next
  case (applied ops)
  then show ?thesis by (simp add: apply_verified_def fresh_diff_def)
qed

lemma logged_apply_claimed:
  assumes "apply_claimed env w source applier d n1 k = (r, w', n', k')" "no_ack calls" "src_Claim source n = (Inr d, n1)"
  shows "\<exists>calls'. apply_claimed env (logged_worker w) (logged_source source) applier d (n1, calls) k =
      (r, logged_worker w', (n', calls'), k')
    \<and> (no_ack calls' \<and> r \<noteq> None \<and> w' = w
       \<or> (\<exists>s. calls' = calls @ [AckCall (del_ID d) (del_Generation d) r] \<and> claimed env w source n d s n1
         \<and> src_Ack source (del_ID d) (del_Generation d) n1 = (r, n')
         \<and> (snap_Generation s \<le> snap_Generation (Current w) \<and> w' = w \<and> k' = k
            \<or> (\<exists>ops. fresh_diff env w s ops \<and> applier ops k = (None, k')
                 \<and> w' = (if r = None then w\<lparr>Current := s, CurrentPeers := peers_by_key (snap_Peers s)\<rparr> else w)))))"
    (is "\<exists>calls'. ?L = _ calls' \<and> ?R calls'")
proof -
  have retried: ?thesis if "?L = (let (r, n2) = worker_retry env (logged_source source) d e (n1, calls) in (r, logged_worker w, n2, k))"
      "(let (r, n2) = worker_retry env source d e n1 in (r, w, n2, k)) = (r, w', n', k')" for e
    using that assms(2) worker_retry_Some [of env source d e n1]
    by (auto simp: logged_retry split: prod.splits)
  show ?thesis
  proof (cases "we_unmarshal env (del_Payload d)")
    case (Inl e)
    then show ?thesis using assms(1) by (intro retried [of "Wrapped ''decode snapshot'' e"]) (simp_all add: apply_claimed_def)
  next
    case dec: (Inr dec)
    let ?s = "dec\<lparr>snap_Signature := del_Signature d\<rparr>"
    let ?v = "Verify (we_marshal env) (we_verify env) ?s (we_now env) (GatewayID w) (VerifyKey w)"
    consider "snap_Generation ?s \<noteq> del_Generation d" | e where "snap_Generation ?s = del_Generation d" "?v = Some e"
      | "snap_Generation ?s = del_Generation d" "?v = None" by fastforce
    then show ?thesis
    proof cases
      case 1
      then show ?thesis using assms(1) dec by (intro retried [of ErrInvalidSnapshot]) (simp_all add: apply_claimed_def)
    next
      case (2 e)
      then show ?thesis using assms(1) dec by (intro retried [of e]) (simp_all add: apply_claimed_def)
    next
      case 3
      then have v: "apply_verified env w source applier d ?s n1 k = (r, w', n', k')"
        and c: "claimed env w source n d ?s n1"
        using assms(1,3) dec by (simp_all add: apply_claimed_def claimed_def)
      have "?L = apply_verified env (logged_worker w) (logged_source source) applier d ?s (n1, calls) k"
        using 3 dec by (simp add: apply_claimed_def)
      with logged_apply_verified [OF v assms(2)] c show ?thesis by (simp only:) blast
    qed
  qed
qed

lemma logged_round:
  assumes "ApplyOnce env w n k = (r, w', n', k')"
  shows "\<exists>calls. ApplyOnce env (logged_worker w) (n, []) k = (r, logged_worker w', (n', calls), k')
    \<and> (no_ack calls \<and> r \<noteq> None \<and> w' = w
       \<or> (\<exists>source applier d s n1. Source w = Some source \<and> Applier w = Some applier
         \<and> calls = [ClaimCall (Inr d), AckCall (del_ID d) (del_Generation d) r] \<and> claimed env w source n d s n1
         \<and> src_Ack source (del_ID d) (del_Generation d) n1 = (r, n')
         \<and> (snap_Generation s \<le> snap_Generation (Current w) \<and> w' = w \<and> k' = k
            \<or> (\<exists>ops. fresh_diff env w s ops \<and> applier ops k = (None, k')
                 \<and> w' = (if r = None then w\<lparr>Current := s, CurrentPeers := peers_by_key (snap_Peers s)\<rparr> else w)))))"
proof (cases "\<exists>source applier. Source w = Some source \<and> Applier w = Some applier
    \<and> GatewayID w \<noteq> '''' \<and> length (VerifyKey w) = 32")
  case False
  with assms show ?thesis by (auto simp: ApplyOnce_stages split: option.splits)
next
  case True
  then obtain source applier where s: "Source w = Some source" and a: "Applier w = Some applier"
    and id: "GatewayID w \<noteq> ''''" "length (VerifyKey w) = 32" by blast
  obtain c n1 where c: "src_Claim source n = (c, n1)" by fastforce
  show ?thesis
  proof (cases c)
    case (Inl e)
    with assms s a id c show ?thesis by (auto simp: ApplyOnce_stages)
  next
    case (Inr d)
    with c have c': "src_Claim source n = (Inr d, n1)" by simp
    with assms s a id have "apply_claimed env w source applier d n1 k = (r, w', n', k')" by (simp add: ApplyOnce_stages)
    from logged_apply_claimed [OF this, of "[ClaimCall (Inr d)]", OF _ c'] obtain calls where
      "apply_claimed env (logged_worker w) (logged_source source) applier d (n1, [ClaimCall (Inr d)]) k =
        (r, logged_worker w', (n', calls), k')"
      and o: "no_ack calls \<and> r \<noteq> None \<and> w' = w
       \<or> (\<exists>s. calls = [ClaimCall (Inr d)] @ [AckCall (del_ID d) (del_Generation d) r] \<and> claimed env w source n d s n1
         \<and> src_Ack source (del_ID d) (del_Generation d) n1 = (r, n')
         \<and> (snap_Generation s \<le> snap_Generation (Current w) \<and> w' = w \<and> k' = k
            \<or> (\<exists>ops. fresh_diff env w s ops \<and> applier ops k = (None, k')
                 \<and> w' = (if r = None then w\<lparr>Current := s, CurrentPeers := peers_by_key (snap_Peers s)\<rparr> else w))))"
      by auto
    moreover have "ApplyOnce env (logged_worker w) (n, []) k =
        apply_claimed env (logged_worker w) (logged_source source) applier d (n1, [ClaimCall (Inr d)]) k"
      using s a id c' by (simp add: ApplyOnce_stages)
    ultimately have l: "ApplyOnce env (logged_worker w) (n, []) k = (r, logged_worker w', (n', calls), k')" by simp
    from o show ?thesis
    proof (elim disjE exE)
      assume "no_ack calls \<and> r \<noteq> None \<and> w' = w"
      with l show ?thesis by blast
    next
      fix snap
      assume "calls = [ClaimCall (Inr d)] @ [AckCall (del_ID d) (del_Generation d) r] \<and> claimed env w source n d snap n1
         \<and> src_Ack source (del_ID d) (del_Generation d) n1 = (r, n')
         \<and> (snap_Generation snap \<le> snap_Generation (Current w) \<and> w' = w \<and> k' = k
            \<or> (\<exists>ops. fresh_diff env w snap ops \<and> applier ops k = (None, k')
                 \<and> w' = (if r = None then w\<lparr>Current := snap, CurrentPeers := peers_by_key (snap_Peers snap)\<rparr> else w)))"
      then show ?thesis
        by (intro exI [of _ calls] conjI [OF l] disjI2 exI [of _ source] exI [of _ applier] exI [of _ d] exI [of _ snap]
            exI [of _ n1]) (use s a in simp)
    qed
  qed
qed

section \<open>What an applier promises\<close>

text \<open>
  \<open>table\<close> reads from the state of the kernel which addresses each peer is served; \<open>ok\<close> is the
  condition on the kernel under which the contract holds.
\<close>

locale snapshot_applier =
  fixes applier :: "'k applier" and table :: "'k \<Rightarrow> string \<rightharpoonup> addr_prefix set" and ok :: bool
  assumes applied: "ok \<Longrightarrow> Diff o1 o2 desired ob = Inr xs \<Longrightarrow> keyed ob \<Longrightarrow>
      iter_order (peers_by_key (snap_Peers desired)) o1 \<Longrightarrow> iter_order ob o2 \<Longrightarrow>
      unambiguous (snap_Peers desired) \<Longrightarrow> table k = table_of ob \<Longrightarrow> applier xs k = (None, k') \<Longrightarrow>
      table k' = table_of (peers_by_key (snap_Peers desired))"

text \<open>The worker knows what the kernel serves, and the orders are orders of Go maps.\<close>

definition in_sync :: "('k \<Rightarrow> string \<rightharpoonup> addr_prefix set) \<Rightarrow> ('n, 'k) worker \<Rightarrow> 'k \<Rightarrow> bool" where
  "in_sync table w k \<longleftrightarrow> table k = table_of (CurrentPeers w) \<and> keyed (CurrentPeers w)
     \<and> finite (dom (CurrentPeers w))"

definition go_orders :: "worker_env \<Rightarrow> bool" where
  "go_orders env \<longleftrightarrow> (\<forall>m. finite (dom m) \<longrightarrow> iter_order m (we_order1 env m) \<and> iter_order m (we_order2 env m))"

lemma go_ordersD:
  assumes "go_orders env" "finite (dom m)"
  shows "iter_order m (we_order1 env m)" "iter_order m (we_order2 env m)"
  using assms by (auto simp: go_orders_def)

lemma finite_peers_by_key [simp]: "finite (dom (peers_by_key ps))"
  by (simp add: dom_peers_by_key)

text \<open>The rounds of a run, each with the state it starts from.\<close>

fun run_rounds ::
  "(worker_env \<times> bool) list \<Rightarrow> ('n, 'k) worker \<Rightarrow> 'n \<Rightarrow> 'k \<Rightarrow> (worker_env \<times> ('n, 'k) worker \<times> 'n \<times> 'k) list" where
  "run_rounds [] w n k = []"
| "run_rounds ((env, cancelled) # turns) w n k = (env, w, n, k) #
     (if cancelled then [] else let (_, w1, n1, k1) = ApplyOnce env w n k in run_rounds turns w1 n1 k1)"

text \<open>
  A round that is entered in step and fails after it changed the kernel: in a command, or in the
  acknowledgement when the kernel serves the snapshot already.
\<close>

definition parted ::
  "('k \<Rightarrow> string \<rightharpoonup> addr_prefix set) \<Rightarrow> 'k applier \<Rightarrow> worker_env \<times> ('n, 'k) worker \<times> 'n \<times> 'k \<Rightarrow> bool" where
  "parted table applier round \<longleftrightarrow> (\<exists>env w n k e n1 k1 s ops. round = (env, w, n, k) \<and> in_sync table w k
     \<and> ApplyOnce env w n k = (Some e, w, n1, k1) \<and> k1 \<noteq> k
     \<and> Verify (we_marshal env) (we_verify env) s (we_now env) (GatewayID w) (VerifyKey w) = None
     \<and> snap_Generation (Current w) < snap_Generation s
     \<and> ((\<exists>e'. applier ops k = (Some e', k1))
        \<or> applier ops k = (None, k1) \<and> table k1 = table_of (peers_by_key (snap_Peers s))))"

lemma partedI:
  assumes "in_sync table w k" "ApplyOnce env w n k = (Some e, w, n1, k1)" "k1 \<noteq> k" "claimed env w source n d s n2"
    "fresh_diff env w s ops"
    "(\<exists>e'. applier ops k = (Some e', k1)) \<or> applier ops k = (None, k1) \<and> table k1 = table_of (peers_by_key (snap_Peers s))"
  shows "parted table applier (env, w, n, k)"
  using assms unfolding parted_def claimed_def fresh_diff_def by blast

lemma ApplyOnce_applier:
  assumes "ApplyOnce env w n k = (r, w', n', k')"
  shows "Applier w' = Applier w"
  by (rule ApplyOnce_cases [OF assms]) simp_all

context snapshot_applier
begin

text \<open>All commands of a difference ran: the kernel serves the peers of the snapshot.\<close>

lemma applied_table:
  assumes ok "go_orders env" "in_sync table w k" "fresh_diff env w s ops" "unambiguous (snap_Peers s)"
    "applier ops k = (None, k')"
  shows "table k' = table_of (peers_by_key (snap_Peers s))"
proof (rule applied [OF assms(1) _ _ _ _ assms(5) _ assms(6)])
  show "Diff (we_order1 env (peers_by_key (snap_Peers s))) (we_order2 env (CurrentPeers w)) s (CurrentPeers w) = Inr ops"
    using assms(4) by (simp add: fresh_diff_def)
  show "iter_order (peers_by_key (snap_Peers s)) (we_order1 env (peers_by_key (snap_Peers s)))"
    by (rule go_ordersD(1) [OF assms(2) finite_peers_by_key])
  show "iter_order (CurrentPeers w) (we_order2 env (CurrentPeers w))"
    using assms(3) by (intro go_ordersD(2) [OF assms(2)]) (simp add: in_sync_def)
qed (use assms(3) in \<open>simp_all add: in_sync_def\<close>)

text \<open>A round from a state in step leaves the two in step, unless it fails after a command ran.\<close>

lemma round_in_step:
  assumes ok: ok and orders: "go_orders env" and sync: "in_sync table w k"
    and applier: "Applier w = Some applier"
    and canonical: "\<And>source d s n1. Source w = Some source \<Longrightarrow> claimed env w source n d s n1 \<Longrightarrow> unambiguous (snap_Peers s)"
    and r: "ApplyOnce env w n k = (res, w', n', k')"
  shows "in_sync table w' k' \<or> parted table applier (env, w, n, k)"
proof (rule ApplyOnce_cases [OF r])
  fix source d s n1 ops a
  assume s: "claimed env w source n d s n1" "fresh_diff env w s ops" "Applier w = Some a"
    "a ops k = (None, k')" "Source w = Some source" and w': "w' = w\<lparr>Current := s, CurrentPeers := peers_by_key (snap_Peers s)\<rparr>"
  from s(3,4) applier have "applier ops k = (None, k')" by simp
  from applied_table [OF ok orders sync s(2) canonical [OF s(5,1)] this] show ?thesis by (simp add: in_sync_def w')
next
  fix source d s n1 ops a e
  assume s: "claimed env w source n d s n1" "fresh_diff env w s ops" "Applier w = Some a"
    "a ops k = (Some e, k')" "res \<noteq> None" "w' = w"
  show ?thesis
  proof (cases "k' = k")
    case False
    from s(5) obtain x where "res = Some x" by blast
    with r s(6) have "ApplyOnce env w n k = (Some x, w, n', k')" by simp
    from partedI [OF sync this False s(1,2)] s(3,4) applier show ?thesis by auto
  qed (use sync s in simp)
next
  fix source d s n1 ops a e
  assume s: "claimed env w source n d s n1" "fresh_diff env w s ops" "Applier w = Some a"
    "a ops k = (None, k')" "Source w = Some source" "res = Some e" "w' = w"
  from s(3,4) applier have a: "applier ops k = (None, k')" by simp
  note t = applied_table [OF ok orders sync s(2) canonical [OF s(5,1)] a]
  show ?thesis
  proof (cases "k' = k")
    case False
    from r s(6,7) have "ApplyOnce env w n k = (Some e, w, n', k')" by simp
    from partedI [OF sync this False s(1,2)] a t show ?thesis by blast
  qed (use sync s in simp)
qed (use sync in auto)

lemma turns_in_step:
  assumes ok: ok and "\<And>env c. (env, c) \<in> set turns \<Longrightarrow> go_orders env"
    and "\<And>env v m j source d s m1. (env, v, m, j) \<in> set (run_rounds turns w n k) \<Longrightarrow> Source v = Some source \<Longrightarrow>
      claimed env v source m d s m1 \<Longrightarrow> unambiguous (snap_Peers s)"
    and "in_sync table w k" "Applier w = Some applier" "run_turns interval backoff turns w n k = (x, w', n', k')"
  shows "in_sync table w' k' \<or> (\<exists>round\<in>set (run_rounds turns w n k). parted table applier round)"
  using assms(2-6)
proof (induction turns arbitrary: backoff w n k x)
  case (Cons turn turns)
  obtain env cancelled where turn: "turn = (env, cancelled)" by fastforce
  obtain err w1 n1 k1 where a: "ApplyOnce env w n k = (err, w1, n1, k1)" by (metis prod_cases4)
  have "go_orders env" using Cons.prems(1) [of env cancelled] by (simp add: turn)
  moreover have "unambiguous (snap_Peers s)" if "Source w = Some source" "claimed env w source n d s n1" for source d s n1
    by (rule Cons.prems(2) [of env w n k, OF _ that]) (simp add: turn)
  ultimately have r: "in_sync table w1 k1 \<or> parted table applier (env, w, n, k)"
    using round_in_step [OF ok _ Cons.prems(3,4) _ a] by blast
  show ?case
  proof (cases "cancelled \<or> parted table applier (env, w, n, k)")
    case True
    with r a Cons.prems(5) show ?thesis by (auto simp: turn Let_def)
  next
    case False
    with r have s1: "in_sync table w1 k1" by blast
    obtain x' w2 n2 k2 where t: "run_turns interval (next_backoff interval backoff err) turns w1 n1 k1 = (x', w2, n2, k2)"
      by (metis prod_cases4)
    with False a Cons.prems(5) have e: "w2 = w'" "n2 = n'" "k2 = k'" by (auto simp: turn split: prod.splits)
    have "Applier w1 = Some applier" using ApplyOnce_applier [OF a] Cons.prems(4) by simp
    note ih = Cons.IH [OF _ _ s1 this t [unfolded e]]
    have "in_sync table w' k' \<or> (\<exists>round\<in>set (run_rounds turns w1 n1 k1). parted table applier round)"
    proof (rule ih)
      show "go_orders env" if "(env, c) \<in> set turns" for env c
        by (rule Cons.prems(1) [of env c]) (simp add: that)
      show "unambiguous (snap_Peers s)" if "(e, v, m, j) \<in> set (run_rounds turns w1 n1 k1)" "Source v = Some source"
        "claimed e v source m d s m1" for e v m j source d s m1
        by (rule Cons.prems(2) [of e v m j, OF _ that(2,3)]) (use that(1) a False in \<open>simp add: turn\<close>)
    qed
    with a False show ?thesis by (auto simp: turn)
  qed
qed simp

end

definition wg_backend_ok :: "'k WireGuardBackend \<Rightarrow> ('k \<Rightarrow> string \<rightharpoonup> addr_prefix set) \<Rightarrow> bool" where
  "wg_backend_ok b allowed \<longleftrightarrow>
     (\<forall>run. Runner b = Some run \<longrightarrow> wg_kernel run allowed (InterfaceName b))"

interpretation wg_applier: snapshot_applier "Apply b" allowed "wg_backend_ok b allowed"
proof
  fix o1 o2 desired ob xs k k'
  assume "wg_backend_ok b allowed" "Diff o1 o2 desired ob = Inr xs" "keyed ob"
    "iter_order (peers_by_key (snap_Peers desired)) o1" "iter_order ob o2"
    "unambiguous (snap_Peers desired)" "allowed k = table_of ob" "Apply b xs k = (None, k')"
  then show "allowed k' = table_of (peers_by_key (snap_Peers desired))"
    unfolding wg_backend_ok_def
    by (intro Diff_then_apply [where allowed = allowed and k = k and ob = ob and b = b]) blast+
qed

section \<open>Waiting times\<close>

lemma next_backoff_bounds:
  assumes "0 < interval" "interval \<le> b" "b \<le> max interval (30 * second)"
  shows "interval \<le> next_backoff interval b r" "next_backoff interval b r \<le> max interval (30 * second)"
  using assms by (auto simp: next_backoff_def split: option.splits)

lemma run_turns_waits:
  assumes "0 < interval" "interval \<le> b" "b \<le> max interval (30 * second)"
    and "run_turns interval b turns w n k = ((waits, stopped), r)"
  shows "\<forall>d\<in>set waits. interval \<le> d \<and> d \<le> max interval (30 * second)"
  using assms(2-4)
proof (induction turns arbitrary: b w n k waits stopped r)
  case (Cons turn turns)
  obtain env cancelled where turn: "turn = (env, cancelled)" by fastforce
  obtain err w1 n1 k1 where a: "ApplyOnce env w n k = (err, w1, n1, k1)" by (metis prod_cases4)
  note nb = next_backoff_bounds [OF assms(1) Cons.prems(1,2), of err]
  obtain waits' stopped' r' where t: "run_turns interval (next_backoff interval b err) turns w1 n1 k1
      = ((waits', stopped'), r')" by (metis surj_pair)
  from Cons.IH [OF nb t] Cons.prems(3) nb a t show ?case
    by (auto simp: turn Let_def split: if_splits)
qed simp

section \<open>A scripted source\<close>

text \<open>
  For the witnesses: a source whose state is the list of deliveries to come, each with the
  answer of the source to its acknowledgement.
\<close>

type_synonym script = "(Delivery \<times> error option) list"

definition script_source :: "script source_ops" where
  "script_source =
     \<lparr>src_Claim = (\<lambda>n. case n of [] \<Rightarrow> (Inl ErrNoDelivery, []) | (d, _) # _ \<Rightarrow> (Inr d, n)),
      src_Ack = (\<lambda>i g n. case n of [] \<Rightarrow> (Some ErrNotFound, []) | (_, r) # rest \<Rightarrow> (r, rest)),
      src_Retry = (\<lambda>i t reason n. if t = 0 then (Some ErrInvalidTransport, n) else (None, drop 1 n))\<rparr>"

definition some_order :: "(string \<rightharpoonup> Peer) \<Rightarrow> string list" where
  "some_order m = (if finite (dom m) then sorted_list_of_set (dom m) else [])"

lemma some_order: "finite (dom m) \<Longrightarrow> iter_order m (some_order m)"
  by (simp add: iter_order_def some_order_def)

definition one_peer :: "int \<Rightarrow> Peer \<Rightarrow> Snapshot" where
  "one_peer g p = \<lparr>snap_GatewayID = ''gw'', snap_Generation = g, snap_ExpiresAt = 1000,
     snap_Peers = [p], snap_Signature = ''''\<rparr>"

abbreviation "peer_a \<equiv> sample_peer CHR ''a'' ''10.0.0.2/32'' ''fd00::2/128''"
abbreviation "peer_b \<equiv> sample_peer CHR ''b'' ''10.0.0.3/32'' ''fd00::3/128''"

definition sample_env :: worker_env where
  "sample_env = \<lparr>we_marshal = toy_marshal,
     we_unmarshal = (\<lambda>payload. if payload = ''7'' then Inr (one_peer 7 peer_a)
        else if payload = ''8'' then Inr (one_peer 8 peer_b) else Inl (ErrText ''bad JSON'')),
     we_verify = toy_verify, we_now = 10, we_retryNow = 10,
     we_order1 = some_order, we_order2 = some_order\<rparr>"

abbreviation gw_signature :: string where
  "gw_signature \<equiv> take 64 (''gw'' @ replicate 64 CHR 0x00)"

definition sample_delivery :: "int \<Rightarrow> Delivery" where
  "sample_delivery g = \<lparr>del_ID = ''delivery'', del_Generation = g,
     del_Payload = (if g = 7 then ''7'' else ''8''), del_Signature = gw_signature\<rparr>"

definition sample_worker :: "(script, string \<rightharpoonup> addr_prefix set) worker" where
  "sample_worker = \<lparr>Source = Some script_source, Applier = Some (Apply sample_backend),
     GatewayID = ''gw'', VerifyKey = replicate 32 CHR ''p'',
     Current = \<lparr>snap_GatewayID = '''', snap_Generation = 0, snap_ExpiresAt = 0, snap_Peers = [],
                snap_Signature = ''''\<rparr>,
     CurrentPeers = Map.empty\<rparr>"

lemma sample_orders_ok: "go_orders sample_env"
  by (simp add: go_orders_def sample_env_def some_order)

lemma one_peer_valid:
  "valid_peer p \<Longrightarrow> 0 < g \<Longrightarrow> t < 1000 \<Longrightarrow> Validate (one_peer g p) t ''gw'' = None"
  by (simp add: Validate_None one_peer_def valid_peers_def maxPeersPerSnapshot_def)

lemma one_peer_verify:
  assumes "valid_peer p" "0 < g"
  shows "Verify toy_marshal toy_verify ((one_peer g p)\<lparr>snap_Signature := gw_signature\<rparr>) 10 ''gw''
     (replicate 32 CHR ''p'') = None"
proof -
  have "Validate ((one_peer g p)\<lparr>snap_Signature := gw_signature\<rparr>) 10 ''gw'' = None"
    unfolding Validate_signature using one_peer_valid [OF assms, of 10] by simp
  then show ?thesis
    by (simp add: Verify_None signingBytes_def toy_marshal_def toy_verify_def) (simp add: one_peer_def)
qed

lemma one_peer_diff:
  assumes "valid_peer p" "0 < g"
  shows "Diff (some_order (peers_by_key [p])) (some_order Map.empty)
     ((one_peer g p)\<lparr>snap_Signature := gw_signature\<rparr>) Map.empty = Inr [\<lparr>op_Kind = OperationAdd, op_Peer = p\<rparr>]"
proof -
  have "Validate ((one_peer g p)\<lparr>snap_Signature := gw_signature\<rparr>) 0 ''gw'' = None"
    unfolding Validate_signature using one_peer_valid [OF assms, of 0] by simp
  moreover have "peers_by_key [p] = [peer_PublicKey p \<mapsto> p]" by (simp add: peers_by_key_def)
  ultimately show ?thesis
    by (simp add: Diff_def some_order_def diff_desired_def Let_def) (simp add: one_peer_def some_order_def diff_desired_def peers_by_key_def)
qed

lemma sample_peers_valid: "valid_peer peer_a" "valid_peer peer_b"
  by (simp_all add: sample_peer_valid sample_prefixes)

lemma backend_ok: "wg_backend_ok sample_backend (\<lambda>m. m)"
  by (simp add: wg_backend_ok_def sample_backend_def toy_wg_kernel)

text \<open>One peer added to the table of the sample kernel.\<close>

lemma one_peer_apply:
  assumes "p = peer_a \<or> p = peer_b"
  shows "Apply sample_backend [\<lparr>op_Kind = OperationAdd, op_Peer = p\<rparr>] m =
    (None, op_effect \<lparr>op_Kind = OperationAdd, op_Peer = p\<rparr> m)"
proof -
  let ?x = "\<lparr>op_Kind = OperationAdd, op_Peer = p\<rparr>"
  have "good_interface ''wg0''" by code_simp
  moreover have good: "good_op ?x"
    using assms sample_peers_valid by (auto simp: good_op_def valid_peer_def)
  ultimately have a: "operationArguments ''wg0'' ?x = Inr (op_args ''wg0'' ?x)"
    by (simp add: operationArguments_Inr)
  have s: "splitOn CHR '','' ''10.0.0.2/32,fd00::2/128'' = [''10.0.0.2/32'', ''fd00::2/128'']"
    "splitOn CHR '','' ''10.0.0.3/32,fd00::3/128'' = [''10.0.0.3/32'', ''fd00::3/128'']"
    by code_simp+
  obtain a1 a2 b1 b2 where q: "parsePrefix ''10.0.0.2/32'' = Some a1" "parsePrefix ''10.0.0.3/32'' = Some a2"
    "parsePrefix ''fd00::2/128'' = Some b1" "parsePrefix ''fd00::3/128'' = Some b2"
    using sample_prefixes unfolding validHostPrefix_4 validHostPrefix_6 by blast
  have "fst (toy_wg ''wg'' (op_args ''wg0'' ?x) m) = None"
    using assms by (auto simp: op_args_def s q)
  then obtain m' where m': "toy_wg ''wg'' (op_args ''wg0'' ?x) m = (None, m')"
    by (metis prod.collapse)
  from wg_kernel_op [OF toy_wg_kernel good m'] have "m' = op_effect ?x m" .
  with a m' show ?thesis
    by (simp add: Apply_def sample_backend_def maxPeersPerSnapshot_def)
qed

text \<open>A round of a worker that believes the gateway is empty.\<close>

lemma sample_round:
  assumes g: "g = 7 \<and> p = peer_a \<or> g = 8 \<and> p = peer_b"
  shows "ApplyOnce sample_env sample_worker ((sample_delivery g, ack) # rest) m =
    (ack, (case ack of Some _ \<Rightarrow> sample_worker
           | None \<Rightarrow> sample_worker\<lparr>Current := (one_peer g p)\<lparr>snap_Signature := gw_signature\<rparr>,
                       CurrentPeers := peers_by_key [p]\<rparr>),
     rest, op_effect \<lparr>op_Kind = OperationAdd, op_Peer = p\<rparr> m)"
proof -
  have p: "valid_peer p" "0 < g" "p = peer_a \<or> p = peer_b" using g sample_peers_valid by auto
  have u: "we_unmarshal sample_env (del_Payload (sample_delivery g)) = Inr (one_peer g p)"
    using g by (auto simp: sample_env_def sample_delivery_def)
  have d: "del_Generation (sample_delivery g) = g" "del_Signature (sample_delivery g) = gw_signature"
    by (simp_all add: sample_delivery_def)
  have o: "snap_Generation (one_peer g p) = g" "snap_Peers (one_peer g p) = [p]"
    by (simp_all add: one_peer_def)
  have w: "Source sample_worker = Some script_source" "Applier sample_worker = Some (Apply sample_backend)"
    "GatewayID sample_worker = ''gw''" "VerifyKey sample_worker = replicate 32 CHR ''p''"
    "CurrentPeers sample_worker = Map.empty" "snap_Generation (Current sample_worker) = 0"
    by (simp_all add: sample_worker_def)
  have e: "we_marshal sample_env = toy_marshal" "we_verify sample_env = toy_verify" "we_now sample_env = 10"
    "we_order1 sample_env = some_order" "we_order2 sample_env = some_order"
    by (simp_all add: sample_env_def)
  have c: "src_Claim script_source ((sample_delivery g, x) # rest) =
      (Inr (sample_delivery g), (sample_delivery g, x) # rest)"
    "src_Ack script_source i h ((sample_delivery g, x) # rest) = (x, rest)" for i h x
    by (simp_all add: script_source_def)
  show ?thesis
    using p one_peer_verify [OF p(1,2)] one_peer_diff [OF p(1,2)] one_peer_apply [OF p(3), of m]
    by (cases ack) (simp_all add: ApplyOnce_def w e c u d o)
qed

text \<open>The claims of the sample worker are of one of the two sample snapshots.\<close>

lemma sample_claimed:
  assumes "claimed sample_env w source n d s n1"
  shows "unambiguous (snap_Peers s)"
proof -
  from assms obtain dec where "we_unmarshal sample_env (del_Payload d) = Inr dec" "snap_Peers s = snap_Peers dec"
    by (auto simp: claimed_def)
  then have "length (snap_Peers s) = 1"
    by (auto simp: sample_env_def one_peer_def split: if_splits)
  then show ?thesis by (auto simp: length_Suc_conv unambiguous_def)
qed

section \<open>Properties\<close>

text \<open>
  C27: The worker acknowledges a delivery only when the gateway is done with it. However a round
  ends, of all calls it makes to its source at most one is an acknowledgement, and then it is the
  last one, after the claim, for the delivery that was claimed: its snapshot verified for this
  gateway under the key of the control plane, and either every command of the difference
  succeeded, or the snapshot was not newer than the current one and no command ran. The worker
  takes over the snapshot only when that acknowledgement succeeds; a round without one ends with
  an error and leaves the worker as it was.
\<close>

theorem worker_acks_after_apply:
  assumes "ApplyOnce env w n k = (r, w', n', k')"
  shows "\<exists>calls. ApplyOnce env (logged_worker w) (n, []) k = (r, logged_worker w', (n', calls), k')
    \<and> ((\<forall>i g answer. AckCall i g answer \<notin> set calls) \<and> r \<noteq> None \<and> w' = w
     \<or> (\<exists>source applier d s n1. Source w = Some source \<and> Applier w = Some applier
         \<and> calls = [ClaimCall (Inr d), AckCall (del_ID d) (del_Generation d) r]
         \<and> src_Claim source n = (Inr d, n1) \<and> src_Ack source (del_ID d) (del_Generation d) n1 = (r, n')
         \<and> (\<exists>decoded. we_unmarshal env (del_Payload d) = Inr decoded
              \<and> s = decoded\<lparr>snap_Signature := del_Signature d\<rparr>)
         \<and> snap_Generation s = del_Generation d
         \<and> Verify (we_marshal env) (we_verify env) s (we_now env) (GatewayID w) (VerifyKey w) = None
         \<and> (snap_Generation s \<le> snap_Generation (Current w) \<and> w' = w \<and> k' = k
            \<or> (\<exists>ops. snap_Generation (Current w) < snap_Generation s
                 \<and> Diff (we_order1 env (peers_by_key (snap_Peers s))) (we_order2 env (CurrentPeers w)) s
                     (CurrentPeers w) = Inr ops
                 \<and> applier ops k = (None, k')
                 \<and> w' = (if r = None then w\<lparr>Current := s, CurrentPeers := peers_by_key (snap_Peers s)\<rparr> else w)))))"
  using logged_round [OF assms] unfolding no_ack_def claimed_def fresh_diff_def by blast

theorem worker_acks_after_apply_witness:
  "\<exists>w'. ApplyOnce sample_env (logged_worker sample_worker) ([(sample_delivery 7, None)], []) Map.empty =
      (None, w', ([], [ClaimCall (Inr (sample_delivery 7)), AckCall ''delivery'' 7 None]),
       op_effect \<lparr>op_Kind = OperationAdd, op_Peer = peer_a\<rparr> Map.empty)
    \<and> 0 < snap_Generation (Current w')"
proof -
  note r = sample_round [of 7 peer_a None "[]" Map.empty, simplified]
  have c: "src_Claim script_source [(sample_delivery 7, None)] = (Inr (sample_delivery 7), [(sample_delivery 7, None)])"
    "Source sample_worker = Some script_source" by (simp_all add: script_source_def sample_worker_def)
  from worker_acks_after_apply [OF r] obtain calls d where
    l: "ApplyOnce sample_env (logged_worker sample_worker) ([(sample_delivery 7, None)], []) Map.empty =
      (None, logged_worker (sample_worker\<lparr>Current := (one_peer 7 peer_a)\<lparr>snap_Signature := gw_signature\<rparr>,
         CurrentPeers := peers_by_key [peer_a]\<rparr>), ([], calls), op_effect \<lparr>op_Kind = OperationAdd, op_Peer = peer_a\<rparr> Map.empty)"
    and calls: "calls = [ClaimCall (Inr d), AckCall (del_ID d) (del_Generation d) None]"
    and d: "src_Claim script_source [(sample_delivery 7, None)] = (Inr d, [(sample_delivery 7, None)])"
    by (elim exE conjE disjE) (simp_all add: c)
  from d have "d = sample_delivery 7" by (simp add: c)
  with l calls show ?thesis by (simp add: one_peer_def sample_delivery_def)
qed



text \<open>
  No replay and no forgery. The generation the worker holds never goes down, and the
  kernel changes only under a snapshot that verified for this gateway and is newer than the
  current one: an old, foreign, expired or unsigned delivery runs no command.
\<close>

theorem worker_rejects_replay:
  assumes "ApplyOnce env w n k = (res, w', n', k')"
  shows "snap_Generation (Current w) \<le> snap_Generation (Current w')
     \<and> (k' \<noteq> k \<longrightarrow> (\<exists>source d s n1. Source w = Some source \<and> src_Claim source n = (Inr d, n1)
          \<and> snap_Generation (Current w) < snap_Generation s
          \<and> Verify (we_marshal env) (we_verify env) s (we_now env) (GatewayID w) (VerifyKey w) = None
          \<and> (w' = w \<or> Current w' = s)))"
proof -
  let ?P = "\<exists>source d s n1. Source w = Some source \<and> src_Claim source n = (Inr d, n1)
          \<and> snap_Generation (Current w) < snap_Generation s
          \<and> Verify (we_marshal env) (we_verify env) s (we_now env) (GatewayID w) (VerifyKey w) = None
          \<and> (w' = w \<or> Current w' = s)"
  have P: "?P \<and> snap_Generation (Current w) < snap_Generation s"
    if "Source w = Some source" "claimed env w source n d s n1" "fresh_diff env w s ops"
      "w' = w \<or> Current w' = s"
    for source d s n1 ops
    using that unfolding claimed_def fresh_diff_def by blast
  show ?thesis
  proof (rule ApplyOnce_cases [OF assms])
    fix source d s n1 ops applier
    assume c: "Source w = Some source" "claimed env w source n d s n1" "fresh_diff env w s ops"
      and w': "w' = w\<lparr>Current := s, CurrentPeers := peers_by_key (snap_Peers s)\<rparr>"
    from P [OF c] w' show ?thesis by simp
  qed (use P in \<open>simp_all, (blast+)?\<close>)
qed

theorem worker_rejects_replay_witness:
  "\<exists>w' k'. ApplyOnce sample_env sample_worker [(sample_delivery 7, None)] Map.empty = (None, w', [], k')
     \<and> snap_Generation (Current sample_worker) \<le> snap_Generation (Current w')"
  using sample_round [of 7 peer_a None "[]" Map.empty]
    worker_rejects_replay [OF sample_round [of 7 peer_a None "[]" Map.empty]] by auto

text \<open>
  After an acknowledgement fails the worker forgets what it applied. The peer set by the
  unacknowledged snapshot is not in its list, so the next snapshot, which no longer holds
  that peer, is applied and acknowledged without the peer being removed from the kernel.
\<close>

theorem unacknowledged_peer_is_kept:
  "\<exists>(env :: worker_env) (w :: (script, string \<rightharpoonup> addr_prefix set) worker) n k w1 n1 k1 w2 n2 k2 err.
     in_sync (\<lambda>m. m) w k
     \<and> ApplyOnce env w n k = (Some err, w1, n1, k1)
     \<and> ApplyOnce env w1 n1 k1 = (None, w2, n2, k2)
     \<and> (\<exists>key. peers_by_key (snap_Peers (Current w2)) key = None \<and> k2 key \<noteq> None)"
proof -
  let ?n = "[(sample_delivery 7, Some ErrNotFound), (sample_delivery 8, None)]"
  let ?a = "\<lparr>op_Kind = OperationAdd, op_Peer = peer_a\<rparr>" and ?b = "\<lparr>op_Kind = OperationAdd, op_Peer = peer_b\<rparr>"
  let ?w2 = "sample_worker\<lparr>Current := (one_peer 8 peer_b)\<lparr>snap_Signature := gw_signature\<rparr>,
      CurrentPeers := peers_by_key [peer_b]\<rparr>"
  have "in_sync (\<lambda>m. m) sample_worker Map.empty"
    by (simp add: in_sync_def sample_worker_def keyed_def)
  moreover have "ApplyOnce sample_env sample_worker ?n Map.empty =
      (Some ErrNotFound, sample_worker, [(sample_delivery 8, None)], op_effect ?a Map.empty)"
    using sample_round [of 7 peer_a "Some ErrNotFound"] by simp
  moreover have "ApplyOnce sample_env sample_worker [(sample_delivery 8, None)] (op_effect ?a Map.empty) =
      (None, ?w2, [], op_effect ?b (op_effect ?a Map.empty))"
    using sample_round [of 8 peer_b None] by simp
  moreover have "\<exists>key. peers_by_key (snap_Peers (Current ?w2)) key = None
      \<and> op_effect ?b (op_effect ?a Map.empty) key \<noteq> None"
    by (rule exI [of _ "sample_key CHR ''a''"])
      (simp add: one_peer_def peers_by_key_def op_effect_def sample_key_eq)
  ultimately show ?thesis by blast
qed

text \<open>
  The agent polls with bounded waiting times: however the rounds end, each wait is at least
  the configured interval and at most the larger of the interval and 30 seconds.
\<close>

theorem run_waits_bounded:
  assumes "Run interval turns w n k = Inr ((waits, stopped), r)"
  shows "0 < interval \<and> (\<forall>d\<in>set waits. interval \<le> d \<and> d \<le> max interval (30 * second))"
proof -
  from assms have i: "0 < interval" and t: "run_turns interval interval turns w n k = ((waits, stopped), r)"
    by (auto simp: Run_def split: if_splits)
  from run_turns_waits [OF i _ _ t] i show ?thesis by simp
qed

theorem run_waits_bounded_witness:
  "\<exists>r. Run (5 * second) [(sample_env, True)] sample_worker [(sample_delivery 7, None)] Map.empty =
     Inr (([5 * second], True), r) \<and> 5 * second \<le> 30 * second"
proof -
  obtain r where r: "Run (5 * second) [(sample_env, True)] sample_worker [(sample_delivery 7, None)] Map.empty =
     Inr (([5 * second], True), r)"
    using sample_round [of 7 peer_a None "[]" Map.empty] by (simp add: Run_def next_backoff_def)
  from run_waits_bounded [OF r] have "5 * second \<le> 30 * second" by simp
  with r show ?thesis by blast
qed

end
