(* ===== verification/DB.thy ===== *)
theory DB
  imports Control Go_NetIP "HOL-Library.Product_Lexorder"
begin

text \<open>
  The database of the control plane as \<^verbatim>\<open>internal/postgres/store.go\<close> and
  \<^verbatim>\<open>migrations/0001_initial.sql\<close> use it: one list of rows per table, statements as functions
  on the tables that either fail with a \<open>db_error\<close> or give a result and the new tables, and
  transactions that commit all statements or none. A uuid is kept as its canonical text.

  PostgreSQL itself is not code of the repository. What a statement of the code means is
  written out, with the constraints of the migration in the order PostgreSQL checks them
  (casts, checks, unique indexes, foreign keys); what stays an argument is in the record
  \<open>db_env\<close>: which database calls of an operation fail (\<open>fault\<close>, by the number of the call in
  the operation, with a flag that says whether a failed commit or single statement took
  effect nevertheless), generated ids, the clocks, the cast of texts to uuids, inet values
  and JSON, the text of an inet value, and the sort keys of the collation of the database. Transactions are serializable in the code; here
  they run one after the other, and a serialization failure is a fault.
\<close>

text \<open>
  A call fails with an error of PostgreSQL (its SQLSTATE and message) or of the driver; a query
  for one row that finds none is not a failure of the call.
\<close>

datatype db_failure = PgError string string | DbFailure string

datatype db_error = NoRows | Failed db_failure

text \<open>\<^verbatim>\<open>mapDatabaseError\<close> on an error; without an error the callers go on.\<close>

definition mapDatabaseError :: "db_error \<Rightarrow> error" where
  "mapDatabaseError err =
     (case err of
        NoRows \<Rightarrow> ErrNotFound
      | Failed (PgError code m) \<Rightarrow>
          if code = ''23505'' then ErrConflict
          else if code = ''23503'' then ErrNotFound
          else if code = ''22P02'' \<or> code = ''23514'' then ErrInvalidInput
          else Wrapped ''database operation'' (ErrText m)
      | Failed (DbFailure m) \<Rightarrow> Wrapped ''database operation'' (ErrText m))"

definition db_message :: "db_failure \<Rightarrow> error" where
  "db_message err = (case err of PgError code m \<Rightarrow> ErrText m | DbFailure m \<Rightarrow> ErrText m)"

abbreviation "unique_violation \<equiv> Failed (PgError ''23505'' ''unique violation'')"
abbreviation "foreign_key_violation \<equiv> Failed (PgError ''23503'' ''foreign key violation'')"
abbreviation "check_violation \<equiv> Failed (PgError ''23514'' ''check violation'')"
abbreviation "invalid_text \<equiv> Failed (PgError ''22P02'' ''invalid text representation'')"
abbreviation "out_of_range \<equiv> Failed (PgError ''22003'' ''bigint out of range'')"

section \<open>Tables\<close>

record user_row =
  u_id :: string
  u_email :: string
  u_hash :: string
  u_disabled :: "time option"

record device_row =
  d_id :: string
  d_user :: string
  d_name :: string
  d_platform :: string
  d_key :: string
  d_state :: DeviceState
  d_created :: time
  d_revoked :: "time option"

record region_row =
  r_id :: string
  r_display :: string
  r_v4pool :: string
  r_v6pool :: string
  r_dns4 :: addr
  r_dns6 :: addr
  r_available :: bool

datatype gateway_state = GwProvisioning | GwReady | GwDraining | GwOffline

record gateway_row =
  g_id :: string
  g_region :: string
  g_host :: string
  g_port :: nat
  g_key :: string
  g_state :: gateway_state
  g_capacity :: nat

record lease_row =
  l_id :: string
  l_region :: string
  l_device :: string
  l_v4 :: addr
  l_v6 :: addr
  l_released :: "time option"

datatype assignment_state = AsgPending | AsgActive | AsgRemovalPending | AsgRemoved

record assignment_row =
  a_id :: string
  a_device :: string
  a_gateway :: string
  a_lease :: string
  a_state :: assignment_state
  a_desired :: int
  a_observed :: int
  a_expires :: time
  a_created :: time

record idem_row =
  k_user :: string
  k_operation :: string
  k_hash :: string
  k_request :: string
  k_status :: nat
  k_body :: string
  k_expires :: time

datatype snapshot_state = SnapQueued | SnapInFlight | SnapAcked | SnapFailed

record snapshot_row =
  s_id :: string
  s_gateway :: string
  s_generation :: int
  s_payload :: string
  s_signature :: string
  s_state :: snapshot_state
  s_attempts :: nat
  s_available :: time
  s_sent :: "time option"
  s_acked :: "time option"
  s_error :: "string option"

record db =
  t_users :: "user_row list"
  t_devices :: "device_row list"
  t_regions :: "region_row list"
  t_gateways :: "gateway_row list"
  t_leases :: "lease_row list"
  t_assignments :: "assignment_row list"
  t_idem :: "idem_row list"
  t_snapshots :: "snapshot_row list"

text \<open>\<^verbatim>\<open>state IN ('pending', 'active', 'removal_pending')\<close>\<close>

definition live :: "assignment_row \<Rightarrow> bool" where
  "live a \<longleftrightarrow> a_state a \<in> {AsgPending, AsgActive, AsgRemovalPending}"

lemma live_iff: "live a \<longleftrightarrow> a_state a \<noteq> AsgRemoved"
  by (cases "a_state a") (auto simp: live_def)

section \<open>Calls and transactions\<close>

record db_env =
  fault :: "nat \<Rightarrow> (db_failure \<times> bool) option"
  new_id :: "nat \<Rightarrow> string"
  db_now :: time
  go_now :: time
  cast_uuid :: "string \<Rightarrow> string option"
  cast_inet :: "string \<Rightarrow> addr option"
  host_text :: "addr \<Rightarrow> string"
  cast_jsonb :: "string \<Rightarrow> string option"
  jsonb_object :: "string \<Rightarrow> bool"
  pg_lower :: "string \<Rightarrow> string"
  pg_collate :: "string \<Rightarrow> string"

type_synonym 'a statement = "db \<Rightarrow> db_error + 'a \<times> db"

text \<open>A statement inside a transaction: call number \<open>i\<close> of the operation.\<close>

definition attempt :: "db_env \<Rightarrow> nat \<Rightarrow> 'a statement \<Rightarrow> db \<Rightarrow> db_error + 'a \<times> db" where
  "attempt env i q d = (case fault env i of Some (e, _) \<Rightarrow> Inl (Failed e) | None \<Rightarrow> q d)"

text \<open>A single statement outside a transaction commits by itself.\<close>

definition autocommit :: "db_env \<Rightarrow> nat \<Rightarrow> 'a statement \<Rightarrow> db \<Rightarrow> (db_error + 'a) \<times> db" where
  "autocommit env i q d =
     (case fault env i of
        Some (e, took_effect) \<Rightarrow>
          (Inl (Failed e), if took_effect then (case q d of Inl _ \<Rightarrow> d | Inr (_, d') \<Rightarrow> d') else d)
      | None \<Rightarrow> (case q d of Inl e \<Rightarrow> (Inl e, d) | Inr (x, d') \<Rightarrow> (Inr x, d')))"

text \<open>
  A transaction: \<open>body\<close> ends with an error, which rolls back, or with a result, the number
  of its commit call and the text that wraps a failed commit.
\<close>

type_synonym 'a tx = "db \<Rightarrow> error + ('a \<times> nat \<times> string) \<times> db"

definition run_tx :: "db_env \<Rightarrow> string \<Rightarrow> 'a tx \<Rightarrow> db \<Rightarrow> 'a result \<times> db" where
  "run_tx env begin_message body d =
     (case fault env 0 of
        Some (e, _) \<Rightarrow> (Inl (Wrapped begin_message (db_message e)), d)
      | None \<Rightarrow>
          (case body d of
             Inl err \<Rightarrow> (Inl err, d)
           | Inr ((x, i, commit_message), d') \<Rightarrow>
               (case fault env i of
                  Some (e, took_effect) \<Rightarrow>
                    (Inl (Wrapped commit_message (db_message e)), if took_effect then d' else d)
                | None \<Rightarrow> (Inr x, d'))))"

text \<open>The cases of a transaction and of a single statement.\<close>

lemma run_tx_cases:
  assumes "run_tx env m body d = (r, d')"
  obtains (failed) e where "r = Inl e" "d' = d"
  | (lost) e x i c where "r = Inl e" "body d = Inr ((x, i, c), d')"
      "fault env i \<noteq> None"
  | (committed) x i c where "r = Inr x" "body d = Inr ((x, i, c), d')" "fault env i = None" "fault env 0 = None"
  using assms by (auto simp: run_tx_def split: option.splits sum.splits prod.splits if_splits)

lemma autocommit_cases:
  assumes "autocommit env i q d = (r, d')"
  obtains (failed) e where "r = Inl e" "d' = d"
  | (lost) e x where "r = Inl e" "q d = Inr (x, d')" "fault env i \<noteq> None"
  | (done_) x where "r = Inr x" "q d = Inr (x, d')" "fault env i = None"
  using assms by (auto simp: autocommit_def split: option.splits sum.splits prod.splits if_splits)

text \<open>An environment in which no call fails.\<close>

definition no_fault :: "db_env \<Rightarrow> bool" where
  "no_fault env \<longleftrightarrow> (\<forall>i. fault env i = None)"

lemma no_faultD: "no_fault env \<Longrightarrow> fault env i = None"
  by (simp add: no_fault_def)

section \<open>Texts of PostgreSQL\<close>

text \<open>\<^verbatim>\<open>length(text)\<close> counts characters: the bytes that do not continue a UTF-8 sequence.\<close>

definition char_length :: "string \<Rightarrow> nat" where
  "char_length s = length (filter (\<lambda>c. \<not> (CHR 0x80 \<le> c \<and> c \<le> CHR 0xBF)) s)"

definition btrim :: "string \<Rightarrow> string" where
  "btrim s = rev (dropWhile (\<lambda>c. c = CHR '' '') (rev (dropWhile (\<lambda>c. c = CHR '' '') s)))"

text \<open>A \<^verbatim>\<open>timestamptz\<close> keeps microseconds.\<close>

definition timestamp :: "time \<Rightarrow> time" where
  "timestamp t = t div 1000 * 1000"

end
