(* ===== verification/Allocator.thy ===== *)
theory Allocator
  imports Go_NetIP
begin

text \<open>
  The choice of a host address, \<^verbatim>\<open>firstAvailableAddress\<close> in \<^verbatim>\<open>internal/postgres/store.go\<close>:
  the least address of a pool that is not in use, above the network address and the address
  of the gateway, below the last address of an IPv4 pool. The loop tries at most 65535
  addresses, which is its bound in the code and the fuel of \<open>alloc_loop\<close>. The set of
  addresses in use is the Go map of the code.
\<close>

fun alloc_loop :: "addr_prefix \<Rightarrow> addr set \<Rightarrow> nat \<Rightarrow> addr \<Rightarrow> addr option" where
  "alloc_loop pool used 0 candidate = None"
| "alloc_loop pool used (Suc attempts) candidate =
     (if isValid candidate \<and> prefix_contains pool candidate then
        (if is4 candidate \<and> \<not> prefix_contains pool (next_addr candidate) then None
         else if candidate \<notin> used then Some candidate
         else alloc_loop pool used attempts (next_addr candidate))
      else None)"

definition max_attempts :: nat where "max_attempts = 65535"

definition firstAvailableAddress :: "string \<Rightarrow> addr set \<Rightarrow> addr result" where
  "firstAvailableAddress poolText used =
     (case parsePrefix poolText of
        None \<Rightarrow> Inl (Wrapped ''parse address pool'' (ErrText ''netip.ParsePrefix''))
      | Some pool \<Rightarrow>
          (case alloc_loop pool used max_attempts (next_addr (next_addr (masked_addr pool))) of
             None \<Rightarrow> Inl ErrCapacityExhausted
           | Some a \<Rightarrow> Inr a))"

section \<open>Which addresses are hosts\<close>

text \<open>The first address of a pool, and the addresses that may be handed out.\<close>

definition pool_base :: "addr_prefix \<Rightarrow> nat" where
  "pool_base p = addr_nat (masked_addr p)"

definition host_of :: "addr_prefix \<Rightarrow> addr \<Rightarrow> bool" where
  "host_of p a \<longleftrightarrow> isValid a \<and> prefix_contains p a \<and> pool_base p + 2 \<le> addr_nat a
     \<and> (is4 a \<longrightarrow> prefix_contains p (next_addr a))"

declare masked_addr.simps [simp del] prefix_contains.simps [simp del]

lemma div_interval:
  fixes n m k :: nat
  assumes "0 < k"
  shows "n div k = m div k \<longleftrightarrow> m div k * k \<le> n \<and> n < m div k * k + k"
proof
  assume "n div k = m div k"
  moreover have "n div k * k \<le> n \<and> n < n div k * k + k"
    using assms by (simp add: dividend_less_div_times add.commute)
  ultimately show "m div k * k \<le> n \<and> n < m div k * k + k" by simp
next
  assume "m div k * k \<le> n \<and> n < m div k * k + k"
  then show "n div k = m div k" by (intro div_nat_eqI) (auto simp: algebra_simps)
qed

lemma contains_interval:
  assumes "isValid (prefix_addr p)"
  shows "prefix_contains p a \<longleftrightarrow> bitLen a = bitLen (prefix_addr p)
     \<and> pool_base p \<le> addr_nat a \<and> addr_nat a < pool_base p + 2 ^ host_bits p"
  by (simp add: prefix_contains_iff [OF assms] pool_base_def masked_addr_facts [OF assms] div_interval)

lemma next_valid_contains:
  assumes "isValid (prefix_addr p)" "prefix_contains p (next_addr a)"
  shows "isValid (next_addr a)"
  using assms by (cases "next_addr a"; cases "prefix_addr p") (auto simp: contains_interval)

section \<open>The loop\<close>

text \<open>
  The loop from candidate \<open>c\<close> with \<open>n\<close> attempts: the result is the first free host address at
  or above \<open>c\<close>, and without a result every host address in reach is in use.
\<close>

lemma alloc_loop_Some:
  assumes p: "isValid (prefix_addr p)" and r: "alloc_loop p used n c = Some a"
    and c: "isValid c \<longrightarrow> pool_base p + 2 \<le> addr_nat c"
  shows "host_of p a \<and> a \<notin> used \<and> addr_nat c \<le> addr_nat a \<and> addr_nat a < addr_nat c + n
    \<and> (\<forall>b. host_of p b \<longrightarrow> addr_nat c \<le> addr_nat b \<longrightarrow> addr_nat b < addr_nat a \<longrightarrow> b \<in> used)"
  using r c
proof (induction n arbitrary: c)
  case (Suc n)
  from Suc.prems(1) have v: "isValid c" "prefix_contains p c"
    and last: "\<not> (is4 c \<and> \<not> prefix_contains p (next_addr c))"
    by (auto split: if_splits)
  show ?case
  proof (cases "c \<in> used")
    case False
    with Suc.prems v last show ?thesis by (auto simp: host_of_def split: if_splits)
  next
    case True
    with Suc.prems(1) v last have r: "alloc_loop p used n (next_addr c) = Some a"
      by (auto split: if_splits)
    then have nv: "isValid (next_addr c)" by (cases n) (auto split: if_splits)
    note nx = next_addr_valid(1) [OF nv]
    have ih: "host_of p a \<and> a \<notin> used \<and> addr_nat (next_addr c) \<le> addr_nat a
        \<and> addr_nat a < addr_nat (next_addr c) + n
        \<and> (\<forall>b. host_of p b \<longrightarrow> addr_nat (next_addr c) \<le> addr_nat b \<longrightarrow> addr_nat b < addr_nat a \<longrightarrow> b \<in> used)"
      using Suc.prems(2) v nx by (intro Suc.IH [OF r]) auto
    have "b \<in> used" if "host_of p b" "addr_nat c \<le> addr_nat b" "addr_nat b < addr_nat a" for b
    proof (cases "addr_nat b = addr_nat c")
      case eq: True
      have "bitLen b = bitLen c" using that(1) v p by (simp add: host_of_def contains_interval)
      with eq True show ?thesis by (metis addr_eq_iff)
    next
      case False
      with that ih nx show ?thesis by auto
    qed
    with ih nx show ?thesis by auto
  qed
qed simp

lemma alloc_loop_None:
  assumes p: "isValid (prefix_addr p)" and r: "alloc_loop p used n c = None"
    and b: "host_of p b" "addr_nat c \<le> addr_nat b" "addr_nat b < addr_nat c + n"
    and c: "isValid c" "bitLen c = bitLen (prefix_addr p)" "pool_base p + 2 \<le> addr_nat c"
  shows "b \<in> used"
  using r b c
proof (induction n arbitrary: c)
  case (Suc n)
  note hb = Suc.prems(2)
  have cc: "prefix_contains p c"
    using Suc.prems p by (auto simp: host_of_def contains_interval)
  have bb: "bitLen b = bitLen c" using hb p Suc.prems(6) by (simp add: host_of_def contains_interval)
  have host: "host_of p c"
  proof (cases "is4 c")
    case False
    with Suc.prems cc show ?thesis by (simp add: host_of_def)
  next
    case True
    have "is4 b" using True bb by (cases b; cases c) auto
    with hb have nb: "prefix_contains p (next_addr b)" by (simp add: host_of_def)
    from next_valid_contains [OF p nb] have vb: "isValid (next_addr b)" .
    have "Suc (addr_nat c) < 2 ^ bitLen c"
      using next_addr_valid(1,2) [OF vb] addr_nat_bound [of "next_addr b"] Suc.prems(3) bb by simp
    with Suc.prems(5) next_addr_NoAddr_iff [of c] have "isValid (next_addr c)"
      by (cases "next_addr c") auto
    from next_addr_valid [OF this] have n: "addr_nat (next_addr c) = Suc (addr_nat c)"
      "bitLen (next_addr c) = bitLen c" by auto
    from nb next_addr_valid(1) [OF vb] have "Suc (addr_nat b) < pool_base p + 2 ^ host_bits p"
      by (simp add: contains_interval [OF p])
    with cc n Suc.prems(3) have "prefix_contains p (next_addr c)" by (simp add: contains_interval [OF p])
    with Suc.prems cc show ?thesis by (simp add: host_of_def)
  qed
  with Suc.prems(1,5) cc have used: "c \<in> used" and rest: "alloc_loop p used n (next_addr c) = None"
    by (auto simp: host_of_def split: if_splits)
  show ?case
  proof (cases "addr_nat b = addr_nat c")
    case True
    with bb used show ?thesis by (metis addr_eq_iff)
  next
    case False
    with Suc.prems(3) have lt: "addr_nat c < addr_nat b" by simp
    have "Suc (addr_nat c) < 2 ^ bitLen c"
      using lt addr_nat_bound [of b] bb by simp
    with Suc.prems(5) next_addr_NoAddr_iff [of c] have nv: "isValid (next_addr c)"
      by (cases "next_addr c") auto
    show ?thesis
      by (rule Suc.IH [OF rest hb]) (use lt Suc.prems next_addr_valid [OF nv] nv in auto)
  qed
qed simp

section \<open>The function\<close>

lemma second_addr:
  assumes p: "isValid (prefix_addr p)" and v: "isValid (next_addr (next_addr (masked_addr p)))"
  shows "addr_nat (next_addr (next_addr (masked_addr p))) = pool_base p + 2"
    and "bitLen (next_addr (next_addr (masked_addr p))) = bitLen (prefix_addr p)"
  using next_addr_valid [OF v] next_addr_valid [OF next_addr_valid(4) [OF v]] masked_addr_facts [OF p]
  by (simp_all add: pool_base_def)

lemma no_second_addr:
  assumes p: "isValid (prefix_addr p)" and v: "\<not> isValid (next_addr (next_addr (masked_addr p)))"
  shows "\<not> host_of p b"
proof
  assume b: "host_of p b"
  have n: "x = NoAddr" if "\<not> isValid x" for x using that by (cases x) auto
  have "2 ^ bitLen (masked_addr p) \<le> pool_base p + 2"
  proof (cases "isValid (next_addr (masked_addr p))")
    case True
    with n [OF v] next_addr_NoAddr_iff [OF True] next_addr_valid [OF True] show ?thesis
      by (simp add: pool_base_def)
  next
    case False
    with n [OF False] next_addr_NoAddr_iff [OF masked_addr_facts(3) [OF p]] show ?thesis
      by (simp add: pool_base_def)
  qed
  moreover have "bitLen b = bitLen (masked_addr p)"
    using b p masked_addr_facts(1) [OF p] by (simp add: host_of_def contains_interval)
  ultimately show False using b addr_nat_bound [of b] by (simp add: host_of_def)
qed

lemma alloc_loop_valid: "alloc_loop p used n c = Some a \<Longrightarrow> isValid c"
  by (cases n) (auto split: if_splits)

lemma firstAvailableAddress_Inr:
  assumes "firstAvailableAddress t used = Inr a"
  obtains p where "parsePrefix t = Some p" "host_of p a" "a \<notin> used"
    "\<And>b. host_of p b \<Longrightarrow> addr_nat b < addr_nat a \<Longrightarrow> b \<in> used"
proof -
  let ?c = "\<lambda>p. next_addr (next_addr (masked_addr p))"
  from assms obtain p where p: "parsePrefix t = Some p"
    and r: "alloc_loop p used max_attempts (?c p) = Some a"
    by (auto simp: firstAvailableAddress_def split: option.splits)
  have v: "isValid (prefix_addr p)" using parsePrefix_valid [OF p] by simp
  from r have c: "isValid (?c p)" by (rule alloc_loop_valid)
  note sec = second_addr(1) [OF v c]
  from alloc_loop_Some [OF v r] sec
  have a: "host_of p a" "a \<notin> used"
    "\<And>b. host_of p b \<Longrightarrow> addr_nat (?c p) \<le> addr_nat b \<Longrightarrow> addr_nat b < addr_nat a \<Longrightarrow> b \<in> used"
    by auto
  show thesis
  proof (rule that [OF p a(1,2)])
    fix b assume b: "host_of p b" "addr_nat b < addr_nat a"
    then have "addr_nat (?c p) \<le> addr_nat b" unfolding sec by (simp add: host_of_def)
    from a(3) [OF b(1) this b(2)] show "b \<in> used" .
  qed
qed

lemma firstAvailableAddress_full:
  assumes "firstAvailableAddress t used = Inl ErrCapacityExhausted"
  obtains p where "parsePrefix t = Some p"
    "\<And>b. host_of p b \<Longrightarrow> addr_nat b < pool_base p + 2 + max_attempts \<Longrightarrow> b \<in> used"
proof -
  let ?c = "\<lambda>p. next_addr (next_addr (masked_addr p))"
  from assms obtain p where p: "parsePrefix t = Some p"
    and r: "alloc_loop p used max_attempts (?c p) = None"
    by (auto simp: firstAvailableAddress_def split: option.splits)
  have v: "isValid (prefix_addr p)" using parsePrefix_valid [OF p] by simp
  show thesis
  proof (rule that [OF p])
    fix b assume b: "host_of p b" "addr_nat b < pool_base p + 2 + max_attempts"
    from no_second_addr [OF v] b(1) have c: "isValid (?c p)" by blast
    note sec = second_addr [OF v c]
    from b(1) have "pool_base p + 2 \<le> addr_nat b" by (simp add: host_of_def)
    with alloc_loop_None [OF v r b(1)] b(2) c sec show "b \<in> used" by simp
  qed
qed

lemma firstAvailableAddress_error:
  "firstAvailableAddress t used = Inl e \<Longrightarrow> parsePrefix t = Some p \<Longrightarrow> e = ErrCapacityExhausted"
  by (auto simp: firstAvailableAddress_def split: option.splits)

section \<open>Properties\<close>

text \<open>
  C36: The allocator gives out the least free host address of the pool: inside the pool, not in
  use, above the network address and the gateway's address, in an IPv4 pool below the
  broadcast address, and every smaller host address is in use.
\<close>

theorem allocates_least_free_address:
  assumes "firstAvailableAddress poolText used = Inr a"
  shows "\<exists>p. parsePrefix poolText = Some p \<and> prefix_contains p a \<and> a \<notin> used
     \<and> addr_nat (masked_addr p) + 2 \<le> addr_nat a
     \<and> (is4 a \<longrightarrow> addr_nat a + 1 < addr_nat (masked_addr p) + 2 ^ (32 - prefix_bits p))
     \<and> (\<forall>b. prefix_contains p b \<and> addr_nat (masked_addr p) + 2 \<le> addr_nat b \<and> addr_nat b < addr_nat a
          \<longrightarrow> b \<in> used)"
proof -
  from assms obtain p where p: "parsePrefix poolText = Some p" "host_of p a" "a \<notin> used"
    "\<And>b. host_of p b \<Longrightarrow> addr_nat b < addr_nat a \<Longrightarrow> b \<in> used"
    by (rule firstAvailableAddress_Inr) auto
  have v: "isValid (prefix_addr p)" using parsePrefix_valid [OF p(1)] by simp
  have a4: "addr_nat a + 1 < pool_base p + 2 ^ host_bits p \<and> host_bits p = 32 - prefix_bits p" if "is4 a"
  proof -
    from that p(2) have n: "prefix_contains p (next_addr a)" by (simp add: host_of_def)
    from next_addr_valid(1) [OF next_valid_contains [OF v n]] n
    have "addr_nat a + 1 < pool_base p + 2 ^ host_bits p" by (simp add: contains_interval [OF v])
    moreover have "bitLen (prefix_addr p) = 32"
      using p(2) that by (cases a) (auto simp: host_of_def contains_interval [OF v])
    ultimately show ?thesis by (simp add: host_bits_def)
  qed
  have "b \<in> used" if b: "prefix_contains p b" "pool_base p + 2 \<le> addr_nat b" "addr_nat b < addr_nat a" for b
  proof (rule p(4))
    have len: "bitLen b = bitLen a" using b p(2) by (simp add: host_of_def contains_interval [OF v])
    have vb: "isValid b" using b(2) by (cases b) auto
    have "prefix_contains p (next_addr b)" if "is4 b"
    proof -
      have "is4 a" using len \<open>is4 b\<close> by (cases a; cases b) auto
      from conjunct1 [OF a4 [OF this]] b(3) have lt: "addr_nat b + 1 < pool_base p + 2 ^ host_bits p"
        by simp
      have "Suc (addr_nat b) < 2 ^ bitLen b" using b(3) addr_nat_bound [of a] len by simp
      with next_addr_NoAddr_iff [OF vb] have "isValid (next_addr b)" by (cases "next_addr b") auto
      from next_addr_valid [OF this] lt b(1) show ?thesis by (simp add: contains_interval [OF v])
    qed
    with b vb show "host_of p b" by (simp add: host_of_def)
  qed (fact b(3))
  with p a4 show ?thesis by (auto simp: host_of_def pool_base_def)
qed

theorem allocates_least_free_address_witness:
  "\<exists>p. parsePrefix ''10.70.0.0/29'' = Some p \<and> prefix_contains p (V4 0x0A460004)
     \<and> addr_nat (V4 0x0A460004) + 1 < addr_nat (masked_addr p) + 2 ^ (32 - prefix_bits p)"
proof -
  have "firstAvailableAddress ''10.70.0.0/29'' {V4 0x0A460002, V4 0x0A460003} = Inr (V4 0x0A460004)"
    by code_simp
  from allocates_least_free_address [OF this] show ?thesis by auto
qed

text \<open>The address of a family with a given number.\<close>

definition addr_at :: "addr_prefix \<Rightarrow> nat \<Rightarrow> addr" where
  "addr_at p n = (case prefix_addr p of V4 _ \<Rightarrow> V4 (word_of_nat n) | _ \<Rightarrow> V6 (word_of_nat n))"

lemma addr_at:
  assumes "isValid (prefix_addr p)" "n < 2 ^ bitLen (prefix_addr p)"
  shows "addr_nat (addr_at p n) = n" "bitLen (addr_at p n) = bitLen (prefix_addr p)" "isValid (addr_at p n)"
  using assms by (cases "prefix_addr p"; simp add: addr_at_def unsigned_of_nat take_bit_nat_eq_self)+

text \<open>The number of hosts of an IPv4 and of an IPv6 pool.\<close>

definition pool_hosts :: "addr_prefix \<Rightarrow> nat" where
  "pool_hosts p = 2 ^ host_bits p - (if is4 (prefix_addr p) then 3 else 2)"

lemma pool_fits:
  assumes "isValid (prefix_addr p)" "prefix_bits p \<le> bitLen (prefix_addr p)"
  shows "pool_base p + 2 ^ host_bits p \<le> 2 ^ bitLen (prefix_addr p)"
proof -
  let ?k = "2 ^ host_bits p :: nat" and ?n = "addr_nat (prefix_addr p)"
  have e: "2 ^ bitLen (prefix_addr p) = 2 ^ prefix_bits p * ?k"
    using assms(2) by (simp add: host_bits_def power_add [symmetric])
  have "?n div ?k < 2 ^ prefix_bits p"
    using addr_nat_bound [of "prefix_addr p"] unfolding e by (simp add: less_mult_imp_div_less)
  then have "(?n div ?k + 1) * ?k \<le> 2 ^ prefix_bits p * ?k" by (intro mult_right_mono) auto
  then show ?thesis by (simp add: pool_base_def masked_addr_facts(4) [OF assms(1)] e)
qed

lemma hosts_of_pool:
  assumes p: "isValid (prefix_addr p)" "prefix_bits p \<le> bitLen (prefix_addr p)" and i: "i < pool_hosts p"
  shows "host_of p (addr_at p (pool_base p + 2 + i))"
    and "addr_nat (addr_at p (pool_base p + 2 + i)) = pool_base p + 2 + i"
proof -
  let ?n = "pool_base p + 2 + i"
  have lt: "?n < pool_base p + 2 ^ host_bits p" "is4 (prefix_addr p) \<Longrightarrow> ?n + 1 < pool_base p + 2 ^ host_bits p"
    using i by (auto simp: pool_hosts_def split: if_splits)
  with pool_fits [OF p] have n: "?n < 2 ^ bitLen (prefix_addr p)" by simp
  note a = addr_at [OF p(1) n]
  have c: "prefix_contains p (addr_at p ?n)" using a lt(1) by (simp add: contains_interval [OF p(1)])
  have "prefix_contains p (next_addr (addr_at p ?n))" if "is4 (addr_at p ?n)"
  proof -
    have "is4 (prefix_addr p)" using that a(2) by (cases "addr_at p ?n"; cases "prefix_addr p") auto
    from lt(2) [OF this] have l: "?n + 1 < pool_base p + 2 ^ host_bits p" .
    with pool_fits [OF p] have "Suc ?n < 2 ^ bitLen (prefix_addr p)" by simp
    with next_addr_NoAddr_iff [OF a(3)] a(1,2) have "isValid (next_addr (addr_at p ?n))"
      by (cases "next_addr (addr_at p ?n)") auto
    from next_addr_valid [OF this] a l show ?thesis by (simp add: contains_interval [OF p(1)])
  qed
  with a c show "host_of p (addr_at p ?n)" by (simp add: host_of_def)
  show "addr_nat (addr_at p ?n) = ?n" by (rule a(1))
qed

text \<open>
  C37: The allocator never refuses while there is room: on a well formed pool it fails only with
  \<open>ErrCapacityExhausted\<close>, and only when at least as many addresses are in use as the pool has
  hosts, or 65535 if it has more (the network address, the gateway's and, for IPv4, the
  broadcast address are no hosts).
\<close>

theorem allocator_uses_whole_pool:
  assumes "parsePrefix poolText = Some p" and "finite used"
    and "firstAvailableAddress poolText used = Inl err"
  shows "err = ErrCapacityExhausted
     \<and> min 65535 (2 ^ (bitLen (prefix_addr p) - prefix_bits p) - (if is4 (prefix_addr p) then 3 else 2))
        \<le> card used"
proof -
  have e: "err = ErrCapacityExhausted" by (rule firstAvailableAddress_error [OF assms(3,1)])
  have v: "isValid (prefix_addr p)" "prefix_bits p \<le> bitLen (prefix_addr p)"
    using parsePrefix_valid [OF assms(1)] by auto
  have full: "b \<in> used" if "host_of p b" "addr_nat b < pool_base p + 2 + max_attempts" for b
  proof (rule firstAvailableAddress_full [OF assms(3) [unfolded e]])
    fix q assume "parsePrefix poolText = Some q"
      "\<And>b. host_of q b \<Longrightarrow> addr_nat b < pool_base q + 2 + max_attempts \<Longrightarrow> b \<in> used"
    with assms(1) that show ?thesis by simp
  qed
  let ?m = "min max_attempts (pool_hosts p)" and ?f = "\<lambda>i. addr_at p (pool_base p + 2 + i)"
  have "?f i \<in> used" if "i < ?m" for i
  proof (rule full)
    from that have i: "i < pool_hosts p" "i < max_attempts" by simp_all
    show "host_of p (?f i)" by (rule hosts_of_pool(1) [OF v i(1)])
    show "addr_nat (?f i) < pool_base p + 2 + max_attempts"
      unfolding hosts_of_pool(2) [OF v i(1)] using i(2) by simp
  qed
  then have "?f ` {..<?m} \<subseteq> used" by auto
  moreover have "inj_on ?f {..<?m}"
  proof (rule inj_onI)
    fix i j assume "i \<in> {..<?m}" "j \<in> {..<?m}" "?f i = ?f j"
    then have "i < pool_hosts p" "j < pool_hosts p" "addr_nat (?f i) = addr_nat (?f j)" by simp_all
    then show "i = j" by (simp only: hosts_of_pool(2) [OF v])
  qed
  ultimately have "?m \<le> card used"
    using card_inj_on_le [of ?f "{..<?m}" used] assms(2) by simp
  with e show ?thesis by (simp add: max_attempts_def pool_hosts_def host_bits_def)
qed

theorem allocator_uses_whole_pool_witness:
  "firstAvailableAddress ''10.70.0.0/30'' {V4 0x0A460002} = Inl ErrCapacityExhausted
   \<and> min 65535 (2 ^ (32 - 30) - 3) \<le> card {V4 0x0A460002}"
proof -
  have f: "firstAvailableAddress ''10.70.0.0/30'' {V4 0x0A460002} = Inl ErrCapacityExhausted" by code_simp
  have p: "parsePrefix ''10.70.0.0/30'' = Some \<lparr>prefix_addr = V4 0x0A460000, prefix_bits = 30\<rparr>" by code_simp
  from allocator_uses_whole_pool [OF p _ f] f show ?thesis by simp
qed

section \<open>The search ends\<close>

text \<open>
  The same search without a bound on the attempts: a loop that may not end, so its value is
  \<open>None\<close> when it does not, and otherwise the outcome of the search.
\<close>

partial_function (option) alloc_search :: "addr_prefix \<Rightarrow> addr set \<Rightarrow> addr \<Rightarrow> addr option option" where
  [code]: "alloc_search pool used candidate =
     (if isValid candidate \<and> prefix_contains pool candidate then
        (if is4 candidate \<and> \<not> prefix_contains pool (next_addr candidate) then Some None
         else if candidate \<notin> used then Some (Some candidate)
         else alloc_search pool used (next_addr candidate))
      else Some None)"

text \<open>Every used address that is passed is one less ahead.\<close>

lemma alloc_search_ends:
  assumes "finite used" "card {u \<in> used. addr_nat c \<le> addr_nat u} < n"
  shows "alloc_search pool used c = Some (alloc_loop pool used n c)"
  using assms(2)
proof (induction n arbitrary: c)
  case (Suc n)
  show ?case
  proof (cases "isValid c \<and> prefix_contains pool c \<and> \<not> (is4 c \<and> \<not> prefix_contains pool (next_addr c)) \<and> c \<in> used")
    case False
    then show ?thesis by (subst alloc_search.simps) auto
  next
    case c: True
    show ?thesis
    proof (cases "isValid (next_addr c)")
      case False
      then have "alloc_search pool used (next_addr c) = Some None" by (subst alloc_search.simps) simp
      moreover have "alloc_loop pool used n (next_addr c) = None" using False by (cases n) simp_all
      ultimately show ?thesis using c by (subst alloc_search.simps) auto
    next
      case True
      note nx = next_addr_valid(1) [OF True]
      let ?S = "\<lambda>x. {u \<in> used. addr_nat x \<le> addr_nat u}"
      have "?S (next_addr c) \<subseteq> ?S c" "c \<in> ?S c" "c \<notin> ?S (next_addr c)" using c nx by auto
      then have "?S (next_addr c) \<subset> ?S c" by blast
      then have "card (?S (next_addr c)) < card (?S c)" using assms(1) by (intro psubset_card_mono) auto
      with Suc.prems have "card (?S (next_addr c)) < n" by simp
      from Suc.IH [OF this] c show ?thesis by (subst alloc_search.simps) auto
    qed
  qed
qed simp

text \<open>
  C38: The search for an address ends by itself. Without the bound of 65535 attempts it would
  still stop, after at most one attempt more than there are addresses in use; the bound only
  guards it, and as long as fewer than 65535 addresses are in use the function returns what the
  unbounded search finds.
\<close>

theorem allocator_search_terminates:
  assumes "finite used" and "card used < n"
  shows "\<exists>r. alloc_search pool used c = Some r \<and> alloc_loop pool used n c = r
     \<and> (card used < 65535 \<longrightarrow> alloc_loop pool used max_attempts c = r)"
proof -
  have "card {u \<in> used. addr_nat c \<le> addr_nat u} \<le> card used" by (intro card_mono assms(1)) auto
  with alloc_search_ends [OF assms(1), of c n pool] alloc_search_ends [OF assms(1), of c max_attempts pool] assms(2)
  show ?thesis by (auto simp: max_attempts_def)
qed

theorem allocator_search_terminates_witness:
  "alloc_search \<lparr>prefix_addr = V4 0x0A460000, prefix_bits = 29\<rparr> {V4 0x0A460002, V4 0x0A460003} (V4 0x0A460002) =
     Some (Some (V4 0x0A460004))"
proof -
  have "alloc_loop \<lparr>prefix_addr = V4 0x0A460000, prefix_bits = 29\<rparr> {V4 0x0A460002, V4 0x0A460003} 3 (V4 0x0A460002) =
      Some (V4 0x0A460004)" by code_simp
  with allocator_search_terminates [of "{V4 0x0A460002, V4 0x0A460003}" 3
      "\<lparr>prefix_addr = V4 0x0A460000, prefix_bits = 29\<rparr>" "V4 0x0A460002"]
  show ?thesis by (auto simp: card_insert_if)
qed

end
