(* ===== verification/Store.thy ===== *)
theory Store
  imports DB Allocator
begin

text \<open>
  The PostgreSQL store of users, devices and tunnels, \<^verbatim>\<open>internal/postgres/store.go\<close>: each
  operation as its statements in the order of the code. The number given to \<open>attempt\<close> and
  \<open>autocommit\<close> is the place of the call in the operation. SHA-256 (\<open>sha\<close>) and the JSON
  texts of a configuration (\<open>enc\<close>, \<open>dec\<close>) are arguments.
\<close>

section \<open>Users\<close>

definition email_ok :: "db_env \<Rightarrow> string \<Rightarrow> bool" where
  "email_ok env email \<longleftrightarrow> email = pg_lower env (btrim email)
     \<and> 3 \<le> char_length email \<and> char_length email \<le> 320"

definition insert_user :: "db_env \<Rightarrow> string \<Rightarrow> string \<Rightarrow> string statement" where
  "insert_user env email h d =
     (if \<not> email_ok env email then Inl check_violation
      else if new_id env 0 \<in> u_id ` set (t_users d) then Inl unique_violation
      else if email \<in> u_email ` set (t_users d) then Inl unique_violation
      else Inr (new_id env 0,
        d\<lparr>t_users := t_users d @
            [\<lparr>u_id = new_id env 0, u_email = email, u_hash = h, u_disabled = None\<rparr>]\<rparr>))"

definition CreateUser :: "db_env \<Rightarrow> string \<Rightarrow> string \<Rightarrow> db \<Rightarrow> string result \<times> db" where
  "CreateUser env normalizedEmail passwordHash d =
     (case autocommit env 0 (insert_user env normalizedEmail passwordHash) d of
        (Inl err, d') \<Rightarrow> (Inl (mapDatabaseError err), d')
      | (Inr i, d') \<Rightarrow> (Inr i, d'))"

definition FindUserPasswordHash :: "db_env \<Rightarrow> string \<Rightarrow> db \<Rightarrow> (string \<times> string \<times> bool) result" where
  "FindUserPasswordHash env normalizedEmail d =
     (case attempt env 0 (\<lambda>d. case find (\<lambda>u. u_email u = normalizedEmail) (t_users d) of
             None \<Rightarrow> Inl NoRows | Some u \<Rightarrow> Inr (u, d)) d of
        Inl err \<Rightarrow> Inl (mapDatabaseError err)
      | Inr (u, _) \<Rightarrow> Inr (u_id u, u_hash u, u_disabled u \<noteq> None))"

section \<open>Devices\<close>

definition device_of_row :: "device_row \<Rightarrow> Device" where
  "device_of_row r =
     \<lparr>dev_ID = d_id r, dev_Name = d_name r, dev_Platform = d_platform r, dev_PublicKey = d_key r,
      dev_State = d_state r, dev_CreatedAt = d_created r, dev_ownerID = ''''\<rparr>"

definition insert_device :: "db_env \<Rightarrow> string \<Rightarrow> string \<Rightarrow> Platform \<Rightarrow> string \<Rightarrow> device_row statement" where
  "insert_device env ownerID name platform key d =
     (case cast_uuid env ownerID of
        None \<Rightarrow> Inl invalid_text
      | Some owner \<Rightarrow>
          if \<not> validPlatform platform then Inl invalid_text
          else if char_length (btrim name) < 1 \<or> 80 < char_length (btrim name) then Inl check_violation
          else if \<not> key_pattern key then Inl check_violation
          else if new_id env 0 \<in> d_id ` set (t_devices d) then Inl unique_violation
          else if key \<in> d_key ` set (t_devices d) then Inl unique_violation
          else if owner \<notin> u_id ` set (t_users d) then Inl foreign_key_violation
          else
            let row = \<lparr>d_id = new_id env 0, d_user = owner, d_name = name, d_platform = platform,
                       d_key = key, d_state = DeviceActive, d_created = timestamp (db_now env),
                       d_revoked = None\<rparr>
            in Inr (row, d\<lparr>t_devices := t_devices d @ [row]\<rparr>))"

definition Store_RegisterDevice ::
  "db_env \<Rightarrow> string \<Rightarrow> RegisterDeviceRequest \<Rightarrow> db \<Rightarrow> Device result \<times> db" where
  "Store_RegisterDevice env ownerID request d =
     (case ValidateRegisterDevice ownerID request of
        Some err \<Rightarrow> (Inl err, d)
      | None \<Rightarrow>
          (case autocommit env 0 (insert_device env ownerID (trimSpace (req_Name request))
                  (req_Platform request) (req_PublicKey request)) d of
             (Inl err, d') \<Rightarrow> (Inl (mapDatabaseError err), d')
           | (Inr row, d') \<Rightarrow> (Inr (device_of_row row), d')))"

definition Store_ListDevices :: "db_env \<Rightarrow> string \<Rightarrow> db \<Rightarrow> Device list result" where
  "Store_ListDevices env ownerID d =
     (case attempt env 0 (\<lambda>d. case cast_uuid env ownerID of
             None \<Rightarrow> Inl invalid_text
           | Some owner \<Rightarrow> Inr (sort_key (\<lambda>r. (d_created r, d_id r))
               (filter (\<lambda>r. d_user r = owner) (t_devices d)), d)) d of
        Inl err \<Rightarrow> Inl (mapDatabaseError err)
      | Inr (rows, _) \<Rightarrow>
          (case fault env 1 of
             Some (err, _) \<Rightarrow> Inl (Wrapped ''list devices'' (db_message err))
           | None \<Rightarrow> Inr (map device_of_row rows)))"

definition revoke_row :: "string \<Rightarrow> string \<Rightarrow> device_row \<Rightarrow> device_row" where
  "revoke_row owner device r =
     (if d_id r = device \<and> d_user r = owner
      then r\<lparr>d_state := (if d_state r = DeviceRevoked then d_state r else DeviceRevocationPending)\<rparr>
      else r)"

definition update_revocation :: "db_env \<Rightarrow> string \<Rightarrow> string \<Rightarrow> string statement" where
  "update_revocation env ownerID deviceID d =
     (case (cast_uuid env deviceID, cast_uuid env ownerID) of
        (Some device, Some owner) \<Rightarrow>
          if \<exists>r\<in>set (t_devices d). d_id r = device \<and> d_user r = owner
          then Inr (device, d\<lparr>t_devices := map (revoke_row owner device) (t_devices d)\<rparr>)
          else Inl NoRows
      | _ \<Rightarrow> Inl invalid_text)"

definition Store_RequestRevocation :: "db_env \<Rightarrow> string \<Rightarrow> string \<Rightarrow> db \<Rightarrow> unit result \<times> db" where
  "Store_RequestRevocation env ownerID deviceID d =
     (case autocommit env 0 (update_revocation env ownerID deviceID) d of
        (Inl err, d') \<Rightarrow> (Inl (mapDatabaseError err), d')
      | (Inr _, d') \<Rightarrow> (Inr (), d'))"

definition Store_ListRegions :: "db_env \<Rightarrow> db \<Rightarrow> Region list result" where
  "Store_ListRegions env d =
     (case fault env 0 of
        Some (err, _) \<Rightarrow> Inl (mapDatabaseError (Failed err))
      | None \<Rightarrow>
          (case fault env 1 of
             Some (err, _) \<Rightarrow> Inl (Wrapped ''list regions'' (db_message err))
           | None \<Rightarrow>
               Inr (map (\<lambda>r. \<lparr>reg_ID = r_id r, reg_DisplayName = r_display r,
                              reg_Available = r_available r, reg_Endpoint = '''',
                              reg_ServerPublicKey = '''', reg_DNSv4 = '''', reg_DNSv6 = ''''\<rparr>)
                     (sort_key (\<lambda>r. pg_collate env (r_id r)) (t_regions d)))))"

section \<open>Tunnels\<close>

text \<open>\<^verbatim>\<open>net.JoinHostPort\<close>\<close>

definition joinHostPort :: "string \<Rightarrow> string \<Rightarrow> string" where
  "joinHostPort host port =
     (if CHR '':'' \<in> set host then ''['' @ host @ '']:'' @ port else host @ '':'' @ port)"

text \<open>Line 494--502: the device of the owner, whatever its state.\<close>

definition select_device :: "db_env \<Rightarrow> string \<Rightarrow> string \<Rightarrow> device_row statement" where
  "select_device env ownerID deviceID d =
     (case (cast_uuid env deviceID, cast_uuid env ownerID) of
        (Some device, Some owner) \<Rightarrow>
          (case find (\<lambda>r. d_id r = device \<and> d_user r = owner) (t_devices d) of
             None \<Rightarrow> Inl NoRows | Some r \<Rightarrow> Inr (r, d))
      | _ \<Rightarrow> Inl invalid_text)"

definition select_idem :: "db_env \<Rightarrow> string \<Rightarrow> string \<Rightarrow> string \<Rightarrow> idem_row statement" where
  "select_idem env ownerID operation keyHash d =
     (case cast_uuid env ownerID of
        None \<Rightarrow> Inl invalid_text
      | Some owner \<Rightarrow>
          (case find (\<lambda>k. k_user k = owner \<and> k_operation k = operation \<and> k_hash k = keyHash)
                  (t_idem d) of
             None \<Rightarrow> Inl NoRows | Some k \<Rightarrow> Inr (k, d)))"

definition select_region :: "string \<Rightarrow> region_row statement" where
  "select_region regionID d =
     (case find (\<lambda>r. r_id r = regionID \<and> r_available r) (t_regions d) of
        None \<Rightarrow> Inl NoRows | Some r \<Rightarrow> Inr (r, d))"

text \<open>Line 562--575: the newest live assignment of the device with its lease and gateway.\<close>

definition existing_rows :: "string \<Rightarrow> db \<Rightarrow> (assignment_row \<times> lease_row \<times> gateway_row) list" where
  "existing_rows device d =
     [(pa, l, g). pa \<leftarrow> t_assignments d, a_device pa = device \<and> live pa,
        l \<leftarrow> t_leases d, l_id l = a_lease pa \<and> l_released l = None,
        g \<leftarrow> t_gateways d, g_id g = a_gateway pa]"

definition select_existing ::
  "db_env \<Rightarrow> string \<Rightarrow> (assignment_row \<times> lease_row \<times> gateway_row) statement" where
  "select_existing env deviceID d =
     (case cast_uuid env deviceID of
        None \<Rightarrow> Inl invalid_text
      | Some device \<Rightarrow>
          (case sort_key (\<lambda>(pa, l, g). - a_created pa) (existing_rows device d) of
             [] \<Rightarrow> Inl NoRows | row # _ \<Rightarrow> Inr (row, d)))"

definition live_count :: "db \<Rightarrow> string \<Rightarrow> nat" where
  "live_count d gateway =
     length (filter (\<lambda>pa. a_gateway pa = gateway \<and> live pa) (t_assignments d))"

text \<open>Line 616--634: the ready gateway of the region with the fewest live peers and room.\<close>

definition select_gateway :: "string \<Rightarrow> gateway_row statement" where
  "select_gateway regionID d =
     (case sort_key (\<lambda>g. (live_count d (g_id g), g_id g))
             (filter (\<lambda>g. g_region g = regionID \<and> g_state g = GwReady
                \<and> live_count d (g_id g) < g_capacity g) (t_gateways d)) of
        [] \<Rightarrow> Inl NoRows | g # _ \<Rightarrow> Inr (g, d))"

text \<open>\<^verbatim>\<open>activeAddresses\<close>: the texts PostgreSQL prints are parsed back, row by row.\<close>

fun parse_addresses :: "(string \<times> string) list \<Rightarrow> (addr set \<times> addr set) result" where
  "parse_addresses [] = Inr ({}, {})"
| "parse_addresses ((ipv4Text, ipv6Text) # rest) =
     (case parseAddr ipv4Text of
        None \<Rightarrow> Inl (Wrapped ''parse stored IPv4'' (ErrText ''netip.ParseAddr''))
      | Some ipv4 \<Rightarrow>
          (case parseAddr ipv6Text of
             None \<Rightarrow> Inl (Wrapped ''parse stored IPv6'' (ErrText ''netip.ParseAddr''))
           | Some ipv6 \<Rightarrow>
               (case parse_addresses rest of
                  Inl err \<Rightarrow> Inl err
                | Inr (usedIPv4, usedIPv6) \<Rightarrow> Inr (insert ipv4 usedIPv4, insert ipv6 usedIPv6))))"

definition active_leases :: "db \<Rightarrow> string \<Rightarrow> lease_row list" where
  "active_leases d regionID =
     filter (\<lambda>l. l_region l = regionID \<and> l_released l = None) (t_leases d)"

definition activeAddresses :: "db_env \<Rightarrow> string \<Rightarrow> db \<Rightarrow> (addr set \<times> addr set) result" where
  "activeAddresses env regionID d =
     (case fault env 10 of
        Some (e, _) \<Rightarrow> Inl (Wrapped ''list active addresses'' (db_message e))
      | None \<Rightarrow>
          (case parse_addresses (map (\<lambda>l. (host_text env (l_v4 l), host_text env (l_v6 l)))
                  (active_leases d regionID)) of
             Inl err \<Rightarrow> Inl err
           | Inr used \<Rightarrow>
               (case fault env 11 of
                  Some (e, _) \<Rightarrow> Inl (Wrapped ''iterate active addresses'' (db_message e))
                | None \<Rightarrow> Inr used)))"

text \<open>The inserts, with the constraints of their tables.\<close>

definition insert_lease ::
  "db_env \<Rightarrow> string \<Rightarrow> string \<Rightarrow> string \<Rightarrow> string \<Rightarrow> string statement" where
  "insert_lease env regionID deviceID v4Text v6Text d =
     (case (cast_uuid env deviceID, cast_inet env v4Text, cast_inet env v6Text) of
        (Some device, Some ipv4, Some ipv6) \<Rightarrow>
          if bitLen ipv4 \<noteq> 32 \<or> bitLen ipv6 \<noteq> 128 then Inl check_violation
          else if new_id env 0 \<in> l_id ` set (t_leases d)
            \<or> (\<exists>l\<in>set (t_leases d). l_released l = None \<and>
                 (l_device l = device \<or> (l_region l = regionID \<and> (l_v4 l = ipv4 \<or> l_v6 l = ipv6))))
            then Inl unique_violation
          else if regionID \<notin> r_id ` set (t_regions d) \<or> device \<notin> d_id ` set (t_devices d)
            then Inl foreign_key_violation
          else Inr (new_id env 0,
            d\<lparr>t_leases := t_leases d @
                [\<lparr>l_id = new_id env 0, l_region = regionID, l_device = device, l_v4 = ipv4,
                  l_v6 = ipv6, l_released = None\<rparr>]\<rparr>)
      | _ \<Rightarrow> Inl invalid_text)"

definition insert_assignment ::
  "db_env \<Rightarrow> string \<Rightarrow> string \<Rightarrow> string \<Rightarrow> time \<Rightarrow> string statement" where
  "insert_assignment env deviceID gatewayID leaseID expiresAt d =
     (case (cast_uuid env deviceID, cast_uuid env gatewayID, cast_uuid env leaseID) of
        (Some device, Some gateway, Some lease) \<Rightarrow>
          if timestamp expiresAt \<le> timestamp (db_now env) then Inl check_violation
          else if new_id env 1 \<in> a_id ` set (t_assignments d)
            \<or> (\<exists>pa\<in>set (t_assignments d). a_device pa = device \<and> live pa)
            then Inl unique_violation
          else if device \<notin> d_id ` set (t_devices d) \<or> gateway \<notin> g_id ` set (t_gateways d)
            \<or> lease \<notin> l_id ` set (t_leases d) then Inl foreign_key_violation
          else Inr (new_id env 1,
            d\<lparr>t_assignments := t_assignments d @
                [\<lparr>a_id = new_id env 1, a_device = device, a_gateway = gateway, a_lease = lease,
                  a_state = AsgPending, a_desired = 1, a_observed = 0,
                  a_expires = timestamp expiresAt, a_created = timestamp (db_now env)\<rparr>]\<rparr>)
      | _ \<Rightarrow> Inl invalid_text)"

definition insert_idem ::
  "db_env \<Rightarrow> string \<Rightarrow> string \<Rightarrow> string \<Rightarrow> string \<Rightarrow> nat \<Rightarrow> string \<Rightarrow> time \<Rightarrow> unit statement" where
  "insert_idem env ownerID operation keyHash requestHash status responseBody expiresAt d =
     (case (cast_uuid env ownerID, cast_jsonb env responseBody) of
        (Some owner, Some body) \<Rightarrow>
          if timestamp expiresAt \<le> timestamp (db_now env) then Inl check_violation
          else if \<exists>k\<in>set (t_idem d). k_user k = owner \<and> k_operation k = operation \<and> k_hash k = keyHash
            then Inl unique_violation
          else if owner \<notin> u_id ` set (t_users d) then Inl foreign_key_violation
          else Inr ((),
            d\<lparr>t_idem := t_idem d @
                [\<lparr>k_user = owner, k_operation = operation, k_hash = keyHash, k_request = requestHash,
                  k_status = status, k_body = body, k_expires = timestamp expiresAt\<rparr>]\<rparr>)
      | _ \<Rightarrow> Inl invalid_text)"

text \<open>The texts of a configuration and its parts that the code fills in alike on both paths.\<close>

record codec =
  enc :: "TunnelConfiguration \<Rightarrow> string result"
  dec :: "string \<Rightarrow> TunnelConfiguration result"
  sha :: "string \<Rightarrow> string"

definition make_configuration ::
  "string \<Rightarrow> gateway_row \<Rightarrow> string \<Rightarrow> string \<Rightarrow> string list \<Rightarrow> time \<Rightarrow> TunnelConfiguration" where
  "make_configuration assignmentID g v4Text v6Text dns expiresAt =
     \<lparr>tc_AssignmentID = assignmentID, tc_Endpoint = joinHostPort (g_host g) (itoa (g_port g)),
      tc_ServerPublicKey = g_key g, tc_Addresses = [v4Text, v6Text], tc_DNSServers = dns,
      tc_AllowedIPs = [''0.0.0.0/0'', ''::/0''], tc_PersistentKeepaliveSeconds = 25,
      tc_ExpiresAt = expiresAt\<rparr>"

text \<open>Line 576--607: the device already has a live lease.\<close>

definition reuse_assignment ::
  "db_env \<Rightarrow> codec \<Rightarrow> string \<Rightarrow> string \<Rightarrow> string \<Rightarrow> string \<Rightarrow> string list
   \<Rightarrow> assignment_row \<times> lease_row \<times> gateway_row \<Rightarrow> (TunnelConfiguration \<times> bool) tx" where
  "reuse_assignment env cd ownerID operation regionID idempotencyKey dns row d =
     (case row of (pa, l, g) \<Rightarrow>
        if l_region l \<noteq> regionID then Inl ErrDeviceAlreadyAllocated
        else
          let configuration = make_configuration (a_id pa) g (host_text env (l_v4 l) @ ''/32'')
                (host_text env (l_v6 l) @ ''/128'') dns (a_expires pa)
          in case enc cd configuration of
            Inl err \<Rightarrow> Inl (Wrapped ''encode reused tunnel configuration'' err)
          | Inr responseBody \<Rightarrow>
              (case attempt env 7 (insert_idem env ownerID operation (sha cd idempotencyKey)
                      (sha cd regionID) 200 responseBody (go_now env + 24 * hour)) d of
                 Inl err \<Rightarrow> Inl (mapDatabaseError err)
               | Inr (_, d1) \<Rightarrow>
                   Inr (((configuration, True), 8, ''commit reused tunnel configuration''), d1)))"

text \<open>Line 612--702: a new lease and a new assignment.\<close>

definition allocate_assignment ::
  "db_env \<Rightarrow> codec \<Rightarrow> string \<Rightarrow> string \<Rightarrow> string \<Rightarrow> string \<Rightarrow> string \<Rightarrow> region_row \<Rightarrow> string list
   \<Rightarrow> (TunnelConfiguration \<times> bool) tx" where
  "allocate_assignment env cd ownerID deviceID operation regionID idempotencyKey region dns d =
     (case attempt env 9 (select_gateway regionID) d of
        Inl err \<Rightarrow> Inl (if err = NoRows then ErrCapacityExhausted else mapDatabaseError err)
      | Inr (g, _) \<Rightarrow>
      (case activeAddresses env regionID d of
        Inl err \<Rightarrow> Inl err
      | Inr (usedIPv4, usedIPv6) \<Rightarrow>
      (case firstAvailableAddress (r_v4pool region) usedIPv4 of
        Inl err \<Rightarrow> Inl err
      | Inr ipv4 \<Rightarrow>
      (case firstAvailableAddress (r_v6pool region) usedIPv6 of
        Inl err \<Rightarrow> Inl err
      | Inr ipv6 \<Rightarrow>
      (case attempt env 12 (insert_lease env regionID deviceID (addr_string ipv4 @ ''/32'')
              (addr_string ipv6 @ ''/128'')) d of
        Inl err \<Rightarrow> Inl (mapDatabaseError err)
      | Inr (leaseID, d1) \<Rightarrow>
      let expiresAt = go_now env + 24 * hour in
      (case attempt env 13 (insert_assignment env deviceID (g_id g) leaseID expiresAt) d1 of
        Inl err \<Rightarrow> Inl (mapDatabaseError err)
      | Inr (assignmentID, d2) \<Rightarrow>
      let configuration = make_configuration assignmentID g (addr_string ipv4 @ ''/32'')
            (addr_string ipv6 @ ''/128'') dns expiresAt in
      (case enc cd configuration of
        Inl err \<Rightarrow> Inl (Wrapped ''encode idempotent response'' err)
      | Inr responseBody \<Rightarrow>
      (case attempt env 14 (insert_idem env ownerID operation (sha cd idempotencyKey)
              (sha cd regionID) 201 responseBody (go_now env + 24 * hour)) d2 of
        Inl err \<Rightarrow> Inl (mapDatabaseError err)
      | Inr (_, d3) \<Rightarrow>
          Inr (((configuration, True), 15, ''commit tunnel allocation''), d3)))))))))"

text \<open>Line 517--529: the request was answered before.\<close>

definition replay_answer ::
  "codec \<Rightarrow> string \<Rightarrow> idem_row \<Rightarrow> (TunnelConfiguration \<times> bool) tx" where
  "replay_answer cd regionID k d =
     (if k_request k \<noteq> sha cd regionID then Inl ErrConflict
      else case dec cd (k_body k) of
        Inl err \<Rightarrow> Inl (Wrapped ''decode idempotent response'' err)
      | Inr configuration \<Rightarrow> Inr (((configuration, False), 3, ''commit idempotent replay''), d))"

definition tunnel_body ::
  "db_env \<Rightarrow> codec \<Rightarrow> string \<Rightarrow> string \<Rightarrow> string \<Rightarrow> string \<Rightarrow> (TunnelConfiguration \<times> bool) tx" where
  "tunnel_body env cd ownerID deviceID regionID idempotencyKey d =
     (case attempt env 1 (select_device env ownerID deviceID) d of
        Inl err \<Rightarrow> Inl (mapDatabaseError err)
      | Inr (device, _) \<Rightarrow>
      if d_state device \<noteq> DeviceActive then Inl ErrDeviceNotActive
      else
      let operation = ''create_tunnel_configuration:'' @ deviceID in
      (case attempt env 2 (select_idem env ownerID operation (sha cd idempotencyKey)) d of
        Inr (k, _) \<Rightarrow> replay_answer cd regionID k d
      | Inl err \<Rightarrow>
      if err \<noteq> NoRows then Inl (mapDatabaseError err)
      else (case fault env 4 of
        Some (e, _) \<Rightarrow> Inl (Wrapped ''lock region allocation'' (db_message e))
      | None \<Rightarrow>
      (case attempt env 5 (select_region regionID) d of
        Inl err \<Rightarrow> Inl (mapDatabaseError err)
      | Inr (region, _) \<Rightarrow>
      let dns = [host_text env (r_dns4 region), host_text env (r_dns6 region)] in
      (case attempt env 6 (select_existing env deviceID) d of
        Inr (row, _) \<Rightarrow> reuse_assignment env cd ownerID operation regionID idempotencyKey dns row d
      | Inl err \<Rightarrow>
      if err \<noteq> NoRows then Inl (mapDatabaseError err)
      else allocate_assignment env cd ownerID deviceID operation regionID idempotencyKey region dns d)))))"

definition Store_CreateTunnelConfiguration ::
  "db_env \<Rightarrow> codec \<Rightarrow> string \<Rightarrow> string \<Rightarrow> string \<Rightarrow> string \<Rightarrow> db
   \<Rightarrow> (TunnelConfiguration \<times> bool) result \<times> db" where
  "Store_CreateTunnelConfiguration env cd ownerID deviceID regionID idempotencyKey d =
     (if trimSpace ownerID = '''' \<or> trimSpace deviceID = '''' \<or> trimSpace regionID = ''''
      then (Inl ErrInvalidInput, d)
      else if length idempotencyKey < 16 \<or> length idempotencyKey > 128 then (Inl ErrInvalidInput, d)
      else run_tx env ''begin allocation transaction''
             (tunnel_body env cd ownerID deviceID regionID idempotencyKey) d)"

end
