(* ===== verification/Outbox.thy ===== *)
theory Outbox
  imports Store Transport
begin

text \<open>
  The outbox of signed snapshots in \<^verbatim>\<open>internal/postgres/store.go\<close>: which gateways need a
  snapshot, its materialization and signature, and the delivery life cycle
  (queued, in flight, acknowledged or failed) with the confirmation of assignments. Also the
  opening of the connection pool. JSON, Ed25519 and the database driver are arguments.
\<close>

definition max_bigint :: int where "max_bigint = 9223372036854775807"

section \<open>Planning\<close>

definition needs_snapshot :: "db \<Rightarrow> gateway_row \<Rightarrow> bool" where
  "needs_snapshot d g \<longleftrightarrow> g_state g = GwReady
     \<and> (\<exists>pa\<in>set (t_assignments d). a_gateway pa = g_id g \<and> live pa \<and> a_observed pa < a_desired pa)
     \<and> \<not> (\<exists>gs\<in>set (t_snapshots d). s_gateway gs = g_id g \<and> s_state gs \<in> {SnapQueued, SnapInFlight})"

definition GatewaysNeedingSnapshot :: "db_env \<Rightarrow> db \<Rightarrow> string list result" where
  "GatewaysNeedingSnapshot env d =
     (case fault env 0 of
        Some (err, _) \<Rightarrow> Inl (mapDatabaseError (Failed err))
      | None \<Rightarrow>
          (case fault env 1 of
             Some (err, _) \<Rightarrow> Inl (Wrapped ''list gateways needing snapshot'' (db_message err))
           | None \<Rightarrow> Inr (sort (remdups (map g_id (filter (needs_snapshot d) (t_gateways d)))))))"

definition generations :: "db \<Rightarrow> string \<Rightarrow> int list" where
  "generations d gateway =
     map s_generation (filter (\<lambda>gs. s_gateway gs = gateway) (t_snapshots d))"

definition select_next_generation :: "db_env \<Rightarrow> string \<Rightarrow> int statement" where
  "select_next_generation env gatewayID d =
     (case cast_uuid env gatewayID of
        None \<Rightarrow> Inl invalid_text
      | Some gateway \<Rightarrow>
          let n = (case generations d gateway of [] \<Rightarrow> 0 | g # gs \<Rightarrow> fold max gs g) + 1
          in if max_bigint < n then Inl out_of_range else Inr (n, d))"

definition NextGatewaySnapshotGeneration :: "db_env \<Rightarrow> string \<Rightarrow> db \<Rightarrow> int result" where
  "NextGatewaySnapshotGeneration env gatewayID d =
     (if gatewayID = '''' then Inl ErrInvalidInput
      else case attempt env 0 (select_next_generation env gatewayID) d of
        Inl err \<Rightarrow> Inl (mapDatabaseError err)
      | Inr (generation, _) \<Rightarrow> Inr generation)"

section \<open>Enqueueing\<close>

definition insert_snapshot ::
  "db_env \<Rightarrow> string \<Rightarrow> int \<Rightarrow> string \<Rightarrow> string \<Rightarrow> unit statement" where
  "insert_snapshot env gatewayID generation payload signature d =
     (case (cast_uuid env gatewayID, cast_jsonb env payload) of
        (Some gateway, Some body) \<Rightarrow>
          if generation \<le> 0 \<or> \<not> jsonb_object env body \<or> length signature \<noteq> 64 then Inl check_violation
          else if new_id env 0 \<in> s_id ` set (t_snapshots d) \<or> generation \<in> set (generations d gateway)
            then Inl unique_violation
          else if gateway \<notin> g_id ` set (t_gateways d) then Inl foreign_key_violation
          else Inr ((),
            d\<lparr>t_snapshots := t_snapshots d @
                [\<lparr>s_id = new_id env 0, s_gateway = gateway, s_generation = generation,
                  s_payload = body, s_signature = signature, s_state = SnapQueued, s_attempts = 0,
                  s_available = timestamp (db_now env), s_sent = None, s_acked = None,
                  s_error = None\<rparr>]\<rparr>)
      | _ \<Rightarrow> Inl invalid_text)"

text \<open>\<open>i\<close> is the number of the database call, which differs between the callers.\<close>

definition EnqueueSnapshot_at ::
  "nat \<Rightarrow> db_env \<Rightarrow> string \<Rightarrow> int \<Rightarrow> string \<Rightarrow> string \<Rightarrow> db \<Rightarrow> error option \<times> db" where
  "EnqueueSnapshot_at i env gatewayID generation payload signature d =
     (if trimSpace gatewayID = '''' \<or> generation \<le> 0 \<or> length payload = 0 \<or> length signature \<noteq> 64
      then (Some ErrInvalidInput, d)
      else case autocommit env i (insert_snapshot env gatewayID generation payload signature) d of
        (Inl err, d') \<Rightarrow> (Some (mapDatabaseError err), d')
      | (Inr _, d') \<Rightarrow> (None, d'))"

abbreviation EnqueueSnapshot ::
  "db_env \<Rightarrow> string \<Rightarrow> int \<Rightarrow> string \<Rightarrow> string \<Rightarrow> db \<Rightarrow> error option \<times> db" where
  "EnqueueSnapshot \<equiv> EnqueueSnapshot_at 0"

text \<open>Line 117--135: the peers of a gateway, in the order of their device ids.\<close>

definition peer_rows :: "db \<Rightarrow> string \<Rightarrow> (device_row \<times> lease_row) list" where
  "peer_rows d gateway =
     sort_key (\<lambda>(dv, l). d_id dv)
       [(dv, l). pa \<leftarrow> t_assignments d, a_gateway pa = gateway \<and> live pa,
          dv \<leftarrow> t_devices d, d_id dv = a_device pa,
          l \<leftarrow> t_leases d, l_id l = a_lease pa]"

definition peer_of_row :: "db_env \<Rightarrow> device_row \<times> lease_row \<Rightarrow> Peer" where
  "peer_of_row env row = (case row of (dv, l) \<Rightarrow>
     \<lparr>peer_PublicKey = d_key dv, peer_IPv4 = host_text env (l_v4 l) @ ''/32'',
      peer_IPv6 = host_text env (l_v6 l) @ ''/128''\<rparr>)"

definition EnqueueCurrentGatewaySnapshot ::
  "db_env \<Rightarrow> (Snapshot \<Rightarrow> string result) \<Rightarrow> (string \<Rightarrow> string \<Rightarrow> string) \<Rightarrow> string \<Rightarrow> int \<Rightarrow> string
   \<Rightarrow> db \<Rightarrow> error option \<times> db" where
  "EnqueueCurrentGatewaySnapshot env marshal ed_sign gatewayID generation signingKey d =
     (if gatewayID = '''' \<or> generation \<le> 0 \<or> length signingKey \<noteq> 64 then (Some ErrInvalidInput, d)
      else case attempt env 0 (\<lambda>d. case cast_uuid env gatewayID of
               None \<Rightarrow> Inl invalid_text | Some gateway \<Rightarrow> Inr (peer_rows d gateway, d)) d of
        Inl err \<Rightarrow> (Some (mapDatabaseError err), d)
      | Inr (rows, _) \<Rightarrow>
      (case fault env 1 of
        Some (e, _) \<Rightarrow> (Some (db_message e), d)
      | None \<Rightarrow>
      let snapshot = \<lparr>snap_GatewayID = gatewayID, snap_Generation = generation,
            snap_ExpiresAt = go_now env + 10 * minute, snap_Peers = map (peer_of_row env) rows,
            snap_Signature = []\<rparr> in
      (case Sign marshal ed_sign snapshot signingKey of
        Inl err \<Rightarrow> (Some err, d)
      | Inr signedSnapshot \<Rightarrow>
      (case marshal (signedSnapshot\<lparr>snap_Signature := []\<rparr>) of
        Inl err \<Rightarrow> (Some err, d)
      | Inr payload \<Rightarrow>
          EnqueueSnapshot_at 2 env gatewayID generation payload (snap_Signature signedSnapshot) d))))"

section \<open>Delivery\<close>

text \<open>Line 399--411: the oldest generation that may be delivered now.\<close>

definition deliverable :: "db_env \<Rightarrow> string \<Rightarrow> snapshot_row \<Rightarrow> bool" where
  "deliverable env gateway gs \<longleftrightarrow> s_gateway gs = gateway \<and> s_state gs \<in> {SnapQueued, SnapFailed}
     \<and> s_available gs \<le> db_now env \<and> s_attempts gs < 100"

definition select_delivery :: "db_env \<Rightarrow> string \<Rightarrow> snapshot_row statement" where
  "select_delivery env gatewayID d =
     (case cast_uuid env gatewayID of
        None \<Rightarrow> Inl invalid_text
      | Some gateway \<Rightarrow>
          (case sort_key s_generation (filter (deliverable env gateway) (t_snapshots d)) of
             [] \<Rightarrow> Inl NoRows | gs # _ \<Rightarrow> Inr (gs, d)))"

definition send_row :: "db_env \<Rightarrow> snapshot_row \<Rightarrow> snapshot_row" where
  "send_row env gs = gs\<lparr>s_state := SnapInFlight, s_attempts := s_attempts gs + 1,
     s_sent := Some (timestamp (db_now env))\<rparr>"

definition update_in_flight :: "db_env \<Rightarrow> string \<Rightarrow> nat statement" where
  "update_in_flight env snapshotID d =
     (case cast_uuid env snapshotID of
        None \<Rightarrow> Inl invalid_text
      | Some i \<Rightarrow>
          (case find (\<lambda>gs. s_id gs = i) (t_snapshots d) of
             None \<Rightarrow> Inl NoRows
           | Some gs \<Rightarrow>
               Inr (s_attempts gs + 1,
                 d\<lparr>t_snapshots := map (\<lambda>gs. if s_id gs = i then send_row env gs else gs) (t_snapshots d)\<rparr>)))"

record SnapshotDelivery =
  sd_ID :: string
  sd_GatewayID :: string
  sd_Generation :: int
  sd_Payload :: string
  sd_Signature :: string
  sd_Attempts :: nat

definition ClaimNextSnapshot :: "db_env \<Rightarrow> string \<Rightarrow> db \<Rightarrow> SnapshotDelivery result \<times> db" where
  "ClaimNextSnapshot env gatewayID d =
     (if trimSpace gatewayID = '''' then (Inl ErrInvalidInput, d)
      else run_tx env ''begin snapshot claim'' (\<lambda>d.
        case attempt env 1 (select_delivery env gatewayID) d of
          Inl err \<Rightarrow> Inl (mapDatabaseError err)
        | Inr (gs, _) \<Rightarrow>
            (case attempt env 2 (update_in_flight env (s_id gs)) d of
               Inl err \<Rightarrow> Inl (mapDatabaseError err)
             | Inr (attempts, d1) \<Rightarrow>
                 Inr ((\<lparr>sd_ID = s_id gs, sd_GatewayID = s_gateway gs, sd_Generation = s_generation gs,
                       sd_Payload = s_payload gs, sd_Signature = s_signature gs,
                       sd_Attempts = attempts\<rparr>, 3, ''commit snapshot claim''), d1))) d)"

definition ClaimSnapshot :: "db_env \<Rightarrow> string \<Rightarrow> db \<Rightarrow> Delivery result \<times> db" where
  "ClaimSnapshot env gatewayID d =
     (case ClaimNextSnapshot env gatewayID d of
        (Inl err, d') \<Rightarrow> (Inl err, d')
      | (Inr delivery, d') \<Rightarrow>
          (Inr \<lparr>del_ID = sd_ID delivery, del_Generation = sd_Generation delivery,
                del_Payload = sd_Payload delivery, del_Signature = sd_Signature delivery\<rparr>, d'))"

text \<open>An update of the snapshots that satisfy a test; its result is the number of rows.\<close>

definition update_snapshots ::
  "(snapshot_row \<Rightarrow> bool) \<Rightarrow> (snapshot_row \<Rightarrow> snapshot_row) \<Rightarrow> db \<Rightarrow> nat \<times> db" where
  "update_snapshots P f d =
     (length (filter P (t_snapshots d)),
      d\<lparr>t_snapshots := map (\<lambda>gs. if P gs then f gs else gs) (t_snapshots d)\<rparr>)"

definition ack_row :: "db_env \<Rightarrow> snapshot_row \<Rightarrow> snapshot_row" where
  "ack_row env gs = gs\<lparr>s_state := SnapAcked, s_acked := Some (timestamp (db_now env))\<rparr>"

definition update_acked :: "db_env \<Rightarrow> string \<Rightarrow> string \<Rightarrow> int \<Rightarrow> nat statement" where
  "update_acked env gatewayID snapshotID generation d =
     (case (cast_uuid env snapshotID, cast_uuid env gatewayID) of
        (Some i, Some gateway) \<Rightarrow>
          Inr (update_snapshots (\<lambda>gs. s_id gs = i \<and> s_gateway gs = gateway
             \<and> s_generation gs = generation \<and> s_state gs = SnapInFlight) (ack_row env) d)
      | _ \<Rightarrow> Inl invalid_text)"

definition AckSnapshot_at ::
  "nat \<Rightarrow> db_env \<Rightarrow> string \<Rightarrow> string \<Rightarrow> int \<Rightarrow> db \<Rightarrow> error option \<times> db" where
  "AckSnapshot_at i env gatewayID snapshotID generation d =
     (if trimSpace gatewayID = '''' \<or> trimSpace snapshotID = '''' \<or> generation \<le> 0
      then (Some ErrInvalidInput, d)
      else case autocommit env i (update_acked env gatewayID snapshotID generation) d of
        (Inl err, d') \<Rightarrow> (Some (mapDatabaseError err), d')
      | (Inr rows, d') \<Rightarrow> (if rows \<noteq> 1 then Some ErrNotFound else None, d'))"

definition fail_row :: "time \<Rightarrow> string \<Rightarrow> snapshot_row \<Rightarrow> snapshot_row" where
  "fail_row retryAt reason gs =
     gs\<lparr>s_state := SnapFailed, s_available := timestamp retryAt, s_error := Some reason\<rparr>"

definition update_failed ::
  "db_env \<Rightarrow> string \<Rightarrow> string \<Rightarrow> time \<Rightarrow> string \<Rightarrow> nat statement" where
  "update_failed env gatewayID snapshotID retryAt reason d =
     (case (cast_uuid env snapshotID, cast_uuid env gatewayID) of
        (Some i, Some gateway) \<Rightarrow>
          Inr (update_snapshots (\<lambda>gs. s_id gs = i \<and> s_gateway gs = gateway
             \<and> s_state gs = SnapInFlight) (fail_row retryAt reason) d)
      | _ \<Rightarrow> Inl invalid_text)"

definition RetrySnapshot ::
  "db_env \<Rightarrow> string \<Rightarrow> string \<Rightarrow> time \<Rightarrow> string \<Rightarrow> db \<Rightarrow> error option \<times> db" where
  "RetrySnapshot env gatewayID snapshotID retryAt reason d =
     (if trimSpace gatewayID = '''' \<or> trimSpace snapshotID = '''' \<or> time_is_zero retryAt
      then (Some ErrInvalidInput, d)
      else
        let reason1 = (if length reason > 512 then take 512 reason else reason) in
        case autocommit env 0 (update_failed env gatewayID snapshotID retryAt reason1) d of
          (Inl err, d') \<Rightarrow> (Some (mapDatabaseError err), d')
        | (Inr rows, d') \<Rightarrow> (if rows \<noteq> 1 then Some ErrNotFound else None, d'))"

definition RetrySnapshotDelivery ::
  "db_env \<Rightarrow> string \<Rightarrow> string \<Rightarrow> time \<Rightarrow> string \<Rightarrow> db \<Rightarrow> error option \<times> db" where
  "RetrySnapshotDelivery env gatewayID deliveryID retryAt reason d =
     RetrySnapshot env gatewayID deliveryID retryAt reason d"

section \<open>Confirmation\<close>

definition confirm_row :: "string \<Rightarrow> int \<Rightarrow> assignment_row \<Rightarrow> assignment_row" where
  "confirm_row gateway generation pa =
     (if a_gateway pa = gateway \<and> a_desired pa \<le> generation \<and> live pa
      then pa\<lparr>a_state := (if a_state pa = AsgRemovalPending then AsgRemoved else AsgActive),
              a_observed := a_desired pa\<rparr>
      else pa)"

definition confirm_assignments :: "db_env \<Rightarrow> string \<Rightarrow> int \<Rightarrow> unit statement" where
  "confirm_assignments env gatewayID generation d =
     (case cast_uuid env gatewayID of
        None \<Rightarrow> Inl invalid_text
      | Some gateway \<Rightarrow>
          Inr ((), d\<lparr>t_assignments := map (confirm_row gateway generation) (t_assignments d)\<rparr>))"

definition removed_here :: "string \<Rightarrow> (assignment_row \<Rightarrow> bool) \<Rightarrow> db \<Rightarrow> bool" where
  "removed_here gateway P d \<longleftrightarrow>
     (\<exists>pa\<in>set (t_assignments d). P pa \<and> a_gateway pa = gateway \<and> a_state pa = AsgRemoved)"

definition release_leases :: "db_env \<Rightarrow> string \<Rightarrow> unit statement" where
  "release_leases env gatewayID d =
     (case cast_uuid env gatewayID of
        None \<Rightarrow> Inl invalid_text
      | Some gateway \<Rightarrow>
          Inr ((), d\<lparr>t_leases := map (\<lambda>l.
             if l_released l = None \<and> removed_here gateway (\<lambda>pa. a_lease pa = l_id l) d
             then l\<lparr>l_released := Some (timestamp (db_now env))\<rparr> else l) (t_leases d)\<rparr>))"

definition revoke_devices :: "db_env \<Rightarrow> string \<Rightarrow> unit statement" where
  "revoke_devices env gatewayID d =
     (case cast_uuid env gatewayID of
        None \<Rightarrow> Inl invalid_text
      | Some gateway \<Rightarrow>
          Inr ((), d\<lparr>t_devices := map (\<lambda>r.
             if d_state r = DeviceRevocationPending \<and> removed_here gateway (\<lambda>pa. a_device pa = d_id r) d
             then r\<lparr>d_state := DeviceRevoked, d_revoked := Some (timestamp (db_now env))\<rparr> else r)
             (t_devices d)\<rparr>))"

text \<open>The numbers of the calls are those of \<^verbatim>\<open>AckSnapshotDelivery\<close>, which runs it after \<^verbatim>\<open>AckSnapshot\<close>.\<close>

definition ConfirmGatewaySnapshot :: "db_env \<Rightarrow> string \<Rightarrow> int \<Rightarrow> db \<Rightarrow> unit result \<times> db" where
  "ConfirmGatewaySnapshot env gatewayID generation d =
     (if gatewayID = '''' \<or> generation \<le> 0 then (Inl ErrInvalidInput, d)
      else run_tx env ''begin gateway confirmation'' (\<lambda>d.
        case attempt env 1 (confirm_assignments env gatewayID generation) d of
          Inl err \<Rightarrow> Inl (mapDatabaseError err)
        | Inr (_, d1) \<Rightarrow>
            (case attempt env 2 (release_leases env gatewayID) d1 of
               Inl err \<Rightarrow> Inl (mapDatabaseError err)
             | Inr (_, d2) \<Rightarrow>
                 (case attempt env 3 (revoke_devices env gatewayID) d2 of
                    Inl err \<Rightarrow> Inl (mapDatabaseError err)
                  | Inr (_, d3) \<Rightarrow> Inr (((), 4, ''commit gateway confirmation''), d3)))) d)"

text \<open>Two transactions: the acknowledgement stays when the confirmation fails.\<close>

definition AckSnapshotDelivery ::
  "db_env \<Rightarrow> string \<Rightarrow> string \<Rightarrow> int \<Rightarrow> db \<Rightarrow> error option \<times> db" where
  "AckSnapshotDelivery env gatewayID deliveryID generation d =
     (case AckSnapshot_at 5 env gatewayID deliveryID generation d of
        (Some err, d1) \<Rightarrow> (Some err, d1)
      | (None, d1) \<Rightarrow>
          (case ConfirmGatewaySnapshot env gatewayID generation d1 of
             (Inl err, d2) \<Rightarrow> (Some err, d2)
           | (Inr _, d2) \<Rightarrow> (None, d2)))"

section \<open>Opening the pool\<close>

record pool_config =
  pc_Host :: string
  pc_TLS :: bool
  pc_Password :: string
  pc_MaxConns :: int
  pc_MinConns :: int
  pc_MaxConnLifetime :: duration
  pc_MaxConnIdleTime :: duration
  pc_HealthCheckPeriod :: duration

record 'p pool_env =
  pe_ParseConfig :: "string \<Rightarrow> pool_config result"
  pe_NewPool :: "pool_config \<Rightarrow> 'p result"
  pe_Ping :: "'p \<Rightarrow> error option"
  pe_ReadFile :: "string \<Rightarrow> string result"
  pe_loopback :: "string \<Rightarrow> bool"

text \<open>\<open>pe_loopback\<close> is \<^verbatim>\<open>net.ParseIP(host) != nil && ip.IsLoopback()\<close>.\<close>

definition requireTLSForRemoteHost :: "'p pool_env \<Rightarrow> pool_config \<Rightarrow> error option" where
  "requireTLSForRemoteHost env c =
     (if pc_Host c = '''' \<or> equalFold (pc_Host c) ''localhost'' then None
      else if pe_loopback env (pc_Host c) then None
      else if \<not> pc_TLS c then Some (ErrText ''remote PostgreSQL connections require TLS'')
      else None)"

text \<open>The second component is the pool that was created and closed again when the ping failed.\<close>

definition openConfig :: "'p pool_env \<Rightarrow> pool_config \<Rightarrow> 'p result \<times> 'p option" where
  "openConfig env c =
     (case requireTLSForRemoteHost env c of
        Some err \<Rightarrow> (Inl err, None)
      | None \<Rightarrow>
          (case pe_NewPool env (c\<lparr>pc_MaxConns := 20, pc_MinConns := 2,
                  pc_MaxConnLifetime := 30 * minute, pc_MaxConnIdleTime := 5 * minute,
                  pc_HealthCheckPeriod := 30 * second\<rparr>) of
             Inl err \<Rightarrow> (Inl (Wrapped ''create database pool'' err), None)
           | Inr pool \<Rightarrow>
               (case pe_Ping env pool of
                  Some err \<Rightarrow> (Inl (Wrapped ''ping database'' err), Some pool)
                | None \<Rightarrow> (Inr pool, None))))"

definition Open :: "'p pool_env \<Rightarrow> string \<Rightarrow> 'p result \<times> 'p option" where
  "Open env databaseURL =
     (case pe_ParseConfig env databaseURL of
        Inl err \<Rightarrow> (Inl (Wrapped ''parse database configuration'' err), None)
      | Inr c \<Rightarrow> openConfig env c)"

definition OpenWithPasswordFile :: "'p pool_env \<Rightarrow> string \<Rightarrow> string \<Rightarrow> 'p result \<times> 'p option" where
  "OpenWithPasswordFile env databaseURL passwordFile =
     (case pe_ReadFile env passwordFile of
        Inl err \<Rightarrow> (Inl (Wrapped ''read database password'' err), None)
      | Inr password \<Rightarrow>
          (case pe_ParseConfig env databaseURL of
             Inl err \<Rightarrow> (Inl (Wrapped ''parse database configuration'' err), None)
           | Inr c \<Rightarrow>
               let c1 = c\<lparr>pc_Password := trimSpace password\<rparr> in
               if pc_Password c1 = '''' then (Inl (ErrText ''database password is empty''), None)
               else openConfig env c1))"

end
