(* ===== verification/Commands.thy ===== *)
theory Commands
  imports Go_Time Worker Outbox
begin

text \<open>
  The commands under \<^verbatim>\<open>cmd\<close> except the API: the reconciler, the snapshot publisher and the
  gateway agent. What a command reads from its process (environment variables, files, the
  database pool, TLS material) is the record \<open>os_env\<close>; starting it ends with an exit code or
  with what it runs with.
\<close>

record ('c, 'p, 'q) os_env =
  os_Getenv :: "string \<Rightarrow> string"
  os_ReadFile :: "string \<Rightarrow> string result"
  os_fmul :: "nat \<Rightarrow> nat \<Rightarrow> nat \<Rightarrow> nat"
  os_pool :: "'q pool_env"
  os_tls :: "('c, 'p) tls_env"

datatype 'a started = Exits nat | Started 'a

section \<open>Keys and intervals\<close>

definition parsePrivateKey :: "string \<Rightarrow> string result" where
  "parsePrivateKey v =
     (case decode64 StdEncoding v of
        None \<Rightarrow> Inl (ErrText ''expected base64 Ed25519 private key'')
      | Some key \<Rightarrow> if length key \<noteq> 64 then Inl (ErrText ''expected base64 Ed25519 private key'')
                    else Inr key)"

definition parsePublicKey :: "string \<Rightarrow> string result" where
  "parsePublicKey v =
     (case decode64 StdEncoding (trimSpace v) of
        None \<Rightarrow> Inl (ErrText ''expected base64 Ed25519 public key'')
      | Some key \<Rightarrow> if length key \<noteq> 32 then Inl (ErrText ''expected base64 Ed25519 public key'')
                    else Inr key)"

text \<open>An interval from the environment: the default when it is not set, else within its bounds.\<close>

definition read_interval ::
  "(nat \<Rightarrow> nat \<Rightarrow> nat \<Rightarrow> nat) \<Rightarrow> duration \<Rightarrow> duration \<Rightarrow> string \<Rightarrow> duration option" where
  "read_interval fmul default_interval longest value =
     (let raw = trimSpace value
      in if raw = '''' then Some default_interval
         else case parseDuration fmul raw of
           None \<Rightarrow> None
         | Some parsed \<Rightarrow> if parsed < second \<or> parsed > longest then None else Some parsed)"

text \<open>The pool is opened with the password of a file when one is named.\<close>

definition open_store :: "('c, 'p, 'q) os_env \<Rightarrow> string \<Rightarrow> 'q result" where
  "open_store os databaseURL =
     (let passwordFile = os_Getenv os ''DATABASE_PASSWORD_FILE''
      in fst (if passwordFile \<noteq> '''' then OpenWithPasswordFile (os_pool os) databaseURL passwordFile
              else Open (os_pool os) databaseURL))"

section \<open>The reconciler\<close>

datatype log =
    ListFailed error
  | PublishFailed string error
  | SnapshotQueued string int

text \<open>The body of the loop over the gateways, lines 64--72; two database environments a gateway.\<close>

definition publish_gateway ::
  "db_env \<Rightarrow> db_env \<Rightarrow> (Snapshot \<Rightarrow> string result) \<Rightarrow> (string \<Rightarrow> string \<Rightarrow> string) \<Rightarrow> string \<Rightarrow> string
   \<Rightarrow> db \<Rightarrow> log \<times> db" where
  "publish_gateway env1 env2 marshal ed_sign key gatewayID d =
     (case NextGatewaySnapshotGeneration env1 gatewayID d of
        Inl err \<Rightarrow> (PublishFailed gatewayID err, d)
      | Inr generation \<Rightarrow>
          (case EnqueueCurrentGatewaySnapshot env2 marshal ed_sign gatewayID generation key d of
             (Some err, d1) \<Rightarrow> (PublishFailed gatewayID err, d1)
           | (None, d1) \<Rightarrow> (SnapshotQueued gatewayID generation, d1)))"

fun publish_all ::
  "(nat \<Rightarrow> db_env) \<Rightarrow> nat \<Rightarrow> (Snapshot \<Rightarrow> string result) \<Rightarrow> (string \<Rightarrow> string \<Rightarrow> string) \<Rightarrow> string
   \<Rightarrow> string list \<Rightarrow> db \<Rightarrow> log list \<times> db" where
  "publish_all envs i marshal ed_sign key [] d = ([], d)"
| "publish_all envs i marshal ed_sign key (gatewayID # gateways) d =
     (let (l, d1) = publish_gateway (envs i) (envs (i + 1)) marshal ed_sign key gatewayID d;
          (ls, d2) = publish_all envs (i + 2) marshal ed_sign key gateways d1
      in (l # ls, d2))"

definition reconcile ::
  "(nat \<Rightarrow> db_env) \<Rightarrow> (Snapshot \<Rightarrow> string result) \<Rightarrow> (string \<Rightarrow> string \<Rightarrow> string) \<Rightarrow> string
   \<Rightarrow> db \<Rightarrow> log list \<times> db" where
  "reconcile envs marshal ed_sign key d =
     (case GatewaysNeedingSnapshot (envs 0) d of
        Inl err \<Rightarrow> ([ListFailed err], d)
      | Inr gateways \<Rightarrow> publish_all envs 1 marshal ed_sign key gateways d)"

record 'q reconciler =
  rec_key :: string
  rec_interval :: duration
  rec_store :: 'q

definition reconciler_main :: "('c, 'p, 'q) os_env \<Rightarrow> 'q reconciler started" where
  "reconciler_main os =
     (let keyFile = os_Getenv os ''SNAPSHOT_SIGNING_KEY_FILE''
      in if keyFile = '''' then Exits 2
         else case read_interval (os_fmul os) (15 * second) (10 * minute) (os_Getenv os ''RECONCILE_INTERVAL'') of
           None \<Rightarrow> Exits 2
         | Some interval \<Rightarrow>
         (case os_ReadFile os keyFile of
           Inl err \<Rightarrow> Exits 2
         | Inr encoded \<Rightarrow>
         (case parsePrivateKey (trimSpace encoded) of
           Inl err \<Rightarrow> Exits 2
         | Inr key \<Rightarrow>
         (case open_store os (os_Getenv os ''DATABASE_URL'') of
           Inl err \<Rightarrow> Exits 1
         | Inr store \<Rightarrow> Started \<lparr>rec_key = key, rec_interval = interval, rec_store = store\<rparr>))))"

text \<open>
  The loop of the reconciler over what its \<^verbatim>\<open>select\<close> sees: a tick, with the database
  environments of that run, or the cancelled context, which ends it.
\<close>

datatype event = Tick "nat \<Rightarrow> db_env" | Cancelled

fun reconcile_events ::
  "(Snapshot \<Rightarrow> string result) \<Rightarrow> (string \<Rightarrow> string \<Rightarrow> string) \<Rightarrow> string \<Rightarrow> event list \<Rightarrow> db
   \<Rightarrow> log list \<times> db" where
  "reconcile_events marshal ed_sign key [] d = ([], d)"
| "reconcile_events marshal ed_sign key (Cancelled # events) d = ([], d)"
| "reconcile_events marshal ed_sign key (Tick envs # events) d =
     (let (ls, d1) = reconcile envs marshal ed_sign key d;
          (ls', d2) = reconcile_events marshal ed_sign key events d1
      in (ls @ ls', d2))"

definition reconciler_run ::
  "(Snapshot \<Rightarrow> string result) \<Rightarrow> (string \<Rightarrow> string \<Rightarrow> string) \<Rightarrow> 'q reconciler \<Rightarrow> (nat \<Rightarrow> db_env)
   \<Rightarrow> event list \<Rightarrow> db \<Rightarrow> log list \<times> db" where
  "reconciler_run marshal ed_sign r envs events d =
     reconcile_events marshal ed_sign (rec_key r) (Tick envs # events) d"

section \<open>The snapshot publisher\<close>

text \<open>It publishes one snapshot, of the given generation or of the next one; the result is its exit code.\<close>

definition publisher_main ::
  "('c, 'p, 'q) os_env \<Rightarrow> (Snapshot \<Rightarrow> string result) \<Rightarrow> (string \<Rightarrow> string \<Rightarrow> string) \<Rightarrow> db_env \<Rightarrow> db_env
   \<Rightarrow> db \<Rightarrow> nat \<times> db" where
  "publisher_main os marshal ed_sign env1 env2 d =
     (let databaseURL = os_Getenv os ''DATABASE_URL''; gatewayID = os_Getenv os ''GATEWAY_ID'';
          generationRaw = os_Getenv os ''SNAPSHOT_GENERATION'';
          keyFile = os_Getenv os ''SNAPSHOT_SIGNING_KEY_FILE'';
          parsed = parseInt64 (trimSpace generationRaw)
      in if generationRaw \<noteq> '''' \<and> parsed = None \<or> gatewayID = '''' \<or> keyFile = '''' then (2, d)
         else case os_ReadFile os keyFile of
           Inl err \<Rightarrow> (2, d)
         | Inr encoded \<Rightarrow>
         (case parsePrivateKey (trimSpace encoded) of
           Inl err \<Rightarrow> (2, d)
         | Inr key \<Rightarrow>
         (case fst (Open (os_pool os) databaseURL) of
           Inl err \<Rightarrow> (1, d)
         | Inr store \<Rightarrow>
         (case (if trimSpace generationRaw = '''' then NextGatewaySnapshotGeneration env1 gatewayID d
                else Inr (the parsed)) of
           Inl err \<Rightarrow> (1, d)
         | Inr generation \<Rightarrow>
             (case EnqueueCurrentGatewaySnapshot env2 marshal ed_sign gatewayID generation key d of
                (Some err, d1) \<Rightarrow> (1, d1)
              | (None, d1) \<Rightarrow> (0, d1))))))"

section \<open>The gateway agent\<close>

record ('n, 'k) agent_start =
  ag_interval :: duration
  ag_worker :: "('n, 'k) worker"

text \<open>
  \<open>http_client\<close> is the client of the standard library with a TLS configuration, a timeout of
  20 seconds and without redirects; \<open>process\<close> runs a process on the gateway.
\<close>

definition agent_main ::
  "('c, 'p, 'q) os_env \<Rightarrow> (string \<Rightarrow> url option) \<Rightarrow> (('c, 'p) tls_config \<Rightarrow> 'n http_env)
   \<Rightarrow> 'k runner \<Rightarrow> ('n, 'k) agent_start started" where
  "agent_main os parseURL http_client process =
     (let gatewayID = trimSpace (os_Getenv os ''GATEWAY_ID'');
          controlURL = trimSpace (os_Getenv os ''CONTROL_API_URL'');
          interfaceName = trimSpace (os_Getenv os ''WG_INTERFACE'')
      in case parsePublicKey (os_Getenv os ''SNAPSHOT_VERIFY_KEY'') of
        Inl err \<Rightarrow> Exits 2
      | Inr verifyKey \<Rightarrow>
      if gatewayID = '''' \<or> controlURL = '''' \<or> interfaceName = '''' then Exits 2
      else (case read_interval (os_fmul os) (5 * second) minute (os_Getenv os ''AGENT_POLL_INTERVAL'') of
        None \<Rightarrow> Exits 2
      | Some interval \<Rightarrow>
      (case ClientTLSConfig (os_tls os)
              \<lparr>CertificateFile = os_Getenv os ''AGENT_TLS_CERT_FILE'',
               PrivateKeyFile = os_Getenv os ''AGENT_TLS_KEY_FILE'',
               CAFile = os_Getenv os ''AGENT_TLS_CA_FILE'',
               ServerName = os_Getenv os ''AGENT_TLS_SERVER_NAME''\<rparr> of
        Inl err \<Rightarrow> Exits 2
      | Inr tlsConfig \<Rightarrow>
      (case NewHTTPSource parseURL controlURL gatewayID of
        Inl err \<Rightarrow> Exits 2
      | Inr source \<Rightarrow>
          Started \<lparr>ag_interval = interval,
            ag_worker = \<lparr>Source = Some (http_source_ops (http_client tlsConfig) source),
              Applier = Some (Apply \<lparr>InterfaceName = interfaceName, Runner = Some process\<rparr>),
              GatewayID = gatewayID, VerifyKey = verifyKey,
              Current = \<lparr>snap_GatewayID = '''', snap_Generation = 0, snap_ExpiresAt = 0,
                snap_Peers = [], snap_Signature = []\<rparr>,
              CurrentPeers = Map.empty\<rparr>\<rparr>))))"

text \<open>The exit code: \<^verbatim>\<open>Run\<close> ends with \<^verbatim>\<open>context.Canceled\<close> or an error of its arguments.\<close>

definition agent_run ::
  "('n, 'k) agent_start \<Rightarrow> (worker_env \<times> bool) list \<Rightarrow> 'n \<Rightarrow> 'k \<Rightarrow> nat \<times> 'n \<times> 'k" where
  "agent_run a turns n k =
     (case Run (ag_interval a) turns (ag_worker a) n k of
        Inl err \<Rightarrow> (1, n, k)
      | Inr (waits, w1, n1, k1) \<Rightarrow> (0, n1, k1))"

end
