(* ===== verification/Store_Inv.thy ===== *)
theory Store_Inv
  imports Outbox
begin

text \<open>
  The invariant of the tables, one part per table, and its preservation by every operation of
  the store: \<open>store_step\<close> has one rule per operation that writes, \<open>store_step_inv\<close> is
  the preservation, \<open>store_reachable_inv\<close> carries it to every sequence of operations.
\<close>

section \<open>The invariant\<close>

abbreviation "held l \<equiv> l_released l = None"

definition users_inv :: "(string \<Rightarrow> string option) \<Rightarrow> db \<Rightarrow> bool" where
  "users_inv cast d \<longleftrightarrow> distinct (map u_id (t_users d)) \<and> distinct (map u_email (t_users d))
     \<and> (\<forall>u\<in>set (t_users d). cast (u_id u) = Some (u_id u))"

definition devices_inv :: "(string \<Rightarrow> string option) \<Rightarrow> db \<Rightarrow> bool" where
  "devices_inv cast d \<longleftrightarrow> distinct (map d_id (t_devices d)) \<and> distinct (map d_key (t_devices d))
     \<and> (\<forall>r\<in>set (t_devices d). cast (d_id r) = Some (d_id r) \<and> d_user r \<in> u_id ` set (t_users d)
          \<and> (d_state r = DeviceRevoked) = (d_revoked r \<noteq> None))"

definition leases_inv :: "db \<Rightarrow> bool" where
  "leases_inv d \<longleftrightarrow> distinct (map l_id (t_leases d))
     \<and> distinct (map l_device (filter held (t_leases d)))
     \<and> distinct (map (\<lambda>l. (l_region l, l_v4 l)) (filter held (t_leases d)))
     \<and> distinct (map (\<lambda>l. (l_region l, l_v6 l)) (filter held (t_leases d)))
     \<and> (\<forall>l\<in>set (t_leases d). l_device l \<in> d_id ` set (t_devices d)
          \<and> l_region l \<in> r_id ` set (t_regions d) \<and> bitLen (l_v4 l) = 32 \<and> bitLen (l_v6 l) = 128)"

definition assignments_inv :: "db \<Rightarrow> bool" where
  "assignments_inv d \<longleftrightarrow> distinct (map a_id (t_assignments d))
     \<and> distinct (map a_lease (t_assignments d))
     \<and> distinct (map a_device (filter live (t_assignments d)))
     \<and> (\<forall>pa\<in>set (t_assignments d). a_gateway pa \<in> g_id ` set (t_gateways d)
          \<and> a_lease pa \<in> l_id ` set (t_leases d) \<and> 0 < a_desired pa \<and> a_observed pa \<le> a_desired pa)"

text \<open>The live assignments and the leases not released belong together, one to one.\<close>

definition match_inv :: "db \<Rightarrow> bool" where
  "match_inv d \<longleftrightarrow>
     (\<forall>pa\<in>set (t_assignments d). live pa \<longrightarrow>
        (\<exists>l\<in>set (t_leases d). l_id l = a_lease pa \<and> held l \<and> l_device l = a_device pa))
     \<and> (\<forall>l\<in>set (t_leases d). held l \<longrightarrow> (\<exists>pa\<in>set (t_assignments d). live pa \<and> a_lease pa = l_id l))"

definition gateways_inv :: "(string \<Rightarrow> string option) \<Rightarrow> db \<Rightarrow> bool" where
  "gateways_inv cast d \<longleftrightarrow> distinct (map g_id (t_gateways d))
     \<and> (\<forall>g\<in>set (t_gateways d). cast (g_id g) = Some (g_id g) \<and> live_count d (g_id g) \<le> g_capacity g)"

definition idem_inv :: "db \<Rightarrow> bool" where
  "idem_inv d \<longleftrightarrow> distinct (map (\<lambda>k. (k_user k, k_operation k, k_hash k)) (t_idem d))"

definition snapshot_ok :: "snapshot_row \<Rightarrow> bool" where
  "snapshot_ok gs \<longleftrightarrow> 0 < s_generation gs \<and> length (s_signature gs) = 64 \<and> s_attempts gs \<le> 100
     \<and> (s_state gs \<noteq> SnapQueued \<longrightarrow> 0 < s_attempts gs) \<and> (s_state gs = SnapAcked) = (s_acked gs \<noteq> None)"

definition snapshots_inv :: "(string \<Rightarrow> string option) \<Rightarrow> db \<Rightarrow> bool" where
  "snapshots_inv cast d \<longleftrightarrow> distinct (map s_id (t_snapshots d))
     \<and> distinct (map (\<lambda>gs. (s_gateway gs, s_generation gs)) (t_snapshots d))
     \<and> (\<forall>gs\<in>set (t_snapshots d). cast (s_id gs) = Some (s_id gs)
          \<and> s_gateway gs \<in> g_id ` set (t_gateways d) \<and> snapshot_ok gs)"

definition db_inv :: "(string \<Rightarrow> string option) \<Rightarrow> db \<Rightarrow> bool" where
  "db_inv cast d \<longleftrightarrow> users_inv cast d \<and> devices_inv cast d \<and> leases_inv d \<and> assignments_inv d
     \<and> match_inv d \<and> gateways_inv cast d \<and> idem_inv d \<and> snapshots_inv cast d"

lemma db_invI [inv_intros]:
  "\<lbrakk>users_inv cast d; devices_inv cast d; leases_inv d; assignments_inv d; match_inv d;
    gateways_inv cast d; idem_inv d; snapshots_inv cast d\<rbrakk> \<Longrightarrow> db_inv cast d"
  by (simp add: db_inv_def)

lemma db_invD:
  assumes "db_inv cast d"
  shows "users_inv cast d" "devices_inv cast d" "leases_inv d" "assignments_inv d" "match_inv d"
    "gateways_inv cast d" "idem_inv d" "snapshots_inv cast d"
  using assms by (simp_all add: db_inv_def)

text \<open>A database the administrator has filled with regions and gateways.\<close>

definition seeded :: "(string \<Rightarrow> string option) \<Rightarrow> db \<Rightarrow> bool" where
  "seeded cast d \<longleftrightarrow> t_users d = [] \<and> t_devices d = [] \<and> t_leases d = [] \<and> t_assignments d = []
     \<and> t_idem d = [] \<and> t_snapshots d = [] \<and> distinct (map g_id (t_gateways d))
     \<and> (\<forall>g\<in>set (t_gateways d). cast (g_id g) = Some (g_id g))"

lemma seeded_inv: "seeded cast d \<Longrightarrow> db_inv cast d"
  by (simp add: seeded_def db_inv_def users_inv_def devices_inv_def leases_inv_def live_count_def
      assignments_inv_def match_inv_def gateways_inv_def idem_inv_def snapshots_inv_def)

text \<open>
  The environments of one server: uuid texts are cast by \<open>cast\<close>, and generated ids are
  canonical uuid texts.
\<close>

definition env_ok :: "(string \<Rightarrow> string option) \<Rightarrow> db_env \<Rightarrow> bool" where
  "env_ok cast env \<longleftrightarrow> cast_uuid env = cast
     \<and> (\<forall>i. new_id env i \<noteq> '''' \<and> cast (new_id env i) = Some (new_id env i))"

lemma env_okD:
  assumes "env_ok cast env"
  shows "cast_uuid env = cast" "cast (new_id env i) = Some (new_id env i)" "new_id env i \<noteq> ''''"
  using assms by (simp_all add: env_ok_def)

section \<open>What commits\<close>

lemma attempt_Inr: "attempt env i q d = Inr (x, d') \<longleftrightarrow> fault env i = None \<and> q d = Inr (x, d')"
  by (auto simp: attempt_def split: option.splits)

lemma CreateUser_db: "snd (CreateUser env e h d) = snd (autocommit env 0 (insert_user env e h) d)"
  by (auto simp: CreateUser_def split: prod.splits sum.splits)

lemma Store_RegisterDevice_db:
  "snd (Store_RegisterDevice env u q d) =
     (if ValidateRegisterDevice u q = None
      then snd (autocommit env 0 (insert_device env u (trimSpace (req_Name q)) (req_Platform q)
                  (req_PublicKey q)) d) else d)"
  by (auto simp: Store_RegisterDevice_def split: option.splits prod.splits sum.splits)

lemma Store_RequestRevocation_db:
  "snd (Store_RequestRevocation env u i d) = snd (autocommit env 0 (update_revocation env u i) d)"
  by (auto simp: Store_RequestRevocation_def split: prod.splits sum.splits)

lemma EnqueueSnapshot_db:
  "snd (EnqueueSnapshot_at i env g n p s d) =
     (if trimSpace g = '''' \<or> n \<le> 0 \<or> length p = 0 \<or> length s \<noteq> 64 then d
      else snd (autocommit env i (insert_snapshot env g n p s) d))"
  by (auto simp: EnqueueSnapshot_at_def split: prod.splits sum.splits)

lemma AckSnapshot_db:
  "snd (AckSnapshot_at i env g s n d) =
     (if trimSpace g = '''' \<or> trimSpace s = '''' \<or> n \<le> 0 then d
      else snd (autocommit env i (update_acked env g s n) d))"
  by (auto simp: AckSnapshot_at_def split: prod.splits sum.splits)

lemma RetrySnapshot_db:
  "snd (RetrySnapshot env g s t r d) =
     (if trimSpace g = '''' \<or> trimSpace s = '''' \<or> time_is_zero t then d
      else snd (autocommit env 0 (update_failed env g s t (if length r > 512 then take 512 r else r)) d))"
  by (auto simp: RetrySnapshot_def Let_def split: prod.splits sum.splits)

lemma ClaimSnapshot_db: "snd (ClaimSnapshot env g d) = snd (ClaimNextSnapshot env g d)"
  by (auto simp: ClaimSnapshot_def split: prod.splits sum.splits)

section \<open>The statements on users and devices\<close>

lemma insert_user_inv:
  assumes "db_inv cast d" "env_ok cast env" "insert_user env e h d = Inr (x, d')"
  shows "db_inv cast d'"
proof -
  note i = db_invD [OF assms(1)] and c = env_okD [OF assms(2)]
  from assms(3) have d': "d' = d\<lparr>t_users := t_users d @
      [\<lparr>u_id = new_id env 0, u_email = e, u_hash = h, u_disabled = None\<rparr>]\<rparr>"
    and n: "new_id env 0 \<notin> u_id ` set (t_users d)" "e \<notin> u_email ` set (t_users d)"
    by (auto simp: insert_user_def split: if_splits)
  show ?thesis
  proof (rule db_invI)
    show "users_inv cast d'" using i(1) n c by (simp add: users_inv_def d')
    show "devices_inv cast d'" using i(2) by (auto simp: devices_inv_def d')
    show "gateways_inv cast d'" using i(6) by (simp add: gateways_inv_def live_count_def d')
  qed (use i in \<open>simp_all add: d' leases_inv_def assignments_inv_def match_inv_def idem_inv_def snapshots_inv_def\<close>)
qed

lemma insert_device_inv:
  assumes "db_inv cast d" "env_ok cast env" "insert_device env u n p k d = Inr (x, d')"
  shows "db_inv cast d'"
proof -
  note i = db_invD [OF assms(1)] and c = env_okD [OF assms(2)]
  from assms(3) obtain r where d': "d' = d\<lparr>t_devices := t_devices d @ [r]\<rparr>"
    and r: "d_id r = new_id env 0" "d_id r \<notin> d_id ` set (t_devices d)" "d_key r \<notin> d_key ` set (t_devices d)"
      "d_user r \<in> u_id ` set (t_users d)" "d_state r = DeviceActive" "d_revoked r = None"
    by (auto simp: insert_device_def Let_def split: if_splits option.splits)
  show ?thesis
  proof (rule db_invI)
    show "users_inv cast d'" using i(1) by (simp add: users_inv_def d')
    show "devices_inv cast d'" using i(2) r c by (simp add: devices_inv_def d')
    show "leases_inv d'" using i(3) by (auto simp: leases_inv_def d')
    show "gateways_inv cast d'" using i(6) by (simp add: gateways_inv_def live_count_def d')
  qed (use i in \<open>simp_all add: d' assignments_inv_def match_inv_def idem_inv_def snapshots_inv_def\<close>)
qed

text \<open>Updates of devices that leave their keys alone.\<close>

lemma update_devices_inv:
  assumes "db_inv cast d" "d' = d\<lparr>t_devices := map f (t_devices d)\<rparr>"
    and f: "\<And>r. d_id (f r) = d_id r" "\<And>r. d_key (f r) = d_key r" "\<And>r. d_user (f r) = d_user r"
    and s: "\<And>r. (d_state r = DeviceRevoked) = (d_revoked r \<noteq> None) \<Longrightarrow>
      (d_state (f r) = DeviceRevoked) = (d_revoked (f r) \<noteq> None)"
  shows "db_inv cast d'"
proof -
  note i = db_invD [OF assms(1)]
  have e: "d_id ` f ` X = d_id ` X" for X by (simp add: image_image f)
  show ?thesis
  proof (rule db_invI)
    show "users_inv cast d'" using i(1) by (simp add: users_inv_def assms(2))
    show "devices_inv cast d'" using i(2) by (simp add: devices_inv_def assms(2) comp_def f s)
    show "leases_inv d'" using i(3) by (simp add: leases_inv_def assms(2) e)
    show "gateways_inv cast d'" using i(6) by (simp add: gateways_inv_def live_count_def assms(2))
  qed (use i in \<open>simp_all add: assms(2) assignments_inv_def match_inv_def idem_inv_def snapshots_inv_def\<close>)
qed

lemma update_revocation_inv:
  assumes "db_inv cast d" "update_revocation env u i d = Inr (x, d')"
  shows "db_inv cast d'"
proof -
  from assms(2) obtain ow dv where "d' = d\<lparr>t_devices := map (revoke_row ow dv) (t_devices d)\<rparr>"
    by (auto simp: update_revocation_def split: option.splits if_splits)
  then show ?thesis by (rule update_devices_inv [OF assms(1)]) (auto simp: revoke_row_def)
qed

section \<open>The statements on tunnels\<close>

lemma insert_idem_inv:
  assumes "db_inv cast d" "insert_idem env u op kh rh st body t d = Inr (x, d')"
  shows "db_inv cast d'"
proof -
  note i = db_invD [OF assms(1)]
  from assms(2) obtain k where d': "d' = d\<lparr>t_idem := t_idem d @ [k]\<rparr>"
    and k: "\<forall>k'\<in>set (t_idem d). (k_user k', k_operation k', k_hash k') \<noteq> (k_user k, k_operation k, k_hash k)"
    by (auto simp: insert_idem_def split: if_splits option.splits)
  show ?thesis
  proof (rule db_invI)
    show "users_inv cast d'" using i(1) by (simp add: users_inv_def d')
    show "devices_inv cast d'" using i(2) by (simp add: devices_inv_def d')
    show "gateways_inv cast d'" using i(6) by (simp add: gateways_inv_def live_count_def d')
    show "idem_inv d'" using i(7) k by (auto simp: idem_inv_def d')
  qed (use i in \<open>simp_all add: d' leases_inv_def assignments_inv_def match_inv_def snapshots_inv_def\<close>)
qed

text \<open>A lease and its assignment are inserted together.\<close>

lemma insert_lease_Inr:
  assumes "insert_lease env rg dv v4 v6 d = Inr (x, d')"
  obtains l where "d' = d\<lparr>t_leases := t_leases d @ [l]\<rparr>" "x = l_id l" "l_id l = new_id env 0" "held l"
    "cast_uuid env dv = Some (l_device l)" "l_region l = rg" "cast_inet env v4 = Some (l_v4 l)"
    "cast_inet env v6 = Some (l_v6 l)" "bitLen (l_v4 l) = 32" "bitLen (l_v6 l) = 128"
    "l_id l \<notin> l_id ` set (t_leases d)" "rg \<in> r_id ` set (t_regions d)" "l_device l \<in> d_id ` set (t_devices d)"
    "\<And>l'. l' \<in> set (t_leases d) \<Longrightarrow> held l' \<Longrightarrow> l_device l' \<noteq> l_device l
       \<and> (l_region l' = rg \<longrightarrow> l_v4 l' \<noteq> l_v4 l \<and> l_v6 l' \<noteq> l_v6 l)"
proof -
  from assms obtain device ipv4 ipv6 where c: "cast_uuid env dv = Some device"
      "cast_inet env v4 = Some ipv4" "cast_inet env v6 = Some ipv6"
    and k: "bitLen ipv4 = 32" "bitLen ipv6 = 128" "new_id env 0 \<notin> l_id ` set (t_leases d)"
      "\<not> (\<exists>l\<in>set (t_leases d). held l \<and>
           (l_device l = device \<or> (l_region l = rg \<and> (l_v4 l = ipv4 \<or> l_v6 l = ipv6))))"
      "rg \<in> r_id ` set (t_regions d)" "device \<in> d_id ` set (t_devices d)"
    and r: "x = new_id env 0" "d' = d\<lparr>t_leases := t_leases d @
        [\<lparr>l_id = new_id env 0, l_region = rg, l_device = device, l_v4 = ipv4, l_v6 = ipv6,
          l_released = None\<rparr>]\<rparr>"
    by (auto simp: insert_lease_def simp del: image_iff split: if_splits option.splits del: imageE)
  show ?thesis by (rule that [OF r(2)]) (use c k r(1) in auto)
qed

lemma insert_assignment_Inr:
  assumes "insert_assignment env dv gw le t d = Inr (x, d')"
  obtains pa where "d' = d\<lparr>t_assignments := t_assignments d @ [pa]\<rparr>" "x = a_id pa"
    "a_id pa \<notin> a_id ` set (t_assignments d)" "cast_uuid env dv = Some (a_device pa)"
    "cast_uuid env gw = Some (a_gateway pa)" "cast_uuid env le = Some (a_lease pa)" "a_state pa = AsgPending"
    "a_desired pa = 1" "a_observed pa = 0" "a_expires pa = timestamp t"
    "a_device pa \<in> d_id ` set (t_devices d)" "a_gateway pa \<in> g_id ` set (t_gateways d)"
    "a_lease pa \<in> l_id ` set (t_leases d)" "a_id pa = new_id env 1"
    "\<And>pa'. pa' \<in> set (t_assignments d) \<Longrightarrow> live pa' \<Longrightarrow> a_device pa' \<noteq> a_device pa"
proof -
  from assms obtain device gateway lease where c: "cast_uuid env dv = Some device"
      "cast_uuid env gw = Some gateway" "cast_uuid env le = Some lease"
    and k: "new_id env 1 \<notin> a_id ` set (t_assignments d)"
      "\<not> (\<exists>pa\<in>set (t_assignments d). a_device pa = device \<and> live pa)"
      "device \<in> d_id ` set (t_devices d)" "gateway \<in> g_id ` set (t_gateways d)"
      "lease \<in> l_id ` set (t_leases d)"
    and r: "x = new_id env 1" "d' = d\<lparr>t_assignments := t_assignments d @
        [\<lparr>a_id = new_id env 1, a_device = device, a_gateway = gateway, a_lease = lease,
          a_state = AsgPending, a_desired = 1, a_observed = 0, a_expires = timestamp t,
          a_created = timestamp (db_now env)\<rparr>]\<rparr>"
    by (auto simp: insert_assignment_def simp del: image_iff One_nat_def
        split: if_splits option.splits del: imageE)
  show ?thesis by (rule that [OF r(2)]) (use c k r(1) in \<open>auto simp del: One_nat_def\<close>)
qed

lemma select_gateway_Inr:
  assumes "select_gateway rg d = Inr (g, d')"
  shows "g \<in> set (t_gateways d)" "g_region g = rg" "g_state g = GwReady"
    "live_count d (g_id g) < g_capacity g" "d' = d"
proof -
  let ?gs = "sort_key (\<lambda>g. (live_count d (g_id g), g_id g)) (filter (\<lambda>g. g_region g = rg
     \<and> g_state g = GwReady \<and> live_count d (g_id g) < g_capacity g) (t_gateways d))"
  from assms obtain gs where "?gs = g # gs" and d: "d' = d"
    by (auto simp: select_gateway_def split: list.splits)
  then have "g \<in> set ?gs" by (metis list.set_intros(1))
  then show "g \<in> set (t_gateways d)" "g_region g = rg" "g_state g = GwReady"
    "live_count d (g_id g) < g_capacity g" "d' = d" using d by simp_all
qed

lemma live_count_append:
  "live_count (d\<lparr>t_assignments := t_assignments d @ [pa]\<rparr>) g =
     live_count d g + (if a_gateway pa = g \<and> live pa then 1 else 0)"
  by (simp add: live_count_def)

lemma allocate_rows_inv:
  assumes "db_inv cast d" "env_ok cast env" "g \<in> set (t_gateways d)" "live_count d (g_id g) < g_capacity g"
    and l: "insert_lease env rg dv v4 v6 d = Inr (le, d1)"
    and a: "insert_assignment env dv (g_id g) le t d1 = Inr (x, d2)"
  shows "db_inv cast d2"
proof -
  note i = db_invD [OF assms(1)] and c = env_okD [OF assms(2)]
  obtain l where d1: "d1 = d\<lparr>t_leases := t_leases d @ [l]\<rparr>"
    and l: "le = l_id l" "l_id l = new_id env 0" "held l" "cast dv = Some (l_device l)"
      "bitLen (l_v4 l) = 32" "bitLen (l_v6 l) = 128" "l_id l \<notin> l_id ` set (t_leases d)"
      "l_region l \<in> r_id ` set (t_regions d)" "l_device l \<in> d_id ` set (t_devices d)"
      "\<And>l'. l' \<in> set (t_leases d) \<Longrightarrow> held l' \<Longrightarrow> l_device l' \<noteq> l_device l
         \<and> (l_region l' = l_region l \<longrightarrow> l_v4 l' \<noteq> l_v4 l \<and> l_v6 l' \<noteq> l_v6 l)"
    by (rule insert_lease_Inr [OF l]) (simp add: c)
  obtain pa where d2: "d2 = d1\<lparr>t_assignments := t_assignments d1 @ [pa]\<rparr>"
    and a: "a_id pa \<notin> a_id ` set (t_assignments d1)" "cast dv = Some (a_device pa)"
      "cast (g_id g) = Some (a_gateway pa)" "cast le = Some (a_lease pa)" "a_state pa = AsgPending"
      "a_desired pa = 1" "a_observed pa = 0" "a_gateway pa \<in> g_id ` set (t_gateways d1)"
      "\<And>pa'. pa' \<in> set (t_assignments d1) \<Longrightarrow> live pa' \<Longrightarrow> a_device pa' \<noteq> a_device pa"
    by (rule insert_assignment_Inr [OF a]) (simp add: c)
  from a(4) l(1,2) c(2) have al: "a_lease pa = l_id l" by simp
  from a(2) l(4) have ad: "a_device pa = l_device l" by simp
  from assms(3) i(6) a(3) have ag: "a_gateway pa = g_id g" by (simp add: gateways_inv_def)
  have lv: "live pa" using a(5) by (simp add: live_def)
  have al_new: "a_lease pa \<notin> a_lease ` set (t_assignments d)"
    using i(4) l(7) by (auto simp: assignments_inv_def al)
  show ?thesis
  proof (rule db_invI)
    show "users_inv cast d2" using i(1) by (simp add: users_inv_def d1 d2)
    show "devices_inv cast d2" using i(2) by (simp add: devices_inv_def d1 d2)
    have "(l_region l, l_v4 l) \<notin> (\<lambda>l. (l_region l, l_v4 l)) ` set (filter held (t_leases d))"
      "(l_region l, l_v6 l) \<notin> (\<lambda>l. (l_region l, l_v6 l)) ` set (filter held (t_leases d))"
      "l_device l \<notin> l_device ` set (filter held (t_leases d))"
      using l(10) by force+
    then show "leases_inv d2" using i(3) l(3,5-9) by (simp add: leases_inv_def d1 d2)
    have "a_device pa \<notin> a_device ` set (filter live (t_assignments d))"
      using a(9) by (force simp: d1)
    with i(4) show "assignments_inv d2"
      using a(1,6-8) lv al_new by (simp add: assignments_inv_def d1 d2 al)
    show "match_inv d2" using i(5) al ad lv l(3) by (auto simp: match_inv_def d1 d2)
    show "gateways_inv cast d2" unfolding gateways_inv_def
    proof (intro conjI ballI)
      fix g' assume g': "g' \<in> set (t_gateways d2)"
      then have g'd: "g' \<in> set (t_gateways d)" by (simp add: d1 d2)
      with i(6) show "cast (g_id g') = Some (g_id g')" by (simp add: gateways_inv_def)
      have n: "live_count d2 (g_id g') = live_count d (g_id g') + (if g_id g = g_id g' then 1 else 0)"
        using lv ag by (simp add: d1 d2 live_count_def)
      have "g_id g = g_id g' \<Longrightarrow> g = g'"
        using distinct_map_inj_unique [of g_id "t_gateways d" g g'] i(6) assms(3) g'd
        by (simp add: gateways_inv_def)
      with n assms(4) i(6) g'd show "live_count d2 (g_id g') \<le> g_capacity g'"
        by (auto simp: gateways_inv_def)
    qed (use i(6) in \<open>simp add: gateways_inv_def d1 d2\<close>)
  qed (use i in \<open>simp_all add: d1 d2 idem_inv_def snapshots_inv_def\<close>)
qed

lemma tunnel_body_inv:
  assumes "db_inv cast d" "env_ok cast env" "tunnel_body env cd u dv rg k d = Inr (x, d')"
  shows "db_inv cast d'"
proof -
  have reuse: "db_inv cast d'" if "reuse_assignment env cd u op rg k dns row d = Inr (x, d')" for op dns row
    using that insert_idem_inv [OF assms(1)]
    by (auto simp: reuse_assignment_def Let_def attempt_Inr split: prod.splits if_splits sum.splits)
  have alloc: "db_inv cast d'"
    if t: "allocate_assignment env cd u dv op rg k region dns d = Inr (x, d')" for op region dns
  proof -
    from t obtain g le d1 v4 v6 asg t d2 body x' where "select_gateway rg d = Inr (g, snd (g, d))"
      "insert_lease env rg dv v4 v6 d = Inr (le, d1)"
      "insert_assignment env dv (g_id g) le t d1 = Inr (asg, d2)"
      "insert_idem env u op (sha cd k) (sha cd rg) 201 body t d2 = Inr (x', d')"
      by (auto simp: allocate_assignment_def Let_def attempt_Inr split: prod.splits if_splits sum.splits
          dest: select_gateway_Inr(5))
    then show ?thesis
      using select_gateway_Inr(1,4) insert_idem_inv allocate_rows_inv [OF assms(1,2)] by metis
  qed
  show ?thesis
    using assms(3) assms(1) reuse alloc
    by (auto simp: tunnel_body_def Let_def attempt_Inr replay_answer_def
        split: sum.splits prod.splits if_splits option.splits)
qed

section \<open>The statements on snapshots\<close>

text \<open>Updates of snapshots that leave their keys alone.\<close>

lemma update_snapshots_inv:
  assumes "db_inv cast d" "d' = d\<lparr>t_snapshots := map f (t_snapshots d)\<rparr>"
    and f: "\<And>gs. s_id (f gs) = s_id gs" "\<And>gs. s_gateway (f gs) = s_gateway gs"
      "\<And>gs. s_generation (f gs) = s_generation gs"
    and ok: "\<And>gs. gs \<in> set (t_snapshots d) \<Longrightarrow> snapshot_ok gs \<Longrightarrow> snapshot_ok (f gs)"
  shows "db_inv cast d'"
proof -
  note i = db_invD [OF assms(1)]
  show ?thesis
  proof (rule db_invI)
    show "users_inv cast d'" using i(1) by (simp add: users_inv_def assms(2))
    show "devices_inv cast d'" using i(2) by (simp add: devices_inv_def assms(2))
    show "gateways_inv cast d'" using i(6) by (simp add: gateways_inv_def live_count_def assms(2))
    show "snapshots_inv cast d'" using i(8) ok by (simp add: snapshots_inv_def assms(2) comp_def f)
  qed (use i in \<open>simp_all add: assms(2) leases_inv_def assignments_inv_def match_inv_def idem_inv_def\<close>)
qed

lemma insert_snapshot_inv:
  assumes "db_inv cast d" "env_ok cast env" "insert_snapshot env g n p s d = Inr (x, d')"
  shows "db_inv cast d'"
proof -
  note i = db_invD [OF assms(1)] and c = env_okD [OF assms(2)]
  from assms(3) obtain gateway gs where d': "d' = d\<lparr>t_snapshots := t_snapshots d @ [gs]\<rparr>"
    and gs: "s_id gs = new_id env 0" "s_id gs \<notin> s_id ` set (t_snapshots d)" "s_gateway gs = gateway"
      "s_generation gs = n" "n \<notin> set (generations d gateway)" "gateway \<in> g_id ` set (t_gateways d)"
      "snapshot_ok gs"
    by (auto simp: insert_snapshot_def snapshot_ok_def simp del: image_iff
        split: if_splits option.splits del: imageE)
  have k: "(s_gateway gs, s_generation gs) \<notin> (\<lambda>gs. (s_gateway gs, s_generation gs)) ` set (t_snapshots d)"
    using gs(3-5) by (force simp: generations_def)
  show ?thesis
  proof (rule db_invI)
    show "users_inv cast d'" using i(1) by (simp add: users_inv_def d')
    show "devices_inv cast d'" using i(2) by (simp add: devices_inv_def d')
    show "gateways_inv cast d'" using i(6) by (simp add: gateways_inv_def live_count_def d')
    show "snapshots_inv cast d'" using i(8) gs k c(2) [of 0] by (simp add: snapshots_inv_def d')
  qed (use i in \<open>simp_all add: d' leases_inv_def assignments_inv_def match_inv_def idem_inv_def\<close>)
qed

lemma select_delivery_Inr:
  assumes "select_delivery env g d = Inr (gs, d')"
  obtains gateway where "cast_uuid env g = Some gateway" "gs \<in> set (t_snapshots d)"
    "deliverable env gateway gs" "d' = d"
    "\<And>gs'. gs' \<in> set (t_snapshots d) \<Longrightarrow> deliverable env gateway gs' \<Longrightarrow> s_generation gs \<le> s_generation gs'"
proof -
  from assms obtain gateway where c: "cast_uuid env g = Some gateway"
    by (auto simp: select_delivery_def split: option.splits)
  let ?gs = "sort_key s_generation (filter (deliverable env gateway) (t_snapshots d))"
  from assms c obtain rest where r: "?gs = gs # rest" "d' = d"
    by (auto simp: select_delivery_def split: list.splits)
  have "sorted (map s_generation ?gs)" by simp
  then have "\<forall>gs'\<in>set ?gs. s_generation gs \<le> s_generation gs'" unfolding r(1) by simp
  moreover have "gs \<in> set ?gs" unfolding r(1) by simp
  ultimately show ?thesis using that [OF c _ _ r(2)] by simp
qed

definition claim_body :: "db_env \<Rightarrow> string \<Rightarrow> SnapshotDelivery tx" where
  "claim_body env gatewayID d =
     (case attempt env 1 (select_delivery env gatewayID) d of
        Inl err \<Rightarrow> Inl (mapDatabaseError err)
      | Inr (gs, _) \<Rightarrow>
          (case attempt env 2 (update_in_flight env (s_id gs)) d of
             Inl err \<Rightarrow> Inl (mapDatabaseError err)
           | Inr (attempts, d1) \<Rightarrow>
               Inr ((\<lparr>sd_ID = s_id gs, sd_GatewayID = s_gateway gs, sd_Generation = s_generation gs,
                     sd_Payload = s_payload gs, sd_Signature = s_signature gs,
                     sd_Attempts = attempts\<rparr>, 3, ''commit snapshot claim''), d1)))"

lemma ClaimNextSnapshot_tx:
  "ClaimNextSnapshot env g d =
     (if trimSpace g = '''' then (Inl ErrInvalidInput, d)
      else run_tx env ''begin snapshot claim'' (claim_body env g) d)"
  by (simp add: ClaimNextSnapshot_def claim_body_def [abs_def])

lemma claim_body_Inr:
  assumes "snapshots_inv cast d" "cast_uuid env = cast" "claim_body env g d = Inr ((sd, i, c), d')"
  obtains gateway gs where "cast_uuid env g = Some gateway" "gs \<in> set (t_snapshots d)"
    "deliverable env gateway gs"
    "\<And>gs'. gs' \<in> set (t_snapshots d) \<Longrightarrow> deliverable env gateway gs' \<Longrightarrow> s_generation gs \<le> s_generation gs'"
    "d' = d\<lparr>t_snapshots := map (\<lambda>r. if s_id r = s_id gs then send_row env r else r) (t_snapshots d)\<rparr>"
    "sd = \<lparr>sd_ID = s_id gs, sd_GatewayID = gateway, sd_Generation = s_generation gs,
       sd_Payload = s_payload gs, sd_Signature = s_signature gs, sd_Attempts = s_attempts gs + 1\<rparr>"
    "\<And>r. r \<in> set (t_snapshots d) \<Longrightarrow> s_id r = s_id gs \<Longrightarrow> r = gs" "i = 3"
proof -
  from assms(3) obtain gs d0 n where s: "select_delivery env g d = Inr (gs, d0)"
    and u: "update_in_flight env (s_id gs) d = Inr (n, d')" and i: "i = 3"
    and sd: "sd = \<lparr>sd_ID = s_id gs, sd_GatewayID = s_gateway gs, sd_Generation = s_generation gs,
       sd_Payload = s_payload gs, sd_Signature = s_signature gs, sd_Attempts = n\<rparr>"
    by (auto simp: claim_body_def attempt_Inr split: sum.splits prod.splits)
  obtain gateway where g: "cast_uuid env g = Some gateway" "gs \<in> set (t_snapshots d)"
    "deliverable env gateway gs"
    "\<And>gs'. gs' \<in> set (t_snapshots d) \<Longrightarrow> deliverable env gateway gs' \<Longrightarrow> s_generation gs \<le> s_generation gs'"
    by (rule select_delivery_Inr [OF s]) blast
  have un: "r = gs" if "r \<in> set (t_snapshots d)" "s_id r = s_id gs" for r
    using distinct_map_inj_unique [of s_id] assms(1) that g(2) by (auto simp: snapshots_inv_def)
  have ci: "cast (s_id gs) = Some (s_id gs)" using assms(1) g(2) by (simp add: snapshots_inv_def)
  with u assms(2) have d': "d' = d\<lparr>t_snapshots := map (\<lambda>r. if s_id r = s_id gs then send_row env r else r) (t_snapshots d)\<rparr>"
    and n: "\<exists>r. find (\<lambda>r. s_id r = s_id gs) (t_snapshots d) = Some r \<and> n = s_attempts r + 1"
    by (auto simp: update_in_flight_def split: option.splits)
  from n un have "n = s_attempts gs + 1" by (auto dest!: find_Some_mem)
  with g(3) have "sd = \<lparr>sd_ID = s_id gs, sd_GatewayID = gateway, sd_Generation = s_generation gs,
       sd_Payload = s_payload gs, sd_Signature = s_signature gs, sd_Attempts = s_attempts gs + 1\<rparr>"
    by (simp add: sd deliverable_def)
  with that [OF g d' _ un i] show ?thesis by blast
qed

lemma claim_body_inv:
  assumes "db_inv cast d" "env_ok cast env" "claim_body env g d = Inr ((x, i, c), d')"
  shows "db_inv cast d'"
proof (rule claim_body_Inr [OF db_invD(8) [OF assms(1)] env_okD(1) [OF assms(2)] assms(3)])
  fix gateway gs assume dl: "deliverable env gateway gs"
    and d': "d' = d\<lparr>t_snapshots := map (\<lambda>r. if s_id r = s_id gs then send_row env r else r) (t_snapshots d)\<rparr>"
    and un: "\<And>r. r \<in> set (t_snapshots d) \<Longrightarrow> s_id r = s_id gs \<Longrightarrow> r = gs"
  have "snapshot_ok (send_row env r)"
    if "snapshot_ok r" "r \<in> set (t_snapshots d)" "s_id r = s_id gs" for r
    using dl that(1) unfolding un [OF that(2,3)]
    by (auto simp: send_row_def snapshot_ok_def deliverable_def)
  then show ?thesis
    by (intro update_snapshots_inv [OF assms(1) d']) (auto simp: send_row_def)
qed

lemma update_rows_inv:
  assumes "db_inv cast d" "update_snapshots P f d = (x, d')"
    and f: "\<And>gs. s_id (f gs) = s_id gs" "\<And>gs. s_gateway (f gs) = s_gateway gs"
      "\<And>gs. s_generation (f gs) = s_generation gs"
    and ok: "\<And>gs. P gs \<Longrightarrow> snapshot_ok gs \<Longrightarrow> snapshot_ok (f gs)"
  shows "db_inv cast d'"
proof -
  from assms(2) have "d' = d\<lparr>t_snapshots := map (\<lambda>gs. if P gs then f gs else gs) (t_snapshots d)\<rparr>"
    by (simp add: update_snapshots_def)
  then show ?thesis by (rule update_snapshots_inv [OF assms(1)]) (simp_all add: f ok)
qed

lemma update_acked_inv:
  assumes "db_inv cast d" "update_acked env g s n d = Inr (x, d')"
  shows "db_inv cast d'"
proof -
  from assms(2) obtain P where u: "update_snapshots P (ack_row env) d = (x, d')"
    and P: "\<And>gs. P gs \<Longrightarrow> s_state gs = SnapInFlight"
    by (auto simp: update_acked_def split: option.splits)
  show ?thesis
    by (rule update_rows_inv [OF assms(1) u]) (auto simp: ack_row_def snapshot_ok_def dest: P)
qed

lemma update_failed_inv:
  assumes "db_inv cast d" "update_failed env g s t r d = Inr (x, d')"
  shows "db_inv cast d'"
proof -
  from assms(2) obtain P where u: "update_snapshots P (fail_row t r) d = (x, d')"
    and P: "\<And>gs. P gs \<Longrightarrow> s_state gs = SnapInFlight"
    by (auto simp: update_failed_def split: option.splits)
  show ?thesis
    by (rule update_rows_inv [OF assms(1) u]) (auto simp: fail_row_def snapshot_ok_def dest: P)
qed

section \<open>Confirmation\<close>

definition confirm_body :: "db_env \<Rightarrow> string \<Rightarrow> int \<Rightarrow> unit tx" where
  "confirm_body env gatewayID generation d =
     (case attempt env 1 (confirm_assignments env gatewayID generation) d of
        Inl err \<Rightarrow> Inl (mapDatabaseError err)
      | Inr (_, d1) \<Rightarrow>
          (case attempt env 2 (release_leases env gatewayID) d1 of
             Inl err \<Rightarrow> Inl (mapDatabaseError err)
           | Inr (_, d2) \<Rightarrow>
               (case attempt env 3 (revoke_devices env gatewayID) d2 of
                  Inl err \<Rightarrow> Inl (mapDatabaseError err)
                | Inr (_, d3) \<Rightarrow> Inr (((), 4, ''commit gateway confirmation''), d3))))"

lemma ConfirmGatewaySnapshot_tx:
  "ConfirmGatewaySnapshot env g n d =
     (if g = '''' \<or> n \<le> 0 then (Inl ErrInvalidInput, d)
      else run_tx env ''begin gateway confirmation'' (confirm_body env g n) d)"
  by (simp add: ConfirmGatewaySnapshot_def confirm_body_def [abs_def])

text \<open>The three updates as functions on the rows.\<close>

definition release_row :: "db_env \<Rightarrow> string \<Rightarrow> db \<Rightarrow> lease_row \<Rightarrow> lease_row" where
  "release_row env gateway d l =
     (if held l \<and> removed_here gateway (\<lambda>pa. a_lease pa = l_id l) d
      then l\<lparr>l_released := Some (timestamp (db_now env))\<rparr> else l)"

definition end_revocation :: "db_env \<Rightarrow> string \<Rightarrow> db \<Rightarrow> device_row \<Rightarrow> device_row" where
  "end_revocation env gateway d r =
     (if d_state r = DeviceRevocationPending \<and> removed_here gateway (\<lambda>pa. a_device pa = d_id r) d
      then r\<lparr>d_state := DeviceRevoked, d_revoked := Some (timestamp (db_now env))\<rparr> else r)"

lemma confirm_body_Inr:
  assumes "confirm_body env g n d = Inr ((x, i, c), d')"
  obtains gateway d1 d2 where "cast_uuid env g = Some gateway"
    "d1 = d\<lparr>t_assignments := map (confirm_row gateway n) (t_assignments d)\<rparr>"
    "d2 = d1\<lparr>t_leases := map (release_row env gateway d1) (t_leases d1)\<rparr>"
    "d' = d2\<lparr>t_devices := map (end_revocation env gateway d2) (t_devices d2)\<rparr>" "i = 4"
  using assms
  by (auto simp: confirm_body_def attempt_Inr confirm_assignments_def release_leases_def
      revoke_devices_def release_row_def [abs_def] end_revocation_def [abs_def]
      split: sum.splits prod.splits option.splits)

lemma confirm_row_keys [simp]:
  "a_id (confirm_row g n pa) = a_id pa" "a_lease (confirm_row g n pa) = a_lease pa"
  "a_device (confirm_row g n pa) = a_device pa" "a_gateway (confirm_row g n pa) = a_gateway pa"
  "a_desired (confirm_row g n pa) = a_desired pa" "a_expires (confirm_row g n pa) = a_expires pa"
  "a_created (confirm_row g n pa) = a_created pa"
  by (auto simp: confirm_row_def)

lemma confirm_row_observed:
  "a_observed pa \<le> a_desired pa \<Longrightarrow> a_observed (confirm_row g n pa) \<le> a_desired pa"
  by (auto simp: confirm_row_def)

lemma confirm_row_live: "live (confirm_row g n pa) \<Longrightarrow> live pa"
  by (auto simp: confirm_row_def live_iff split: if_splits)

lemma confirm_row_removed:
  "live pa \<Longrightarrow> \<not> live (confirm_row g n pa) \<Longrightarrow> a_gateway pa = g \<and> a_state (confirm_row g n pa) = AsgRemoved"
  by (auto simp: confirm_row_def live_iff split: if_splits)

lemma release_row_keys [simp]:
  "l_id (release_row env g d l) = l_id l" "l_device (release_row env g d l) = l_device l"
  "l_region (release_row env g d l) = l_region l" "l_v4 (release_row env g d l) = l_v4 l"
  "l_v6 (release_row env g d l) = l_v6 l"
  by (auto simp: release_row_def)

lemma release_row_held: "held (release_row env g d l) \<longleftrightarrow>
    held l \<and> \<not> removed_here g (\<lambda>pa. a_lease pa = l_id l) d"
  by (auto simp: release_row_def)

lemma distinct_map_filter_sub:
  assumes "distinct (map k (filter P xs))" "\<And>x. k' (f x) = k x" "\<And>x. P' (f x) \<Longrightarrow> P x"
  shows "distinct (map k' (filter P' (map f xs)))"
proof -
  have "map k' (filter P' (map f xs)) = map k (filter (\<lambda>x. P' (f x)) (filter P xs))"
    using assms(3) by (induction xs) (auto simp: assms(2))
  then show ?thesis using distinct_map_filter [OF assms(1)] by simp
qed

lemma length_filter_comp_le:
  assumes "\<And>x. P' (f x) \<Longrightarrow> P x"
  shows "length (filter (P' \<circ> f) xs) \<le> length (filter P xs)"
  using assms by (induction xs) auto

lemma confirm_assignments_part:
  assumes "db_inv cast d"
    and d1: "d1 = d\<lparr>t_assignments := map (confirm_row gateway n) (t_assignments d)\<rparr>"
    and d2: "d2 = d1\<lparr>t_leases := map (release_row env gateway d1) (t_leases d1)\<rparr>"
  shows "db_inv cast d2"
proof -
  note i = db_invD [OF assms(1)]
  show ?thesis
  proof (rule db_invI)
    show "users_inv cast d2" using i(1) by (simp add: users_inv_def d1 d2)
    show "devices_inv cast d2" using i(2) by (simp add: devices_inv_def d1 d2)
    have h: "held (release_row env gateway d1 l) \<Longrightarrow> held l" for l by (simp add: release_row_held)
    have "distinct (map k (filter held (t_leases d)))
        \<Longrightarrow> distinct (map k (filter held (map (release_row env gateway d1) (t_leases d))))"
      if "\<And>l. k (release_row env gateway d1 l) = k l" for k :: "lease_row \<Rightarrow> 'k"
      by (rule distinct_map_filter_sub [where k = k and P = held]) (use that h in simp_all)
    from this [of l_device] this [of "\<lambda>l. (l_region l, l_v4 l)"] this [of "\<lambda>l. (l_region l, l_v6 l)"] i(3)
    show "leases_inv d2" by (simp add: leases_inv_def d2 comp_def) (simp add: d1)
    show "assignments_inv d2"
      using i(4) distinct_map_filter_sub [where k = a_device and P = live and k' = a_device and P' = live,
          where f = "confirm_row gateway n",
          OF _ confirm_row_keys(3) confirm_row_live, of "t_assignments d"]
      by (auto simp: assignments_inv_def d1 d2 comp_def image_image confirm_row_observed)
    have one: "pb = pa" if "pa \<in> set (t_assignments d)" "pb \<in> set (t_assignments d)" "a_lease pb = a_lease pa"
      for pa pb using distinct_map_inj_unique [of a_lease "t_assignments d"] i(4) that
      by (simp add: assignments_inv_def)
    show "match_inv d2" unfolding match_inv_def
    proof (intro conjI ballI impI)
      fix pa' assume "pa' \<in> set (t_assignments d2)" and lv: "live pa'"
      then obtain pa where pa: "pa \<in> set (t_assignments d)" "pa' = confirm_row gateway n pa"
        by (auto simp: d1 d2)
      from i(5) pa lv confirm_row_live obtain l where l: "l \<in> set (t_leases d)" "l_id l = a_lease pa"
        "held l" "l_device l = a_device pa" unfolding match_inv_def by blast
      have "\<not> removed_here gateway (\<lambda>pb. a_lease pb = l_id l) d1"
        using one [OF pa(1)] l(2) lv pa(2) by (auto simp: removed_here_def d1 live_iff)
      with l pa(2) show "\<exists>l\<in>set (t_leases d2). l_id l = a_lease pa' \<and> held l \<and> l_device l = a_device pa'"
        by (intro bexI [of _ "release_row env gateway d1 l"]) (simp_all add: release_row_held d2 d1)
    next
      fix l' assume "l' \<in> set (t_leases d2)" "held l'"
      then obtain l where l: "l \<in> set (t_leases d)" "l' = release_row env gateway d1 l" "held l"
        and r: "\<not> removed_here gateway (\<lambda>pb. a_lease pb = l_id l) d1"
        by (auto simp: d2 release_row_held) (auto simp: d1)
      from i(5) l obtain pa where pa: "pa \<in> set (t_assignments d)" "live pa" "a_lease pa = l_id l"
        unfolding match_inv_def by blast
      with r confirm_row_removed [OF pa(2), of gateway n] have "live (confirm_row gateway n pa)"
        by (auto simp: removed_here_def d1)
      with pa l(2) show "\<exists>pa\<in>set (t_assignments d2). live pa \<and> a_lease pa = l_id l'"
        by (intro bexI [of _ "confirm_row gateway n pa"]) (simp_all add: d1 d2)
    qed
    have "live_count d2 g \<le> live_count d g" for g
      by (auto simp: live_count_def d1 d2 intro!: length_filter_comp_le dest: confirm_row_live)
    then show "gateways_inv cast d2"
      using i(6) unfolding gateways_inv_def by (auto simp: d1 d2 intro: le_trans)
  qed (use i in \<open>simp_all add: d1 d2 idem_inv_def snapshots_inv_def\<close>)
qed

lemma confirm_body_inv:
  assumes "db_inv cast d" "confirm_body env g n d = Inr ((x, i, c), d')"
  shows "db_inv cast d'"
proof (rule confirm_body_Inr [OF assms(2)])
  fix gateway d1 d2
  assume d1: "d1 = d\<lparr>t_assignments := map (confirm_row gateway n) (t_assignments d)\<rparr>"
    and d2: "d2 = d1\<lparr>t_leases := map (release_row env gateway d1) (t_leases d1)\<rparr>"
    and d': "d' = d2\<lparr>t_devices := map (end_revocation env gateway d2) (t_devices d2)\<rparr>"
  from confirm_assignments_part [OF assms(1) d1 d2] d' show ?thesis
    by (rule update_devices_inv) (auto simp: end_revocation_def)
qed

section \<open>Steps\<close>

text \<open>One operation that writes, on its own transaction or statement.\<close>

inductive store_step :: "(string \<Rightarrow> string option) \<Rightarrow> db \<Rightarrow> db \<Rightarrow> bool" for cast where
  create_user: "env_ok cast env \<Longrightarrow> store_step cast d (snd (CreateUser env e h d))"
| register_device: "env_ok cast env \<Longrightarrow> store_step cast d (snd (Store_RegisterDevice env u q d))"
| revoke_device: "env_ok cast env \<Longrightarrow> store_step cast d (snd (Store_RequestRevocation env u i d))"
| create_tunnel: "env_ok cast env \<Longrightarrow>
    store_step cast d (snd (Store_CreateTunnelConfiguration env cd u dv rg k d))"
| enqueue: "env_ok cast env \<Longrightarrow> store_step cast d (snd (EnqueueSnapshot_at i env g n p s d))"
| claim: "env_ok cast env \<Longrightarrow> store_step cast d (snd (ClaimSnapshot env g d))"
| ack: "env_ok cast env \<Longrightarrow> store_step cast d (snd (AckSnapshot_at i env g s n d))"
| confirm: "env_ok cast env \<Longrightarrow> store_step cast d (snd (ConfirmGatewaySnapshot env g n d))"
| retry: "env_ok cast env \<Longrightarrow> store_step cast d (snd (RetrySnapshot env g s t r d))"

text \<open>Enqueueing the current peers and acknowledging a delivery consist of such operations.\<close>

lemma EnqueueCurrentGatewaySnapshot_step:
  assumes "env_ok cast env"
  shows "snd (EnqueueCurrentGatewaySnapshot env marshal ed_sign g n key d) = d
    \<or> store_step cast d (snd (EnqueueCurrentGatewaySnapshot env marshal ed_sign g n key d))"
  using assms
  by (auto simp: EnqueueCurrentGatewaySnapshot_def Let_def split: sum.splits prod.splits option.splits
      intro: enqueue)

lemma AckSnapshotDelivery_steps:
  assumes "env_ok cast env"
  shows "\<exists>d1. store_step cast d d1
    \<and> (snd (AckSnapshotDelivery env g s n d) = d1 \<or> store_step cast d1 (snd (AckSnapshotDelivery env g s n d)))"
proof -
  obtain r d1 where a: "AckSnapshot_at 5 env g s n d = (r, d1)" by fastforce
  obtain r2 d2 where c: "ConfirmGatewaySnapshot env g n d1 = (r2, d2)" by fastforce
  from ack [OF assms, of d 5 g s n] confirm [OF assms, of d1 g n] a c show ?thesis
    by (intro exI [of _ d1]) (auto simp: AckSnapshotDelivery_def split: sum.splits option.splits)
qed

text \<open>What a step commits: nothing, or the result of one statement or transaction body.\<close>

lemma autocommit_snd:
  obtains "snd (autocommit env i q d) = d" | x where "q d = Inr (x, snd (autocommit env i q d))"
proof -
  obtain r d' where a: "autocommit env i q d = (r, d')" by fastforce
  from a show ?thesis by (cases rule: autocommit_cases) (use a that in auto)
qed

lemma run_tx_snd:
  obtains "snd (run_tx env m body d) = d" | x i c where "body d = Inr ((x, i, c), snd (run_tx env m body d))"
proof -
  obtain r d' where a: "run_tx env m body d = (r, d')" by fastforce
  from a show ?thesis by (cases rule: run_tx_cases) (use a that in auto)
qed

lemma store_step_cases:
  assumes "store_step cast d d'"
  obtains (same) "d' = d"
  | (user) env e h x where "env_ok cast env" "insert_user env e h d = Inr (x, d')"
  | (device) env u n p k x where "env_ok cast env" "insert_device env u n p k d = Inr (x, d')"
      "validWireGuardPublicKey k"
  | (revoked) env u i x where "env_ok cast env" "update_revocation env u i d = Inr (x, d')"
  | (tunnel) env cd u dv rg k x where "env_ok cast env" "tunnel_body env cd u dv rg k d = Inr (x, d')"
  | (snapshot) env g n p s x where "env_ok cast env" "insert_snapshot env g n p s d = Inr (x, d')"
  | (claimed) env g x i c where "env_ok cast env" "claim_body env g d = Inr ((x, i, c), d')"
  | (acked) env g s n x where "env_ok cast env" "update_acked env g s n d = Inr (x, d')"
  | (confirmed) env g n x i c where "env_ok cast env" "confirm_body env g n d = Inr ((x, i, c), d')"
  | (failed) env g s t r x where "env_ok cast env" "update_failed env g s t r d = Inr (x, d')"
  using assms
proof cases
  case (create_user env e h)
  then show ?thesis unfolding CreateUser_db by (metis autocommit_snd same user)
next
  case (register_device env u q)
  have "validWireGuardPublicKey (req_PublicKey q)" if "ValidateRegisterDevice u q = None"
    using that by (auto simp: ValidateRegisterDevice_def split: if_splits)
  with register_device show ?thesis unfolding Store_RegisterDevice_db by (metis autocommit_snd same device)
next
  case (revoke_device env u i)
  then show ?thesis unfolding Store_RequestRevocation_db by (metis autocommit_snd same revoked)
next
  case (create_tunnel env cd u dv rg k)
  let ?tx = "run_tx env ''begin allocation transaction'' (tunnel_body env cd u dv rg k) d"
  from create_tunnel(1) have "d' = d \<or> d' = snd ?tx" by (auto simp: Store_CreateTunnelConfiguration_def)
  then show ?thesis
  proof
    assume d': "d' = snd ?tx"
    show ?thesis
      by (rule run_tx_snd [of env "''begin allocation transaction''" "tunnel_body env cd u dv rg k" d])
        (use d' same tunnel [OF create_tunnel(2)] in auto)
  qed (rule same)
next
  case (enqueue env i g n p s)
  then show ?thesis unfolding EnqueueSnapshot_db by (metis autocommit_snd same snapshot)
next
  case (claim env g)
  then show ?thesis
    by (rule_tac run_tx_snd [of env "''begin snapshot claim''" "claim_body env g" d])
      (auto simp: ClaimSnapshot_db ClaimNextSnapshot_tx split: if_splits intro: same claimed)
next
  case (ack env i g s n)
  then show ?thesis unfolding AckSnapshot_db by (metis autocommit_snd same acked)
next
  case (confirm env g n)
  then show ?thesis
    by (rule_tac run_tx_snd [of env "''begin gateway confirmation''" "confirm_body env g n" d])
      (auto simp: ConfirmGatewaySnapshot_tx split: if_splits intro: same confirmed)
next
  case (retry env g s t r)
  then show ?thesis unfolding RetrySnapshot_db by (metis autocommit_snd same failed)
qed

lemma store_step_inv:
  assumes "store_step cast d d'" "db_inv cast d"
  shows "db_inv cast d'"
  using assms(1)
proof (cases rule: store_step_cases)
  case (user env e h x)
  then show ?thesis by (rule insert_user_inv [OF assms(2)])
next
  case (device env u n p k x)
  then show ?thesis by (intro insert_device_inv [OF assms(2)])
next
  case (tunnel env cd u dv rg k x)
  then show ?thesis by (rule tunnel_body_inv [OF assms(2)])
next
  case (snapshot env g n p s x)
  then show ?thesis by (rule insert_snapshot_inv [OF assms(2)])
next
  case (claimed env g x i c)
  then show ?thesis by (rule claim_body_inv [OF assms(2)])
next
  case (revoked env u i x)
  then show ?thesis by (intro update_revocation_inv [OF assms(2)])
next
  case (acked env g s n x)
  then show ?thesis by (intro update_acked_inv [OF assms(2)])
next
  case (confirmed env g n x i c)
  then show ?thesis by (intro confirm_body_inv [OF assms(2)])
next
  case (failed env g s t r x)
  then show ?thesis by (intro update_failed_inv [OF assms(2)])
qed (simp add: assms(2))

inductive store_reachable :: "(string \<Rightarrow> string option) \<Rightarrow> db \<Rightarrow> db \<Rightarrow> bool" for cast where
  start: "store_reachable cast d d"
| step: "store_reachable cast d d1 \<Longrightarrow> store_step cast d1 d2 \<Longrightarrow> store_reachable cast d d2"

lemma store_reachable_inv:
  assumes "store_reachable cast d d'" "db_inv cast d"
  shows "db_inv cast d'"
  using assms by (induction rule: store_reachable.induct) (auto intro: store_step_inv)

end
