(* ===== verification/Password.thy ===== *)
theory Password
  imports Go_Base64
begin

text \<open>
  Password hashes, \<^verbatim>\<open>internal/auth/password.go\<close>: Argon2id with explicit parameters, printed
  and parsed in the PHC string format. Argon2 itself is third-party code and a parameter,
  \<open>IDKey password salt time memory threads keyLen\<close>; the code relies on the length of what it
  returns (\<open>key_length\<close>). Numbers parsed with \<^verbatim>\<open>strconv.ParseUint\<close> at 32 or 8 bits are
  natural numbers, and the conversions to \<^verbatim>\<open>uint32\<close> and \<^verbatim>\<open>uint8\<close> lose nothing
  (\<open>parseUint_bound\<close>).
\<close>

type_synonym argon2 = "string \<Rightarrow> string \<Rightarrow> nat \<Rightarrow> nat \<Rightarrow> nat \<Rightarrow> nat \<Rightarrow> string"

definition argonVersion :: nat where "argonVersion = 19"
definition argonTime :: nat where "argonTime = 3"
definition argonMemory :: nat where "argonMemory = 64 * 1024"
definition argonThreads :: nat where "argonThreads = 4"
definition argonKeyLen :: nat where "argonKeyLen = 32"
definition argonSaltLen :: nat where "argonSaltLen = 16"

lemmas argon_defs = argonVersion_def argonTime_def argonMemory_def argonThreads_def
  argonKeyLen_def argonSaltLen_def

definition phc_string :: "string \<Rightarrow> string \<Rightarrow> string" where
  "phc_string salt key =
     ''$argon2id$v='' @ itoa argonVersion @ ''$m='' @ itoa argonMemory @ '',t='' @ itoa argonTime
     @ '',p='' @ itoa argonThreads @ ''$'' @ encode64 RawStdEncoding salt
     @ ''$'' @ encode64 RawStdEncoding key"

text \<open>\<open>rand\<close> is what \<^verbatim>\<open>rand.Read\<close> gives for the salt: an error or the bytes.\<close>

definition HashPassword :: "argon2 \<Rightarrow> string result \<Rightarrow> string \<Rightarrow> string result" where
  "HashPassword IDKey rand password =
     (if length password < 12 \<or> length password > 1024
      then Inl (ErrText ''password must contain 12 to 1024 bytes'')
      else case rand of
        Inl err \<Rightarrow> Inl (Wrapped ''generate password salt'' err)
      | Inr salt \<Rightarrow>
          Inr (phc_string salt (IDKey password salt argonTime argonMemory argonThreads argonKeyLen)))"

record phc =
  phc_version :: nat
  phc_memory :: nat
  phc_iterations :: nat
  phc_threads :: nat
  phc_salt :: string
  phc_key :: string

text \<open>The loop over the parameters \<^verbatim>\<open>m\<close>, \<^verbatim>\<open>t\<close>, \<^verbatim>\<open>p\<close>: each at most once, no other name.\<close>

fun phc_params :: "(string \<rightharpoonup> string) \<Rightarrow> string list \<Rightarrow> (string \<rightharpoonup> string) option" where
  "phc_params vals [] = Some vals"
| "phc_params vals (parameter # rest) =
     (case splitN2 CHR ''='' parameter of
        [name, value] \<Rightarrow>
          (if name \<noteq> ''m'' \<and> name \<noteq> ''t'' \<and> name \<noteq> ''p'' then None
           else if vals name \<noteq> None then None
           else phc_params (vals(name \<mapsto> value)) rest)
      | _ \<Rightarrow> None)"

definition value_of :: "(string \<rightharpoonup> string) \<Rightarrow> string \<Rightarrow> string" where
  "value_of vals name = (case vals name of None \<Rightarrow> '''' | Some v \<Rightarrow> v)"

definition parsePHC :: "string \<Rightarrow> phc option" where
  "parsePHC encoded =
     (case splitOn CHR ''$'' encoded of
        [p0, p1, p2, p3, p4, p5] \<Rightarrow>
          if p1 \<noteq> ''argon2id'' \<or> \<not> hasPrefix p2 ''v='' then None
          else case parseUint 32 (trimPrefix p2 ''v='') of
            None \<Rightarrow> None
          | Some version \<Rightarrow>
              let params = splitOn CHR '','' p3
              in if length params \<noteq> 3 then None
                 else case phc_params Map.empty params of
                   None \<Rightarrow> None
                 | Some vals \<Rightarrow>
                     (case (parseUint 32 (value_of vals ''m''), parseUint 32 (value_of vals ''t''),
                            parseUint 8 (value_of vals ''p''), decode64 RawStdEncoding p4,
                            decode64 RawStdEncoding p5) of
                        (Some memory, Some iterations, Some threads, Some salt, Some key) \<Rightarrow>
                          Some \<lparr>phc_version = version, phc_memory = memory,
                                phc_iterations = iterations, phc_threads = threads,
                                phc_salt = salt, phc_key = key\<rparr>
                      | _ \<Rightarrow> None)
      | _ \<Rightarrow> None)"

definition VerifyPassword :: "argon2 \<Rightarrow> string \<Rightarrow> string \<Rightarrow> bool" where
  "VerifyPassword IDKey password encoded =
     (case parsePHC encoded of
        None \<Rightarrow> False
      | Some p \<Rightarrow>
          if phc_version p \<noteq> argonVersion \<or> length (phc_salt p) < 16
             \<or> length (phc_key p) \<noteq> argonKeyLen then False
          else if phc_memory p < 16 * 1024 \<or> phc_memory p > 2 * 1024 * 1024
             \<or> phc_iterations p = 0 \<or> phc_iterations p > 10
             \<or> phc_threads p = 0 \<or> phc_threads p > 32 then False
          else IDKey password (phc_salt p) (phc_iterations p) (phc_memory p) (phc_threads p)
                 (length (phc_key p)) = phc_key p)"

text \<open>What the code relies on of \<^verbatim>\<open>argon2.IDKey\<close>: it returns as many bytes as asked for.\<close>

definition key_length :: "argon2 \<Rightarrow> bool" where
  "key_length IDKey \<longleftrightarrow>
     (\<forall>password salt time memory threads n. length (IDKey password salt time memory threads n) = n)"

section \<open>Round trip of the PHC string\<close>

lemma phc_string_join:
  "phc_string salt key = joinWith CHR ''$''
     ['''', ''argon2id'', ''v=19'', ''m=65536,t=3,p=4'', encode64 RawStdEncoding salt,
      encode64 RawStdEncoding key]"
proof -
  have "itoa argonVersion = ''19''" "itoa argonMemory = ''65536''" "itoa argonTime = ''3''"
    "itoa argonThreads = ''4''"
    by code_simp+
  then show ?thesis by (simp add: phc_string_def)
qed

lemma raw_no_dollar: "CHR ''$'' \<notin> set (encode64 RawStdEncoding s)"
proof -
  have "set (encode64 RawStdEncoding s) \<subseteq> set std_alphabet"
    using encode64_raw_chars [OF good_RawStdEncoding, of s] by (simp add: RawStdEncoding_def)
  moreover have "CHR ''$'' \<notin> set std_alphabet" by (simp add: std_alphabet_def)
  ultimately show ?thesis by blast
qed

lemma split_phc_string:
  "splitOn CHR ''$'' (phc_string salt key) =
     ['''', ''argon2id'', ''v=19'', ''m=65536,t=3,p=4'', encode64 RawStdEncoding salt,
      encode64 RawStdEncoding key]"
  unfolding phc_string_join by (rule splitOn_join) (simp_all add: raw_no_dollar)

lemma phc_fixed_fields:
  "parseUint 32 (trimPrefix ''v=19'' ''v='') = Some 19" "hasPrefix ''v=19'' ''v=''"
  "splitOn CHR '','' ''m=65536,t=3,p=4'' = [''m=65536'', ''t=3'', ''p=4'']"
  "splitN2 CHR ''='' ''m=65536'' = [''m'', ''65536'']" "splitN2 CHR ''='' ''t=3'' = [''t'', ''3'']"
  "splitN2 CHR ''='' ''p=4'' = [''p'', ''4'']" "parseUint 32 ''65536'' = Some 65536"
  "parseUint 32 ''3'' = Some 3" "parseUint 8 ''4'' = Some 4"
  by code_simp+

lemma parse_phc_string:
  "parsePHC (phc_string salt key) = Some
     \<lparr>phc_version = 19, phc_memory = 65536, phc_iterations = 3, phc_threads = 4,
      phc_salt = salt, phc_key = key\<rparr>"
  by (simp add: parsePHC_def split_phc_string phc_fixed_fields value_of_def rawstd.dec_enc
      Let_def)

text \<open>The verification of a hash this program made: which passwords it accepts.\<close>

lemma verify_hash:
  assumes "key_length IDKey" "HashPassword IDKey (Inr salt) password = Inr h" "16 \<le> length salt"
  shows "VerifyPassword IDKey candidate h \<longleftrightarrow>
     IDKey candidate salt 3 65536 4 32 = IDKey password salt 3 65536 4 32"
proof -
  from assms(2) have h: "h = phc_string salt (IDKey password salt 3 65536 4 32)"
    by (auto simp: HashPassword_def argon_defs split: if_splits)
  have "length (IDKey password salt 3 65536 4 32) = 32"
    using assms(1) by (simp add: key_length_def)
  then show ?thesis
    using assms(3) by (simp add: VerifyPassword_def h parse_phc_string argon_defs)
qed

section \<open>Properties\<close>

text \<open>
  C35: A password that was hashed verifies against its hash, and another password verifies
  against it exactly when Argon2 derives the same key for it from the stored salt: the PHC
  string carries the salt, the key and the parameters without loss.
\<close>

theorem password_hash_roundtrip:
  assumes "key_length IDKey" "length salt = argonSaltLen"
    and "12 \<le> length password" "length password \<le> 1024"
  shows "\<exists>h. HashPassword IDKey (Inr salt) password = Inr h \<and> VerifyPassword IDKey password h
     \<and> (\<forall>other. VerifyPassword IDKey other h \<longleftrightarrow>
          IDKey other salt 3 65536 4 32 = IDKey password salt 3 65536 4 32)"
proof -
  obtain h where h: "HashPassword IDKey (Inr salt) password = Inr h"
    using assms(3,4) by (simp add: HashPassword_def)
  have "16 \<le> length salt" using assms(2) by (simp add: argonSaltLen_def)
  with verify_hash [OF assms(1) h] h show ?thesis by blast
qed

text \<open>A stand-in for Argon2: the length asked for, and it depends on the password.\<close>

definition toy_argon2 :: argon2 where
  "toy_argon2 password salt t m p n = take n (password @ replicate n CHR 0x00)"

lemma toy_argon2_length: "key_length toy_argon2"
  by (auto simp: key_length_def toy_argon2_def min_def)

theorem password_hash_roundtrip_witness:
  "\<exists>h. HashPassword toy_argon2 (Inr (replicate 16 CHR ''s'')) ''correct horse battery'' = Inr h
     \<and> VerifyPassword toy_argon2 ''correct horse battery'' h
     \<and> \<not> VerifyPassword toy_argon2 ''incorrect horse battery'' h"
  using password_hash_roundtrip [OF toy_argon2_length, of "replicate 16 CHR ''s''"
      "''correct horse battery''"]
  by (auto simp: argonSaltLen_def toy_argon2_def)

text \<open>
  A stored hash is accepted only with safe parameters: Argon2 version 19, 16 MiB to 2 GiB
  of memory, 1 to 10 passes, 1 to 32 threads, a salt of at least 16 bytes and a 32-byte key,
  and only if Argon2 with exactly these parameters derives the stored key.
\<close>

theorem verify_safe_parameters:
  assumes "VerifyPassword IDKey password encoded"
  shows "\<exists>p. parsePHC encoded = Some p \<and> phc_version p = 19
     \<and> 16 * 1024 \<le> phc_memory p \<and> phc_memory p \<le> 2 * 1024 * 1024
     \<and> 1 \<le> phc_iterations p \<and> phc_iterations p \<le> 10
     \<and> 1 \<le> phc_threads p \<and> phc_threads p \<le> 32
     \<and> 16 \<le> length (phc_salt p) \<and> length (phc_key p) = 32
     \<and> IDKey password (phc_salt p) (phc_iterations p) (phc_memory p) (phc_threads p) 32 = phc_key p"
proof -
  from assms obtain p where p: "parsePHC encoded = Some p"
    by (auto simp: VerifyPassword_def split: option.splits)
  with assms show ?thesis
    by (auto simp: VerifyPassword_def argon_defs not_less not_le split: if_splits)
qed

theorem verify_safe_parameters_witness:
  "VerifyPassword toy_argon2 ''x'' (phc_string (replicate 16 CHR ''s'') (''x'' @ replicate 31 CHR 0x00))
   \<and> (\<exists>p. parsePHC (phc_string (replicate 16 CHR ''s'') (''x'' @ replicate 31 CHR 0x00)) = Some p
        \<and> phc_memory p \<le> 2 * 1024 * 1024)"
proof -
  have v: "VerifyPassword toy_argon2 ''x''
      (phc_string (replicate 16 CHR ''s'') (''x'' @ replicate 31 CHR 0x00))"
    by (simp add: VerifyPassword_def parse_phc_string argon_defs toy_argon2_def)
  from verify_safe_parameters [OF v] v show ?thesis by blast
qed

end
