(* ===== verification/Auth_Service.thy ===== *)
theory Auth_Service
  imports Password Session
begin

text \<open>
  The account service, \<^verbatim>\<open>internal/auth/service.go\<close>: registration, login, refresh, logout and
  the check of an access token, over a user store and the session store. The user store is an
  interface in the code (\<^verbatim>\<open>UserStore\<close>): the record \<open>user_ops\<close> of its two operations, each
  taking an environment \<open>'e\<close> (failures, clock) and the provider's state \<open>'u\<close>. The locale
  \<open>user_store\<close> states what a provider promises; \<open>Store_Facts\<close> interprets it on the
  PostgreSQL store. Argon2 (\<open>IDKey\<close>), SHA-256 (\<open>sha\<close>), the lower-casing of non-ASCII
  letters (\<open>ulow\<close>) and the random draws are arguments.
\<close>

record ('e, 'u) user_ops =
  us_CreateUser :: "'e \<Rightarrow> string \<Rightarrow> string \<Rightarrow> 'u \<Rightarrow> string result \<times> 'u"
  us_FindUserPasswordHash :: "'e \<Rightarrow> string \<Rightarrow> 'u \<Rightarrow> (string \<times> string \<times> bool) result"

record 'u auth_service =
  svc_users :: 'u
  svc_sessions :: session_store

definition NewAuthService :: "'u \<Rightarrow> session_store option \<Rightarrow> 'u auth_service" where
  "NewAuthService users given =
     \<lparr>svc_users = users,
      svc_sessions = (case given of None \<Rightarrow> NewSessionStore | Some s \<Rightarrow> s)\<rparr>"

definition normalizeEmail :: "(string \<Rightarrow> string) \<Rightarrow> string \<Rightarrow> string result" where
  "normalizeEmail ulow email =
     (let normalized = toLower ulow (trimSpace email)
      in if length normalized < 3 \<or> length normalized > 320
            \<or> containsAny normalized [CHR 0x0D, CHR 0x0A] \<or> CHR ''@'' \<notin> set normalized
         then Inl ErrInvalidCredentials
         else Inr normalized)"

definition Register ::
  "('e, 'u) user_ops \<Rightarrow> argon2 \<Rightarrow> (string \<Rightarrow> string) \<Rightarrow> 'e \<Rightarrow> string result \<Rightarrow> string \<Rightarrow> string
   \<Rightarrow> 'u auth_service \<Rightarrow> string result \<times> 'u auth_service" where
  "Register ops IDKey ulow e salt email password s =
     (case normalizeEmail ulow email of
        Inl err \<Rightarrow> (Inl err, s)
      | Inr normalizedEmail \<Rightarrow>
          (case HashPassword IDKey salt password of
             Inl err \<Rightarrow> (Inl err, s)
           | Inr h \<Rightarrow>
               let (r, users) = us_CreateUser ops e normalizedEmail h (svc_users s)
               in (r, s\<lparr>svc_users := users\<rparr>)))"

definition Login ::
  "('e, 'u) user_ops \<Rightarrow> argon2 \<Rightarrow> (string \<Rightarrow> hash) \<Rightarrow> (string \<Rightarrow> string) \<Rightarrow> 'e
   \<Rightarrow> (nat \<Rightarrow> string result) \<Rightarrow> time \<Rightarrow> string \<Rightarrow> string
   \<Rightarrow> 'u auth_service \<Rightarrow> token_pair result \<times> 'u auth_service" where
  "Login ops IDKey sha ulow e rand now email password s =
     (case normalizeEmail ulow email of
        Inl err \<Rightarrow> (Inl ErrInvalidCredentials, s)
      | Inr normalizedEmail \<Rightarrow>
          (case us_FindUserPasswordHash ops e normalizedEmail (svc_users s) of
             Inl err \<Rightarrow> (Inl ErrInvalidCredentials, s)
           | Inr (userID, passwordHash, disabled) \<Rightarrow>
               if disabled \<or> \<not> VerifyPassword IDKey password passwordHash
               then (Inl ErrInvalidCredentials, s)
               else let (r, store) = Issue sha rand now userID (svc_sessions s)
                    in (r, s\<lparr>svc_sessions := store\<rparr>)))"

definition Refresh ::
  "(string \<Rightarrow> hash) \<Rightarrow> (nat \<Rightarrow> string result) \<Rightarrow> string list \<Rightarrow> time \<Rightarrow> time \<Rightarrow> string
   \<Rightarrow> 'u auth_service \<Rightarrow> (token_pair \<times> string) result \<times> 'u auth_service" where
  "Refresh sha rand order now now' refreshToken s =
     (let (r, store) = RotateRefresh sha rand order now now' refreshToken (svc_sessions s)
      in ((case r of None \<Rightarrow> Inl ErrInvalidCredentials | Some p \<Rightarrow> Inr p),
          s\<lparr>svc_sessions := store\<rparr>))"

definition Logout :: "string list \<Rightarrow> string \<Rightarrow> 'u auth_service \<Rightarrow> 'u auth_service" where
  "Logout order userID s = s\<lparr>svc_sessions := RevokeUser order userID (svc_sessions s)\<rparr>"

definition Service_AuthenticateAccess ::
  "(string \<Rightarrow> hash) \<Rightarrow> time \<Rightarrow> string \<Rightarrow> 'u auth_service \<Rightarrow> string result" where
  "Service_AuthenticateAccess sha now accessToken s =
     (case AuthenticateAccess sha now accessToken (svc_sessions s) of
        None \<Rightarrow> Inl ErrInvalidCredentials
      | Some userID \<Rightarrow> Inr userID)"

section \<open>Addresses\<close>

text \<open>Two ASCII spellings that differ in case and surrounding white space are one account.\<close>

lemma normalizeEmail_ascii:
  assumes "list_all is_ascii (trimSpace email)" "list_all is_ascii (trimSpace email')"
    and "map lower_char (trimSpace email) = map lower_char (trimSpace email')"
  shows "normalizeEmail ulow email = normalizeEmail ulow email'"
  using assms by (simp add: normalizeEmail_def toLower_def)

lemma normalizeEmail_Inr:
  assumes "normalizeEmail ulow email = Inr n"
  shows "3 \<le> length n" "length n \<le> 320" "CHR ''@'' \<in> set n" "n = toLower ulow (trimSpace email)"
  using assms by (auto simp: normalizeEmail_def Let_def split: if_splits)

section \<open>What a user store promises\<close>

text \<open>
  \<open>account\<close> reads a provider's state: for a normalized address the user id, the password
  hash and whether the account is disabled. \<open>good\<close> are the environments without a failure,
  \<open>sane\<close> those whose generated ids are not empty.
\<close>

locale user_store =
  fixes ops :: "('e, 'u) user_ops"
    and good :: "'e \<Rightarrow> bool"
    and account :: "'u \<Rightarrow> string \<Rightarrow> (string \<times> string \<times> bool) option"
    and sane :: "'e \<Rightarrow> bool"
    and valid :: "'u \<Rightarrow> bool"
  assumes create_ok: "valid u \<Longrightarrow> sane e \<Longrightarrow> us_CreateUser ops e n h u = (Inr uid, u') \<Longrightarrow>
      account u n = None \<and> uid \<noteq> '''' \<and> account u' n = Some (uid, h, False) \<and> valid u'"
    and create_frame: "valid u \<Longrightarrow> us_CreateUser ops e n h u = (r, u') \<Longrightarrow> n' \<noteq> n \<Longrightarrow>
      account u' n' = account u n'"
    and create_taken: "valid u \<Longrightarrow> good e \<Longrightarrow> account u n \<noteq> None \<Longrightarrow>
      \<exists>err. us_CreateUser ops e n h u = (Inl err, u)"
    and find_ok: "valid u \<Longrightarrow> us_FindUserPasswordHash ops e n u = Inr a \<Longrightarrow> account u n = Some a"
    and find_good: "valid u \<Longrightarrow> good e \<Longrightarrow> n \<noteq> '''' \<Longrightarrow> account u n = Some a \<Longrightarrow>
      us_FindUserPasswordHash ops e n u = Inr a"
begin

text \<open>
  After a registration the account exists, and the password it was registered with logs in,
  under every spelling of the address with the same normal form, as the user id registered.
\<close>

lemma register_ok:
  assumes "valid (svc_users s)" "sane e" "Register ops IDKey ulow e salt email password s = (Inr uid, s')"
  obtains n h where "normalizeEmail ulow email = Inr n" "HashPassword IDKey salt password = Inr h"
    "account (svc_users s) n = None" "account (svc_users s') n = Some (uid, h, False)"
    "uid \<noteq> ''''" "valid (svc_users s')" "svc_sessions s' = svc_sessions s"
    "\<And>n'. n' \<noteq> n \<Longrightarrow> account (svc_users s') n' = account (svc_users s) n'"
proof (cases "normalizeEmail ulow email")
  case (Inl a)
  with assms(3) show ?thesis by (simp add: Register_def)
next
  case n: (Inr n)
  show ?thesis
  proof (cases "HashPassword IDKey salt password")
    case (Inl a)
    with assms(3) n show ?thesis by (simp add: Register_def)
  next
    case h: (Inr h)
    obtain r u' where c: "us_CreateUser ops e n h (svc_users s) = (r, u')" by fastforce
    with assms(3) n h have r: "r = Inr uid" "s' = s\<lparr>svc_users := u'\<rparr>"
      by (simp_all add: Register_def)
    from create_ok [OF assms(1,2) c [unfolded r(1)]] create_frame [OF assms(1) c] that [OF n h] r
    show ?thesis by simp
  qed
qed

lemma login_registered:
  assumes "valid (svc_users s)" "good e" "normalizeEmail ulow email = Inr n"
    and "account (svc_users s) n = Some (uid, h, False)" "VerifyPassword IDKey password h"
  shows "Login ops IDKey sha ulow e rand now email password s =
    (let (r, t) = Issue sha rand now uid (svc_sessions s) in (r, s\<lparr>svc_sessions := t\<rparr>))"
proof -
  have "n \<noteq> ''''" using normalizeEmail_Inr(1) [OF assms(3)] by auto
  with find_good [OF assms(1,2) _ assms(4)] assms(3,5) show ?thesis by (simp add: Login_def)
qed

text \<open>An address is registered at most once.\<close>

lemma register_taken:
  assumes "valid (svc_users s)" "good e" "normalizeEmail ulow email = Inr n"
    and "account (svc_users s) n \<noteq> None"
  shows "\<exists>err. Register ops IDKey ulow e salt email password s = (Inl err, s)"
proof (cases "HashPassword IDKey salt password")
  case (Inl err)
  with assms(3) show ?thesis by (simp add: Register_def)
next
  case (Inr h)
  from create_taken [OF assms(1,2,4), of h] obtain err
    where "us_CreateUser ops e n h (svc_users s) = (Inl err, svc_users s)" by blast
  with Inr assms(3) show ?thesis by (simp add: Register_def)
qed

end

section \<open>Properties\<close>

text \<open>
  C34: A login gives tokens only to the holder of an enabled account: the address is well
  formed, the store knows it under a user id with a password hash that accepts the password,
  and the access token authenticates that user id; no account changes. Every other login is
  refused, and unless the random source fails (or the store gave an empty user id) the answer
  is the one error \<open>ErrInvalidCredentials\<close>, whatever was wrong, with nothing changed.
\<close>

theorem login_guards:
  assumes "fresh_draws sha (svc_sessions s) rand"
    and "Login ops IDKey sha ulow e rand now email password s = (res, s')"
  shows "svc_users s' = svc_users s \<and>
    (case res of
       Inr p \<Rightarrow> \<exists>n uid h. normalizeEmail ulow email = Inr n
          \<and> us_FindUserPasswordHash ops e n (svc_users s) = Inr (uid, h, False)
          \<and> VerifyPassword IDKey password h
          \<and> Service_AuthenticateAccess sha now (AccessToken p) s' = Inr uid
     | Inl err \<Rightarrow>
         (err = ErrInvalidCredentials \<and> s' = s)
         \<or> err = ErrText ''user id is required''
         \<or> (\<exists>i m. rand i = Inl m \<and> err = Wrapped ''generate session token'' m))"
proof (cases "\<exists>n uid h. normalizeEmail ulow email = Inr n
    \<and> us_FindUserPasswordHash ops e n (svc_users s) = Inr (uid, h, False)
    \<and> VerifyPassword IDKey password h")
  case False
  with assms(2) have "res = Inl ErrInvalidCredentials \<and> s' = s"
    by (auto simp: Login_def split: sum.splits prod.splits if_splits)
  then show ?thesis by simp
next
  case True
  then obtain n uid h where n: "normalizeEmail ulow email = Inr n"
    "us_FindUserPasswordHash ops e n (svc_users s) = Inr (uid, h, False)"
    "VerifyPassword IDKey password h" by blast
  obtain r t where i: "Issue sha rand now uid (svc_sessions s) = (r, t)" by fastforce
  with assms(2) n have res: "res = r" "s' = s\<lparr>svc_sessions := t\<rparr>" by (simp_all add: Login_def)
  show ?thesis
  proof (cases r)
    case (Inl err)
    have "err = ErrText ''user id is required''
        \<or> (\<exists>i m. rand i = Inl m \<and> err = Wrapped ''generate session token'' m)"
      using issue_error [OF i [unfolded Inl]] by blast
    with Inl res show ?thesis by auto
  next
    case (Inr p)
    from i Inr have f: "issue_family sha rand now uid (svc_sessions s) = (Inr p, t)"
      by (auto simp: Issue_def split: if_splits)
    have "AuthenticateAccess sha now (AccessToken p) t = Some uid"
      using issue_family_authenticates(3) [OF assms(1) f, of now] by (simp add: accessTokenLifetime_def)
    with Inr res n show ?thesis by (auto simp: Service_AuthenticateAccess_def)
  qed
qed

text \<open>A store with one account, for the witness.\<close>

definition sample_users :: "(unit, unit) user_ops" where
  "sample_users =
     \<lparr>us_CreateUser = (\<lambda>_ _ _ u. (Inl ErrConflict, u)),
      us_FindUserPasswordHash = (\<lambda>_ n _. if n = ''alice@example.com''
         then Inr (''alice'', phc_string (replicate 16 CHR ''s'') (''pw'' @ replicate 30 CHR 0x00), False)
         else Inl ErrNotFound)\<rparr>"

lemma sample_normalize: "normalizeEmail ulow '' Alice@Example.com '' = Inr ''alice@example.com''"
proof -
  have "list_all is_ascii (trimSpace '' Alice@Example.com '')" by code_simp
  moreover have "map lower_char (trimSpace '' Alice@Example.com '') = ''alice@example.com''" by code_simp
  ultimately show ?thesis by (simp add: normalizeEmail_def toLower_def containsAny_def)
qed

lemma sample_login:
  "Login sample_users toy_argon2 sample_sha ulow () (sample_rand 0) 1000 '' Alice@Example.com '' ''pw''
     (NewAuthService () None) =
   (Inr (sample_pair 0 1000), (NewAuthService () None)\<lparr>svc_sessions := sample_store\<rparr>)"
proof -
  have "VerifyPassword toy_argon2 ''pw'' (phc_string (replicate 16 CHR ''s'') (''pw'' @ replicate 30 CHR 0x00))"
    by (simp add: VerifyPassword_def parse_phc_string argon_defs toy_argon2_def)
  then show ?thesis
    by (simp add: Login_def sample_normalize sample_users_def NewAuthService_def sample_issue)
qed

theorem login_guards_witness:
  "\<exists>s'. Login sample_users toy_argon2 sample_sha (\<lambda>x. x) () (sample_rand 0) 1000
      '' Alice@Example.com '' ''pw'' (NewAuthService () None) = (Inr (sample_pair 0 1000), s')
    \<and> Service_AuthenticateAccess sample_sha 1000 (sample_token 1) s' = Inr ''alice''"
proof -
  have "fresh_draws sample_sha (svc_sessions (NewAuthService () None)) (sample_rand 0)"
    by (rule sample_fresh) (simp_all add: NewAuthService_def NewSessionStore_def)
  note g = login_guards [OF this sample_login [of "\<lambda>x. x"]]
  obtain s' where s': "s' = (NewAuthService () None)\<lparr>svc_sessions := sample_store\<rparr>" by blast
  from g obtain n uid h
    where "us_FindUserPasswordHash sample_users () n (svc_users (NewAuthService () None)) = Inr (uid, h, False)"
      "Service_AuthenticateAccess sample_sha 1000 (AccessToken (sample_pair 0 1000)) s' = Inr uid"
    unfolding sum.case s' by blast
  moreover from this(1) have "uid = ''alice''" by (simp add: sample_users_def split: if_splits)
  ultimately show ?thesis
    using sample_login [of "\<lambda>x. x"] unfolding s' by (auto simp: sample_pair_def)
qed

end
