(* ===== verification/Store_Facts.thy ===== *)
theory Store_Facts
  imports Store_Inv Device_Interface Auth_Service
begin

text \<open>
  The properties of accounts, devices and tunnels in the PostgreSQL store. The store provides
  the contracts \<open>user_store\<close> of the account service and \<open>device_service\<close> of the HTTP
  handlers; their lemmas hold for it by interpretation.
\<close>

section \<open>The contract of accounts\<close>

definition pg_user_ops :: "(db_env, db) user_ops" where
  "pg_user_ops = \<lparr>us_CreateUser = CreateUser, us_FindUserPasswordHash = FindUserPasswordHash\<rparr>"

definition pg_account :: "db \<Rightarrow> string \<Rightarrow> (string \<times> string \<times> bool) option" where
  "pg_account d n = map_option (\<lambda>u. (u_id u, u_hash u, u_disabled u \<noteq> None))
     (find (\<lambda>u. u_email u = n) (t_users d))"

lemma find_append: "find P (xs @ ys) = (case find P xs of None \<Rightarrow> find P ys | Some x \<Rightarrow> Some x)"
  by (induction xs) auto

lemma insert_user_Inr:
  assumes "insert_user env n h d = Inr (i, d')"
  shows "i = new_id env 0" "pg_account d n = None" "pg_account d' n = Some (i, h, False)"
    "n' \<noteq> n \<Longrightarrow> pg_account d' n' = pg_account d n'"
proof -
  from assms have none: "find (\<lambda>u. u_email u = n) (t_users d) = None" and i: "i = new_id env 0"
    and d': "d' = d\<lparr>t_users := t_users d @ [\<lparr>u_id = i, u_email = n, u_hash = h, u_disabled = None\<rparr>]\<rparr>"
    by (auto simp: insert_user_def find_None_all split: if_splits)
  show "i = new_id env 0" "pg_account d n = None" "pg_account d' n = Some (i, h, False)"
    "n' \<noteq> n \<Longrightarrow> pg_account d' n' = pg_account d n'"
    by (auto simp: pg_account_def d' find_append none i split: option.splits)
qed

lemma CreateUser_cases:
  assumes "CreateUser env n h d = (r, d')"
  obtains (failed) err where "r = Inl err" "d' = d"
  | (lost) err i where "r = Inl err" "insert_user env n h d = Inr (i, d')" "fault env 0 \<noteq> None"
  | (done_) i where "r = Inr i" "insert_user env n h d = Inr (i, d')"
proof -
  obtain q d0 where a: "autocommit env 0 (insert_user env n h) d = (q, d0)" by fastforce
  with assms have c: "d' = d0" "r = (case q of Inl e \<Rightarrow> Inl (mapDatabaseError e) | Inr i \<Rightarrow> Inr i)"
    by (auto simp: CreateUser_def split: sum.splits)
  from a show ?thesis by (cases rule: autocommit_cases) (use c that in auto)
qed

interpretation pg_users: user_store pg_user_ops no_fault pg_account "\<lambda>env. \<forall>i. new_id env i \<noteq> ''''" "\<lambda>_. True"
proof (unfold_locales, goal_cases)
  case (1 u e n h uid u')
  then have "CreateUser e n h u = (Inr uid, u')" by (simp add: pg_user_ops_def)
  then show ?case by (cases rule: CreateUser_cases) (use 1(2) insert_user_Inr(1) [of e n h u uid u'] in \<open>auto dest: insert_user_Inr\<close>)
next
  case (2 u e n h r u' n')
  then have "CreateUser e n h u = (r, u')" by (simp add: pg_user_ops_def)
  then show ?case by (cases rule: CreateUser_cases) (use 2(3) insert_user_Inr(4) in auto)
next
  case (3 u e n h)
  then have "n \<in> u_email ` set (t_users u)"
    by (auto simp: pg_account_def dest: find_Some_mem)
  then obtain err where "insert_user e n h u = Inl err"
    by (cases "insert_user e n h u") (auto simp: insert_user_def split: if_splits)
  with 3(2) show ?case
    by (simp add: pg_user_ops_def CreateUser_def autocommit_def no_faultD)
next
  case (4 u e n a)
  then show ?case
    by (auto simp: pg_user_ops_def FindUserPasswordHash_def attempt_def pg_account_def
        split: option.splits)
next
  case (5 u e n a)
  then show ?case
    by (auto simp: pg_user_ops_def FindUserPasswordHash_def attempt_def pg_account_def no_faultD
        split: option.splits)
qed

section \<open>The contract of devices\<close>

text \<open>
  One server: the cast of uuids, the storage of JSON and the codec of configurations are
  fixed, the environment gives the failures, the clocks and the generated ids.
\<close>

definition pg_env ::
  "(string \<Rightarrow> string option) \<Rightarrow> (string \<Rightarrow> string option) \<Rightarrow> db_env \<Rightarrow> db_env" where
  "pg_env cast jsonb env = env\<lparr>cast_uuid := cast, cast_jsonb := jsonb\<rparr>"

lemma pg_env_simps [simp]:
  "cast_uuid (pg_env cast jsonb env) = cast" "cast_jsonb (pg_env cast jsonb env) = jsonb"
  "fault (pg_env cast jsonb env) = fault env" "new_id (pg_env cast jsonb env) = new_id env"
  "no_fault (pg_env cast jsonb env) = no_fault env"
  by (simp_all add: pg_env_def no_fault_def)

definition pg_device_ops ::
  "(string \<Rightarrow> string option) \<Rightarrow> (string \<Rightarrow> string option) \<Rightarrow> codec \<Rightarrow> (db_env, db) device_ops" where
  "pg_device_ops cast jsonb cd =
     \<lparr>ds_ListDevices = \<lambda>env. Store_ListDevices (pg_env cast jsonb env),
      ds_RegisterDevice = \<lambda>env. Store_RegisterDevice (pg_env cast jsonb env),
      ds_RequestRevocation = \<lambda>env. Store_RequestRevocation (pg_env cast jsonb env),
      ds_CreateTunnelConfiguration = \<lambda>env. Store_CreateTunnelConfiguration (pg_env cast jsonb env) cd\<rparr>"

text \<open>Owner and state of the device that a text names.\<close>

definition pg_view :: "(string \<Rightarrow> string option) \<Rightarrow> db \<Rightarrow> string \<Rightarrow> (string \<times> DeviceState) option" where
  "pg_view cast d i =
     (case cast i of
        None \<Rightarrow> None
      | Some device \<Rightarrow> map_option (\<lambda>r. (d_user r, d_state r)) (find (\<lambda>r. d_id r = device) (t_devices d)))"

text \<open>The JSON of a configuration reads back as the configuration after PostgreSQL stored it.\<close>

definition json_faithful :: "(string \<Rightarrow> string option) \<Rightarrow> codec \<Rightarrow> TunnelConfiguration \<Rightarrow> bool" where
  "json_faithful jsonb cd c \<longleftrightarrow>
     (case enc cd c of Inl _ \<Rightarrow> True
      | Inr t \<Rightarrow> (case jsonb t of None \<Rightarrow> True | Some body \<Rightarrow> dec cd body = Inr c))"

abbreviation distinct_devices :: "db \<Rightarrow> bool" where
  "distinct_devices d \<equiv> distinct (map d_id (t_devices d))"

lemma revoke_row_keys [simp]:
  "d_id (revoke_row ow dv r) = d_id r" "d_user (revoke_row ow dv r) = d_user r"
  by (simp_all add: revoke_row_def)

lemma find_map_keys: "(\<And>r. P (f r) = P r) \<Longrightarrow> find P (map f xs) = map_option f (find P xs)"
  by (induction xs) auto

lemma pg_view_Some:
  assumes "distinct_devices d"
  shows "pg_view cast d i = Some (w, st) \<longleftrightarrow>
    (\<exists>device r. cast i = Some device \<and> r \<in> set (t_devices d) \<and> d_id r = device \<and> d_user r = w \<and> d_state r = st)"
proof -
  have "find (\<lambda>r. d_id r = d_id r0) (t_devices d) = Some r0" if "r0 \<in> set (t_devices d)" for r0
  proof (cases "find (\<lambda>r. d_id r = d_id r0) (t_devices d)")
    case None
    with that show ?thesis by (auto simp: find_None_all)
  next
    case (Some r)
    with find_Some_mem [OF Some] distinct_map_inj_unique [OF assms _ that] show ?thesis by auto
  qed
  then show ?thesis by (auto simp: pg_view_def split: option.splits dest: find_Some_mem)
qed

lemma pg_view_revoke:
  "pg_view cast (d\<lparr>t_devices := map (revoke_row ow dv) (t_devices d)\<rparr>) i =
     (case pg_view cast d i of
        None \<Rightarrow> None
      | Some (w, st) \<Rightarrow> Some (w, if w = ow \<and> cast i = Some dv \<and> st \<noteq> DeviceRevoked
                              then DeviceRevocationPending else st))"
proof (cases "cast i")
  case (Some device)
  show ?thesis
  proof (cases "find (\<lambda>r. d_id r = device) (t_devices d)")
    case (Some r)
    from find_Some_mem [OF this] have "d_id r = device" by simp
    with Some \<open>cast i = Some device\<close> show ?thesis by (simp add: pg_view_def find_map_keys) (auto simp: revoke_row_def)
  qed (simp add: pg_view_def find_map_keys \<open>cast i = Some device\<close>)
qed (simp add: pg_view_def)

text \<open>A revocation fails without effect, or marks the device of the owner.\<close>

lemma Store_RequestRevocation_cases:
  assumes "Store_RequestRevocation env u i d = (r, d')"
  obtains (failed) err where "r = Inl err" "d' = d"
  | (marked) ow dv where "r = Inr () \<or> fault env 0 \<noteq> None" "cast_uuid env i = Some dv"
      "cast_uuid env u = Some ow" "\<exists>r\<in>set (t_devices d). d_id r = dv \<and> d_user r = ow"
      "d' = d\<lparr>t_devices := map (revoke_row ow dv) (t_devices d)\<rparr>"
proof -
  obtain q d0 where a: "autocommit env 0 (update_revocation env u i) d = (q, d0)" by fastforce
  with assms have c: "d' = d0" "r = (case q of Inl e \<Rightarrow> Inl (mapDatabaseError e) | Inr i \<Rightarrow> Inr ())"
    by (auto simp: Store_RequestRevocation_def split: sum.splits)
  have u: thesis if "update_revocation env u i d = Inr (x, d')" "r = Inr () \<or> fault env 0 \<noteq> None" for x
    using that by (auto simp: update_revocation_def split: option.splits if_splits intro: marked)
  from a show ?thesis by (cases rule: autocommit_cases) (use c u failed in auto)
qed

section \<open>The cases of the allocation transaction\<close>

lemma select_idem_Inr:
  "select_idem env u op kh d = Inr (kr, d0) \<longleftrightarrow>
     (\<exists>owner. cast_uuid env u = Some owner \<and> d0 = d
        \<and> find (\<lambda>k. k_user k = owner \<and> k_operation k = op \<and> k_hash k = kh) (t_idem d) = Some kr)"
  by (auto simp: select_idem_def split: option.splits)

lemma select_idem_NoRows:
  "select_idem env u op kh d = Inl NoRows \<longleftrightarrow>
     (\<exists>owner. cast_uuid env u = Some owner
        \<and> find (\<lambda>k. k_user k = owner \<and> k_operation k = op \<and> k_hash k = kh) (t_idem d) = None)"
  by (auto simp: select_idem_def split: option.splits)

lemma attempt_Inl: "attempt env i q d = Inl e \<longleftrightarrow>
    (\<exists>f b. fault env i = Some (f, b) \<and> e = Failed f) \<or> (fault env i = None \<and> q d = Inl e)"
  by (auto simp: attempt_def split: option.splits)

lemma attempt_NoRows: "attempt env i q d = Inl NoRows \<longleftrightarrow> fault env i = None \<and> q d = Inl NoRows"
  by (auto simp: attempt_def split: option.splits)

abbreviation tunnel_operation :: "string \<Rightarrow> string" where
  "tunnel_operation dv \<equiv> ''create_tunnel_configuration:'' @ dv"

lemma tunnel_body_device:
  assumes "tunnel_body env cd u dv rg k d = Inr (x, d')"
  obtains device owner r where "cast_uuid env dv = Some device" "cast_uuid env u = Some owner"
    "r \<in> set (t_devices d)" "d_id r = device" "d_user r = owner" "d_state r = DeviceActive"
    "fault env 1 = None"
proof (cases "attempt env 1 (select_device env u dv) d")
  case (Inl e)
  with assms show ?thesis by (simp add: tunnel_body_def)
next
  case (Inr q)
  obtain r d0 where q: "q = (r, d0)" by fastforce
  with assms Inr have act: "d_state r = DeviceActive" by (rule_tac ccontr) (simp add: tunnel_body_def)
  from Inr q have f: "fault env 1 = None" and s: "select_device env u dv d = Inr (r, d0)"
    by (simp_all add: attempt_Inr)
  from s obtain device owner where o: "cast_uuid env dv = Some device" "cast_uuid env u = Some owner"
    and fi: "find (\<lambda>r. d_id r = device \<and> d_user r = owner) (t_devices d) = Some r"
    by (auto simp: select_device_def split: option.splits)
  from find_Some_mem [OF fi] show ?thesis by (intro that [OF o]) (use act f in auto)
qed

lemma tunnel_body_cases:
  assumes "tunnel_body env cd u dv rg k d = Inr (x, d')"
  obtains (replay) kr where "select_idem env u (tunnel_operation dv) (sha cd k) d = Inr (kr, d)"
      "replay_answer cd rg kr d = Inr (x, d')"
  | (reuse) region row dns where "select_idem env u (tunnel_operation dv) (sha cd k) d = Inl NoRows"
      "select_region rg d = Inr (region, d)" "dns = [host_text env (r_dns4 region), host_text env (r_dns6 region)]"
      "select_existing env dv d = Inr (row, d)"
      "reuse_assignment env cd u (tunnel_operation dv) rg k dns row d = Inr (x, d')"
  | (fresh) region dns where "select_idem env u (tunnel_operation dv) (sha cd k) d = Inl NoRows"
      "select_region rg d = Inr (region, d)" "dns = [host_text env (r_dns4 region), host_text env (r_dns6 region)]"
      "select_existing env dv d = Inl NoRows"
      "allocate_assignment env cd u dv (tunnel_operation dv) rg k region dns d = Inr (x, d')"
proof -
  let ?op = "tunnel_operation dv"
  obtain r d0 where s: "attempt env 1 (select_device env u dv) d = Inr (r, d0)"
    using assms by (cases "attempt env 1 (select_device env u dv) d") (auto simp: tunnel_body_def)
  with assms have act: "d_state r = DeviceActive" by (rule_tac ccontr) (simp add: tunnel_body_def)
  note body = assms [unfolded tunnel_body_def s sum.case prod.case Let_def act, simplified]
  show ?thesis
  proof (cases "attempt env 2 (select_idem env u ?op (sha cd k)) d")
    case (Inr q)
    then obtain kr where i: "select_idem env u ?op (sha cd k) d = Inr (kr, d)" and q: "q = (kr, d)"
      by (cases q) (simp add: attempt_Inr select_idem_Inr, blast)
    from body Inr q have "replay_answer cd rg kr d = Inr (x, d')" by simp
    with i show ?thesis by (rule replay)
  next
    case (Inl e)
    with body have e: "e = NoRows" by (rule_tac ccontr) simp
    have f4: "fault env 4 = None" using body Inl e by (cases "fault env 4") auto
    have idem: "select_idem env u ?op (sha cd k) d = Inl NoRows"
      using Inl unfolding e by (simp add: attempt_NoRows)
    obtain region d1 where rg: "attempt env 5 (select_region rg) d = Inr (region, d1)"
      using body Inl e f4 by (cases "attempt env 5 (select_region rg) d") auto
    with body Inl e f4 have body: "(case attempt env 6 (select_existing env dv) d of
        Inr (row, _) \<Rightarrow> reuse_assignment env cd u ?op rg k
          [host_text env (r_dns4 region), host_text env (r_dns6 region)] row d
      | Inl err \<Rightarrow> if err \<noteq> NoRows then Inl (mapDatabaseError err)
          else allocate_assignment env cd u dv ?op rg k region
            [host_text env (r_dns4 region), host_text env (r_dns6 region)] d) = Inr (x, d')"
      by simp
    from rg have rg: "select_region rg d = Inr (region, d)"
      by (auto simp: attempt_Inr select_region_def split: option.splits)
    show ?thesis
    proof (cases "attempt env 6 (select_existing env dv) d")
      case (Inr q)
      then have "select_existing env dv d = Inr (fst q, d)"
        by (cases q) (auto simp: attempt_Inr select_existing_def split: option.splits list.splits)
      with body Inr idem rg reuse show ?thesis by (cases q) auto
    next
      case (Inl e)
      with body have "e = NoRows" by (rule_tac ccontr) simp
      with body Inl idem rg fresh show ?thesis by (simp add: attempt_NoRows)
    qed
  qed
qed

text \<open>Configurations are handed out without touching users or devices.\<close>

lemma insert_idem_frame:
  assumes "insert_idem env u op kh rh st body t d = Inr (x, d')"
  obtains owner stored k where "cast_uuid env u = Some owner" "cast_jsonb env body = Some stored"
    "d' = d\<lparr>t_idem := t_idem d @ [k]\<rparr>" "k_user k = owner" "k_operation k = op" "k_hash k = kh"
    "k_request k = rh" "k_body k = stored" "k_status k = st"
  using assms by (auto simp: insert_idem_def split: option.splits if_splits)

lemma reuse_assignment_Inr:
  assumes "reuse_assignment env cd u op rg k dns (pa, l, g) d = Inr ((y, i, m), d')"
  obtains c body where "l_region l = rg" "y = (c, True)"
    "c = make_configuration (a_id pa) g (host_text env (l_v4 l) @ ''/32'') (host_text env (l_v6 l) @ ''/128'') dns (a_expires pa)"
    "enc cd c = Inr body"
    "insert_idem env u op (sha cd k) (sha cd rg) 200 body (go_now env + 24 * hour) d = Inr ((), d')"
  using assms
  by (auto simp: reuse_assignment_def Let_def attempt_Inr split: if_splits sum.splits prod.splits)

lemma allocate_assignment_Inr:
  assumes "allocate_assignment env cd u dv op rg k region dns d = Inr ((y, i, m), d')"
  obtains g usedIPv4 usedIPv6 ipv4 ipv6 le d1 asg d2 c body where
    "select_gateway rg d = Inr (g, d)" "activeAddresses env rg d = Inr (usedIPv4, usedIPv6)"
    "firstAvailableAddress (r_v4pool region) usedIPv4 = Inr ipv4"
    "firstAvailableAddress (r_v6pool region) usedIPv6 = Inr ipv6"
    "insert_lease env rg dv (addr_string ipv4 @ ''/32'') (addr_string ipv6 @ ''/128'') d = Inr (le, d1)"
    "insert_assignment env dv (g_id g) le (go_now env + 24 * hour) d1 = Inr (asg, d2)"
    "c = make_configuration asg g (addr_string ipv4 @ ''/32'') (addr_string ipv6 @ ''/128'') dns (go_now env + 24 * hour)"
    "y = (c, True)" "enc cd c = Inr body"
    "insert_idem env u op (sha cd k) (sha cd rg) 201 body (go_now env + 24 * hour) d2 = Inr ((), d')"
proof -
  note t = assms [unfolded allocate_assignment_def Let_def]
  obtain g d0 where g: "attempt env 9 (select_gateway rg) d = Inr (g, d0)"
    using t by (cases "attempt env 9 (select_gateway rg) d") auto
  then have g': "select_gateway rg d = Inr (g, d)" using select_gateway_Inr(5) by (auto simp: attempt_Inr)
  note t = t [unfolded g sum.case prod.case]
  obtain u4 u6 where u: "activeAddresses env rg d = Inr (u4, u6)"
    using t by (cases "activeAddresses env rg d") auto
  note t = t [unfolded u sum.case prod.case]
  obtain ipv4 where ipv4: "firstAvailableAddress (r_v4pool region) u4 = Inr ipv4"
    using t by (cases "firstAvailableAddress (r_v4pool region) u4") auto
  note t = t [unfolded ipv4 sum.case]
  obtain ipv6 where ipv6: "firstAvailableAddress (r_v6pool region) u6 = Inr ipv6"
    using t by (cases "firstAvailableAddress (r_v6pool region) u6") auto
  note t = t [unfolded ipv6 sum.case]
  let ?il = "insert_lease env rg dv (addr_string ipv4 @ ''/32'') (addr_string ipv6 @ ''/128'')"
  obtain le d1 where il: "attempt env 12 ?il d = Inr (le, d1)"
    using t by (cases "attempt env 12 ?il d") auto
  note t = t [unfolded il sum.case prod.case]
  let ?ia = "insert_assignment env dv (g_id g) le (go_now env + 24 * hour)"
  obtain asg d2 where ia: "attempt env 13 ?ia d1 = Inr (asg, d2)"
    using t by (cases "attempt env 13 ?ia d1") auto
  note t = t [unfolded ia sum.case prod.case]
  let ?c = "make_configuration asg g (addr_string ipv4 @ ''/32'') (addr_string ipv6 @ ''/128'') dns
    (go_now env + 24 * hour)"
  obtain body where b: "enc cd ?c = Inr body" using t by (cases "enc cd ?c") auto
  note t = t [unfolded b sum.case]
  let ?ii = "insert_idem env u op (sha cd k) (sha cd rg) 201 body (go_now env + 24 * hour)"
  obtain q d3 where ii: "attempt env 14 ?ii d2 = Inr (q, d3)"
    using t by (cases "attempt env 14 ?ii d2") auto
  note t = t [unfolded ii sum.case prod.case, simplified]
  from il ia ii have r: "?il d = Inr (le, d1)" "?ia d1 = Inr (asg, d2)" "?ii d2 = Inr ((), d')"
    using t by (simp_all add: attempt_Inr)
  show ?thesis by (rule that [OF g' u ipv4 ipv6 r(1,2) refl _ b r(3)]) (use t in simp)
qed

lemma tunnel_body_select:
  assumes "tunnel_body env cd u dv rg k d = Inr (x, d')"
  obtains r where "select_device env u dv d = Inr (r, d)" "d_state r = DeviceActive"
proof -
  obtain r d0 where s: "attempt env 1 (select_device env u dv) d = Inr (r, d0)"
    using assms by (cases "attempt env 1 (select_device env u dv) d") (auto simp: tunnel_body_def)
  with assms have "d_state r = DeviceActive" by (rule_tac ccontr) (simp add: tunnel_body_def)
  moreover have "select_device env u dv d = Inr (r, d)"
    using s by (auto simp: attempt_Inr select_device_def split: option.splits)
  ultimately show ?thesis by (rule that [rotated])
qed

text \<open>What an answer leaves in the tables: the key of the request, and no user or device changed.\<close>

lemma insert_lease_frame:
  "insert_lease env rg dv v4 v6 d = Inr (x, d') \<Longrightarrow>
     t_users d' = t_users d \<and> t_devices d' = t_devices d \<and> t_idem d' = t_idem d"
  by (erule insert_lease_Inr) simp

lemma insert_assignment_frame:
  "insert_assignment env dv gw le t d = Inr (x, d') \<Longrightarrow>
     t_users d' = t_users d \<and> t_devices d' = t_devices d \<and> t_idem d' = t_idem d"
  by (erule insert_assignment_Inr) simp

definition answered ::
  "db_env \<Rightarrow> codec \<Rightarrow> string \<Rightarrow> string \<Rightarrow> string \<Rightarrow> string \<Rightarrow> TunnelConfiguration \<Rightarrow> db \<Rightarrow> bool" where
  "answered env cd u dv rg k c d \<longleftrightarrow>
     (\<exists>kr. select_idem env u (tunnel_operation dv) (sha cd k) d = Inr (kr, d) \<and> k_request kr = sha cd rg
        \<and> (dec cd (k_body kr) = Inr c
           \<or> (\<exists>body. enc cd c = Inr body \<and> cast_jsonb env body = Some (k_body kr))))"

lemma insert_idem_answered:
  assumes n: "select_idem env u (tunnel_operation dv) (sha cd k) d = Inl NoRows" and b: "enc cd c = Inr body"
    and t: "t_idem d1 = t_idem d"
    and i: "insert_idem env u (tunnel_operation dv) (sha cd k) (sha cd rg) st body t d1 = Inr (x, d')"
  shows "answered env cd u dv rg k c d'"
proof (rule insert_idem_frame [OF i])
  fix owner stored kr
  assume o: "cast_uuid env u = Some owner" "cast_jsonb env body = Some stored"
    and d': "d' = d1\<lparr>t_idem := t_idem d1 @ [kr]\<rparr>" and kr: "k_user kr = owner"
      "k_operation kr = tunnel_operation dv" "k_hash kr = sha cd k" "k_request kr = sha cd rg" "k_body kr = stored"
  from n o(1) have "find (\<lambda>k'. k_user k' = owner \<and> k_operation k' = tunnel_operation dv \<and> k_hash k' = sha cd k)
      (t_idem d) = None" unfolding select_idem_NoRows by simp
  with o(1) kr t have "select_idem env u (tunnel_operation dv) (sha cd k) d' = Inr (kr, d')"
    unfolding select_idem_Inr d' by (simp add: find_append)
  with kr b o show ?thesis unfolding answered_def by blast
qed

lemma tunnel_body_answered:
  assumes "tunnel_body env cd u dv rg k d = Inr (((c, cr), i, m), d')"
  shows "answered env cd u dv rg k c d' \<and> t_users d' = t_users d \<and> t_devices d' = t_devices d"
proof (rule tunnel_body_cases [OF assms])
  fix kr assume s: "select_idem env u (tunnel_operation dv) (sha cd k) d = Inr (kr, d)"
    and r: "replay_answer cd rg kr d = Inr (((c, cr), i, m), d')"
  from r have "k_request kr = sha cd rg" "dec cd (k_body kr) = Inr c" "d' = d"
    by (auto simp: replay_answer_def split: if_splits sum.splits)
  with s show ?thesis unfolding answered_def by blast
next
  fix region row dns assume n: "select_idem env u (tunnel_operation dv) (sha cd k) d = Inl NoRows"
    and r: "reuse_assignment env cd u (tunnel_operation dv) rg k dns row d = Inr (((c, cr), i, m), d')"
  obtain pa l g where row: "row = (pa, l, g)" by (cases row)
  show ?thesis
  proof (rule reuse_assignment_Inr [OF r [unfolded row]])
    fix c' body assume "(c, cr) = (c', True)" and b: "enc cd c' = Inr body"
      and i: "insert_idem env u (tunnel_operation dv) (sha cd k) (sha cd rg) 200 body (go_now env + 24 * hour) d = Inr ((), d')"
    with insert_idem_answered [OF n b refl i] show ?thesis by (auto elim!: insert_idem_frame)
  qed
next
  fix region dns assume n: "select_idem env u (tunnel_operation dv) (sha cd k) d = Inl NoRows"
    and r: "allocate_assignment env cd u dv (tunnel_operation dv) rg k region dns d = Inr (((c, cr), i, m), d')"
  show ?thesis
  proof (rule allocate_assignment_Inr [OF r])
    fix g ipv4 ipv6 le d1 asg d2 c' body
    assume l: "insert_lease env rg dv (addr_string ipv4 @ ''/32'') (addr_string ipv6 @ ''/128'') d = Inr (le, d1)"
      and a: "insert_assignment env dv (g_id g) le (go_now env + 24 * hour) d1 = Inr (asg, d2)"
      and c: "(c, cr) = (c', True)" and b: "enc cd c' = Inr body"
      and i: "insert_idem env u (tunnel_operation dv) (sha cd k) (sha cd rg) 201 body (go_now env + 24 * hour) d2 = Inr ((), d')"
    note fr = insert_lease_frame [OF l] insert_assignment_frame [OF a]
    with insert_idem_answered [OF n b _ i] c i show ?thesis by (auto elim!: insert_idem_frame)
  qed
qed

lemma answered_replay:
  assumes b: "tunnel_body env cd u dv rg k d = Inr (((c, cr), i, m), d')"
    and e: "cast_uuid env' = cast_uuid env" "no_fault env'"
    and f: "json_faithful (cast_jsonb env) cd c"
  shows "tunnel_body env' cd u dv rg k d' = Inr (((c, False), 3, ''commit idempotent replay''), d')"
proof -
  note a = tunnel_body_answered [OF b]
  obtain r where r: "select_device env u dv d = Inr (r, d)" "d_state r = DeviceActive"
    by (rule tunnel_body_select [OF b])
  with a e(1) have s: "select_device env' u dv d' = Inr (r, d')"
    by (auto simp: select_device_def split: option.splits)
  from a obtain kr where kr: "select_idem env u (tunnel_operation dv) (sha cd k) d' = Inr (kr, d')"
    "k_request kr = sha cd rg" "dec cd (k_body kr) = Inr c \<or>
      (\<exists>body. enc cd c = Inr body \<and> cast_jsonb env body = Some (k_body kr))"
    unfolding answered_def by blast
  from kr(3) f have dec: "dec cd (k_body kr) = Inr c" by (auto simp: json_faithful_def)
  have "select_idem env' u (tunnel_operation dv) (sha cd k) d' = Inr (kr, d')"
    using kr(1) e(1) by (simp only: select_idem_def)
  with s r(2) kr(2) dec e(2) show ?thesis
    by (simp add: tunnel_body_def attempt_def no_faultD replay_answer_def)
qed

lemma Store_CreateTunnelConfiguration_cases:
  assumes "Store_CreateTunnelConfiguration env cd u dv rg k d = (r, d')"
  obtains (failed) err where "r = Inl err" "d' = d"
  | (lost) err x i m where "r = Inl err" "tunnel_body env cd u dv rg k d = Inr ((x, i, m), d')"
      "fault env i \<noteq> None"
  | (committed) x i m where "r = Inr x" "tunnel_body env cd u dv rg k d = Inr ((x, i, m), d')"
      "fault env i = None"
proof (cases "trimSpace u = '''' \<or> trimSpace dv = '''' \<or> trimSpace rg = '''' \<or> length k < 16 \<or> length k > 128")
  case True
  then have "Store_CreateTunnelConfiguration env cd u dv rg k d = (Inl ErrInvalidInput, d)"
    by (auto simp: Store_CreateTunnelConfiguration_def)
  with assms have "r = Inl ErrInvalidInput" "d' = d" by simp_all
  then show ?thesis by (rule failed)
next
  case False
  with assms have "run_tx env ''begin allocation transaction'' (tunnel_body env cd u dv rg k) d = (r, d')"
    by (simp add: Store_CreateTunnelConfiguration_def)
  then show ?thesis by (cases rule: run_tx_cases) (use failed lost committed in auto)
qed

section \<open>The store provides the contract of devices\<close>

lemma pg_view_frame: "t_devices d' = t_devices d \<Longrightarrow> pg_view cast d' = pg_view cast d"
  by (simp add: pg_view_def fun_eq_iff split: option.split)

lemma create_tunnel_devices:
  assumes "Store_CreateTunnelConfiguration env cd u dv rg k d = (r, d')"
  shows "t_devices d' = t_devices d \<and> t_users d' = t_users d"
  using assms
proof (cases rule: Store_CreateTunnelConfiguration_cases)
  case (lost err x i m)
  then show ?thesis using tunnel_body_answered by (cases x) blast
next
  case (committed x i m)
  then show ?thesis using tunnel_body_answered by (cases x) blast
qed simp

lemma create_tunnel_replay:
  assumes "tunnel_body env cd u dv rg k d = Inr (((c, cr), i, m), d')"
    and "cast_uuid env' = cast_uuid env" "no_fault env'" "json_faithful (cast_jsonb env) cd c"
    and g: "trimSpace u \<noteq> ''''" "trimSpace dv \<noteq> ''''" "trimSpace rg \<noteq> ''''" "16 \<le> length k" "length k \<le> 128"
  shows "Store_CreateTunnelConfiguration env' cd u dv rg k d' = (Inr (c, False), d')"
  using answered_replay [OF assms(1-4)] g assms(3)
  by (simp add: Store_CreateTunnelConfiguration_def run_tx_def no_faultD)

lemma create_tunnel_guards:
  assumes "Store_CreateTunnelConfiguration env cd u dv rg k d = (r, d')" "d' \<noteq> d \<or> is_ok r"
  shows "trimSpace u \<noteq> ''''" "trimSpace dv \<noteq> ''''" "trimSpace rg \<noteq> ''''" "16 \<le> length k" "length k \<le> 128"
  using assms by (auto simp: Store_CreateTunnelConfiguration_def split: if_splits)

interpretation pg_devices: device_service "pg_device_ops cast jsonb cd" no_fault "pg_view cast" cast
  distinct_devices "json_faithful jsonb cd"
proof (unfold_locales, goal_cases)
  case (1 e u d s err s')
  then have "Store_RequestRevocation (pg_env cast jsonb e) u d s = (Inl err, s')" by (simp add: pg_device_ops_def)
  then show ?case by (cases rule: Store_RequestRevocation_cases) (use 1(1) in \<open>auto simp: no_fault_def\<close>)
next
  case (2 s e u d y s')
  then have "Store_RequestRevocation (pg_env cast jsonb e) u d s = (Inr y, s')" by (simp add: pg_device_ops_def)
  then show ?case
  proof (cases rule: Store_RequestRevocation_cases)
    case (marked ow dv)
    then obtain r where "r \<in> set (t_devices s)" "d_id r = dv" "d_user r = ow" by blast
    with marked 2(1) have v: "pg_view cast s d = Some (ow, d_state r)" by (auto simp: pg_view_Some)
    with marked have "pg_view cast s' d = Some (ow, if d_state r = DeviceRevoked then DeviceRevoked else DeviceRevocationPending)"
      by (simp add: pg_view_revoke)
    with v marked show ?thesis by auto
  qed simp
next
  case (3 s e u d res s' d2 w st)
  then have "Store_RequestRevocation (pg_env cast jsonb e) u d s = (res, s')" by (simp add: pg_device_ops_def)
  then show ?case
    by (cases rule: Store_RequestRevocation_cases) (use 3(3,4) in \<open>auto simp: pg_view_revoke\<close>)
next
  case (4 e u d rg k s err s')
  then have "Store_CreateTunnelConfiguration (pg_env cast jsonb e) cd u d rg k s = (Inl err, s')"
    by (simp add: pg_device_ops_def)
  then show ?case
    by (cases rule: Store_CreateTunnelConfiguration_cases) (use 4(1) in \<open>auto simp: no_fault_def\<close>)
next
  case (5 s e u d rg k c cr s')
  then have "Store_CreateTunnelConfiguration (pg_env cast jsonb e) cd u d rg k s = (Inr (c, cr), s')"
    by (simp add: pg_device_ops_def)
  then show ?case
  proof (cases rule: Store_CreateTunnelConfiguration_cases)
    case (committed x i m)
    show ?thesis
      by (rule tunnel_body_device [OF committed(2)]) (use 5(1) in \<open>auto simp: pg_view_Some\<close>)
  qed simp_all
next
  case (6 e u d rg k s r s')
  then show ?case using create_tunnel_devices by (auto simp: pg_device_ops_def intro!: pg_view_frame)
next
  case (7 s e u d rg k c cr s' e')
  then have e: "Store_CreateTunnelConfiguration (pg_env cast jsonb e) cd u d rg k s = (Inr (c, cr), s')"
    by (simp add: pg_device_ops_def)
  then show ?case
  proof (cases rule: Store_CreateTunnelConfiguration_cases)
    case (committed x i m)
    then have "tunnel_body (pg_env cast jsonb e) cd u d rg k s = Inr (((c, cr), i, m), s')" by simp
    from create_tunnel_replay [OF this _ _ _ create_tunnel_guards [OF e], of "pg_env cast jsonb e'"] 7(3,4)
    show ?thesis by (simp add: pg_device_ops_def)
  qed simp_all
next
  case (8 s e u d res s')
  then have "Store_RequestRevocation (pg_env cast jsonb e) u d s = (res, s')" by (simp add: pg_device_ops_def)
  then show ?case by (cases rule: Store_RequestRevocation_cases) (use 8(1) in \<open>auto simp: comp_def\<close>)
next
  case (9 s e u d rg k r s')
  then show ?case using create_tunnel_devices by (auto simp: pg_device_ops_def)
qed

end
