(* ===== verification/Store_Samples.thy ===== *)
theory Store_Samples
  imports Store_Facts
begin

text \<open>
  A concrete server with one region, gateway, user and device, on which the operations of the
  store are evaluated: the witnesses of the properties start from here.
\<close>

section \<open>A small server for the witnesses\<close>

text \<open>
  One region, one gateway with room for one peer, one user with one device. Every non-empty
  text is a canonical uuid; the environment \<open>sample_env tag\<close> generates ids from \<open>tag\<close>.
\<close>

definition sample_cast :: "string \<Rightarrow> string option" where
  "sample_cast s = (if s = '''' then None else Some s)"

definition sample_env :: "string \<Rightarrow> db_env" where
  "sample_env tag = \<lparr>fault = \<lambda>_. None, new_id = \<lambda>i. tag @ replicate i CHR ''x'', db_now = 1000, go_now = 1000,
     cast_uuid = sample_cast, cast_inet = \<lambda>s. map_option prefix_addr (parsePrefix s), host_text = addr_string,
     cast_jsonb = Some, jsonb_object = \<lambda>_. True, pg_lower = \<lambda>s. s, pg_collate = \<lambda>s. s\<rparr>"

definition sample_key1 :: string where "sample_key1 = replicate 43 CHR ''A'' @ ''=''"

definition sample_region_row :: region_row where
  "sample_region_row = \<lparr>r_id = ''pt-lis'', r_display = ''Lisbon'', r_v4pool = ''10.70.0.0/29'', r_v6pool = ''::/120'',
     r_dns4 = V4 0x0A460001, r_dns6 = V6 1, r_available = True\<rparr>"

definition sample_gateway_row :: gateway_row where
  "sample_gateway_row = \<lparr>g_id = ''gw1'', g_region = ''pt-lis'', g_host = ''gw.example'', g_port = 51820,
     g_key = sample_key1, g_state = GwReady, g_capacity = 1\<rparr>"

definition empty_db :: db where
  "empty_db = \<lparr>t_users = [], t_devices = [], t_regions = [sample_region_row], t_gateways = [sample_gateway_row],
     t_leases = [], t_assignments = [], t_idem = [], t_snapshots = []\<rparr>"

definition sample_user_row :: user_row where
  "sample_user_row = \<lparr>u_id = ''alice'', u_email = ''alice@example.com'', u_hash = ''hash'', u_disabled = None\<rparr>"

definition sample_device_row :: device_row where
  "sample_device_row = \<lparr>d_id = ''dev1'', d_user = ''alice'', d_name = ''laptop'', d_platform = ''windows'',
     d_key = sample_key1, d_state = DeviceActive, d_created = 1000, d_revoked = None\<rparr>"

definition sample_db :: db where
  "sample_db = empty_db\<lparr>t_users := [sample_user_row], t_devices := [sample_device_row]\<rparr>"

definition sample_lease_row :: lease_row where
  "sample_lease_row = \<lparr>l_id = ''t'', l_region = ''pt-lis'', l_device = ''dev1'', l_v4 = V4 0x0A460002,
     l_v6 = V6 2, l_released = None\<rparr>"

definition sample_assignment_row :: assignment_row where
  "sample_assignment_row = \<lparr>a_id = ''tx'', a_device = ''dev1'', a_gateway = ''gw1'', a_lease = ''t'',
     a_state = AsgPending, a_desired = 1, a_observed = 0, a_expires = 86400000001000, a_created = 1000\<rparr>"

definition sample_answer :: TunnelConfiguration where
  "sample_answer = make_configuration ''tx'' sample_gateway_row ''10.70.0.2/32'' ''::2/128''
     [''10.70.0.1'', ''::1''] 86400000001000"

definition sample_codec :: codec where
  "sample_codec = \<lparr>enc = \<lambda>_. Inr ''{}'', dec = \<lambda>_. Inr sample_answer, sha = \<lambda>s. s\<rparr>"

abbreviation "sample_idem_key \<equiv> ''0123456789abcdef''"

definition sample_idem_row :: idem_row where
  "sample_idem_row = \<lparr>k_user = ''alice'', k_operation = tunnel_operation ''dev1'', k_hash = sample_idem_key,
     k_request = ''pt-lis'', k_status = 201, k_body = ''{}'', k_expires = 86400000001000\<rparr>"

definition sample_db1 :: db where
  "sample_db1 = sample_db\<lparr>t_leases := [sample_lease_row], t_assignments := [sample_assignment_row],
     t_idem := [sample_idem_row]\<rparr>"

lemma sample_addresses:
  "firstAvailableAddress ''10.70.0.0/29'' {} = Inr (V4 0x0A460002)"
  "firstAvailableAddress ''::/120'' {} = Inr (V6 2)"
  "v4_string 0x0A460001 = ''10.70.0.1''" "v4_string 0x0A460002 = ''10.70.0.2''"
  "v6_string 1 = ''::1''"
  "v6_string 2 = ''::2''"
  "parsePrefix ''10.70.0.2/32'' = Some \<lparr>prefix_addr = V4 0x0A460002, prefix_bits = 32\<rparr>"
  "parsePrefix ''::2/128'' = Some \<lparr>prefix_addr = V6 2, prefix_bits = 128\<rparr>"
  by code_simp+

lemmas sample_row_defs = sample_region_row_def sample_gateway_row_def sample_user_row_def sample_device_row_def
  sample_lease_row_def sample_assignment_row_def sample_idem_row_def

lemmas sample_defs = sample_cast_def sample_env_def empty_db_def sample_db_def sample_db1_def
  sample_answer_def sample_codec_def sample_row_defs

lemma sample_spaces: "trimSpace ''alice'' = ''alice''" "trimSpace ''dev1'' = ''dev1''" "trimSpace ''pt-lis'' = ''pt-lis''"
  by code_simp+

lemmas store_statement_defs = attempt_def select_device_def select_idem_def select_region_def
  select_existing_def existing_rows_def select_gateway_def live_count_def activeAddresses_def
  active_leases_def insert_lease_def insert_assignment_def insert_idem_def

lemma sample_allocation:
  "Store_CreateTunnelConfiguration (sample_env ''t'') sample_codec ''alice'' ''dev1'' ''pt-lis'' sample_idem_key sample_db =
     (Inr (sample_answer, True), sample_db1)"
proof -
  have "tunnel_body (sample_env ''t'') sample_codec ''alice'' ''dev1'' ''pt-lis'' sample_idem_key sample_db =
     Inr (((sample_answer, True), 15, ''commit tunnel allocation''), sample_db1)"
    by (simp add: tunnel_body_def allocate_assignment_def store_statement_defs sample_defs sample_addresses timestamp_def Let_def)
  then show ?thesis
    by (simp add: Store_CreateTunnelConfiguration_def sample_spaces run_tx_def) (simp add: sample_env_def)
qed

lemma sample_key1_valid: "validWireGuardPublicKey sample_key1" "key_pattern sample_key1"
  by code_simp+

definition env_of_id :: "string \<Rightarrow> db_env" where
  "env_of_id i = (sample_env i)\<lparr>new_id := \<lambda>_. i\<rparr>"

lemma sample_env_ok: "t \<noteq> '''' \<Longrightarrow> env_ok sample_cast (sample_env t)" "t \<noteq> '''' \<Longrightarrow> env_ok sample_cast (env_of_id t)"
  by (simp_all add: env_ok_def sample_env_def env_of_id_def sample_cast_def)

lemma sample_texts: "char_length (btrim ''laptop'') = 6" "trimSpace ''laptop'' = ''laptop''"
  "btrim ''alice@example.com'' = ''alice@example.com''" "char_length ''alice@example.com'' = 17"
  by code_simp+

lemma sample_create_user:
  "CreateUser (env_of_id ''alice'') ''alice@example.com'' ''hash'' empty_db =
     (Inr ''alice'', empty_db\<lparr>t_users := [sample_user_row]\<rparr>)"
  by (simp add: CreateUser_def autocommit_def insert_user_def email_ok_def env_of_id_def sample_env_def
      empty_db_def sample_texts sample_user_row_def)

lemma sample_register_device:
  "snd (Store_RegisterDevice (env_of_id ''dev1'') ''alice''
      \<lparr>req_Name = ''laptop'', req_Platform = ''windows'', req_PublicKey = sample_key1\<rparr>
      (empty_db\<lparr>t_users := [sample_user_row]\<rparr>)) = sample_db"
  by (simp add: Store_RegisterDevice_def ValidateRegisterDevice_def sample_key1_valid sample_spaces sample_texts
      validPlatform_def autocommit_def insert_device_def env_of_id_def sample_env_def empty_db_def
      sample_db_def sample_cast_def sample_user_row_def sample_device_row_def timestamp_def Let_def)

lemma sample_seeded: "seeded sample_cast empty_db"
  by (simp add: seeded_def empty_db_def sample_gateway_row_def sample_cast_def)

lemma sample_reachable: "store_reachable sample_cast empty_db sample_db1"
proof -
  have e: "env_ok sample_cast (env_of_id ''alice'')" "env_ok sample_cast (env_of_id ''dev1'')"
    "env_ok sample_cast (sample_env ''t'')" by (simp_all add: sample_env_ok)
  have "store_reachable sample_cast empty_db (empty_db\<lparr>t_users := [sample_user_row]\<rparr>)"
    using store_reachable.step [OF store_reachable.start create_user [OF e(1)]] sample_create_user
    by (metis snd_conv)
  from store_reachable.step [OF this register_device [OF e(2)]] sample_register_device
  have "store_reachable sample_cast empty_db sample_db" by metis
  from store_reachable.step [OF this create_tunnel [OF e(3)]] sample_allocation
  show ?thesis by (metis snd_conv)
qed

lemma sample_db_inv: "db_inv sample_cast sample_db"
  by (rule db_invI) (simp_all add: sample_db_def empty_db_def sample_row_defs users_inv_def devices_inv_def
    leases_inv_def assignments_inv_def match_inv_def gateways_inv_def live_count_def idem_inv_def
    snapshots_inv_def sample_cast_def)

lemma sample_no_fault: "no_fault (sample_env t)"
  by (simp add: no_fault_def sample_env_def)

end
