(* ===== verification/Store_Props.thy ===== *)
theory Store_Props
  imports Store_Samples
begin

text \<open>
  The properties of accounts, devices and tunnels in the PostgreSQL store, from the invariant
  (\<open>Store_Inv\<close>) and the contracts the store provides (\<open>Store_Facts\<close>).
\<close>

section \<open>Every reachable state\<close>

lemma held_unique:
  assumes "distinct (map k (filter held ls))" "l1 \<in> set ls" "l2 \<in> set ls" "held l1" "held l2" "k l1 = k l2"
  shows "l1 = l2"
  using distinct_map_inj_unique [OF assms(1)] assms(2-6) by simp

text \<open>
  C4: In every state the store reaches from a database that holds only regions and gateways,
  whatever calls fail, no two leases in use share an address of a region, no device holds two,
  and the leases in use are exactly those of the live assignments, each held by the device it
  is assigned to.
\<close>

theorem store_leases_exclusive:
  assumes "seeded cast d0" and "store_reachable cast d0 d"
  shows "(\<forall>l1 l2. l1 \<in> set (t_leases d) \<and> l2 \<in> set (t_leases d) \<and> held l1 \<and> held l2
       \<and> (l_device l1 = l_device l2
          \<or> l_region l1 = l_region l2 \<and> (l_v4 l1 = l_v4 l2 \<or> l_v6 l1 = l_v6 l2)) \<longrightarrow> l1 = l2)
     \<and> (\<forall>pa\<in>set (t_assignments d). live pa \<longrightarrow>
          (\<exists>l\<in>set (t_leases d). l_id l = a_lease pa \<and> held l \<and> l_device l = a_device pa))
     \<and> (\<forall>l\<in>set (t_leases d). held l \<longrightarrow> (\<exists>pa\<in>set (t_assignments d). live pa \<and> a_lease pa = l_id l))"
proof -
  from store_reachable_inv [OF assms(2) seeded_inv [OF assms(1)]] have i: "leases_inv d" "match_inv d"
    by (simp_all add: db_inv_def)
  have "l1 = l2" if "l1 \<in> set (t_leases d)" "l2 \<in> set (t_leases d)" "held l1" "held l2"
    "l_device l1 = l_device l2 \<or> l_region l1 = l_region l2 \<and> (l_v4 l1 = l_v4 l2 \<or> l_v6 l1 = l_v6 l2)" for l1 l2
    using i(1) that held_unique [of l_device] held_unique [of "\<lambda>l. (l_region l, l_v4 l)"]
      held_unique [of "\<lambda>l. (l_region l, l_v6 l)"] unfolding leases_inv_def by blast
  with i(2) show ?thesis unfolding match_inv_def by blast
qed

theorem store_leases_exclusive_witness:
  "\<exists>l\<in>set (t_leases sample_db1). held l \<and> (\<exists>pa\<in>set (t_assignments sample_db1). live pa \<and> a_lease pa = l_id l)"
proof -
  have "sample_lease_row \<in> set (t_leases sample_db1)" "held sample_lease_row"
    by (simp_all add: sample_db1_def sample_lease_row_def)
  with store_leases_exclusive [OF sample_seeded sample_reachable, THEN conjunct2, THEN conjunct2]
  show ?thesis by blast
qed

text \<open>
  No gateway is ever given more live peers than its capacity, in any state the store
  reaches, whatever calls fail.
\<close>

theorem store_gateway_capacity:
  assumes "seeded cast d0" and "store_reachable cast d0 d" and "g \<in> set (t_gateways d)"
  shows "live_count d (g_id g) \<le> g_capacity g"
  using store_reachable_inv [OF assms(2) seeded_inv [OF assms(1)]] assms(3)
  by (simp add: db_inv_def gateways_inv_def)

theorem store_gateway_capacity_witness:
  "live_count sample_db1 ''gw1'' = 1 \<and> live_count sample_db1 (g_id sample_gateway_row) \<le> g_capacity sample_gateway_row"
proof -
  have "sample_gateway_row \<in> set (t_gateways sample_db1)"
    by (simp add: sample_db1_def sample_db_def empty_db_def)
  from store_gateway_capacity [OF sample_seeded sample_reachable this] show ?thesis
    by (simp add: live_count_def sample_db1_def sample_assignment_row_def live_def)
qed

section \<open>Allocation\<close>

text \<open>Go reads the texts PostgreSQL prints for the addresses of the leases as these addresses.\<close>

definition prints_back :: "db_env \<Rightarrow> db \<Rightarrow> bool" where
  "prints_back env d \<longleftrightarrow> (\<forall>l\<in>set (t_leases d).
     parseAddr (host_text env (l_v4 l)) = Some (l_v4 l) \<and> parseAddr (host_text env (l_v6 l)) = Some (l_v6 l))"

lemma parse_addresses_set:
  assumes "\<forall>l\<in>set ls. parseAddr (host_text env (l_v4 l)) = Some (l_v4 l)
     \<and> parseAddr (host_text env (l_v6 l)) = Some (l_v6 l)"
  shows "parse_addresses (map (\<lambda>l. (host_text env (l_v4 l), host_text env (l_v6 l))) ls) =
     Inr (l_v4 ` set ls, l_v6 ` set ls)"
  using assms by (induction ls) auto

lemma activeAddresses_Inr:
  assumes "prints_back env d" "activeAddresses env rg d = Inr (u4, u6)"
  shows "u4 = l_v4 ` set (active_leases d rg)" "u6 = l_v6 ` set (active_leases d rg)"
  using assms parse_addresses_set [of "active_leases d rg" env]
  by (auto simp: activeAddresses_def prints_back_def active_leases_def split: option.splits)

text \<open>The chosen gateway is the least loaded one.\<close>

lemma select_gateway_least:
  assumes "select_gateway rg d = Inr (g, d')" "g' \<in> set (t_gateways d)" "g_region g' = rg"
    "g_state g' = GwReady" "live_count d (g_id g') < g_capacity g'"
  shows "live_count d (g_id g) \<le> live_count d (g_id g')"
proof -
  let ?k = "\<lambda>g. (live_count d (g_id g), g_id g)"
  let ?gs = "sort_key ?k (filter (\<lambda>g. g_region g = rg \<and> g_state g = GwReady
     \<and> live_count d (g_id g) < g_capacity g) (t_gateways d))"
  from assms(1) obtain rest where r: "?gs = g # rest"
    unfolding select_gateway_def by (cases ?gs; simp del: set_sort)
  have "sorted (map ?k ?gs)" by simp
  then have "\<forall>x\<in>set ?gs. ?k g \<le> ?k x" unfolding r by simp
  moreover have "g' \<in> set ?gs" using assms(2-5) by simp
  ultimately have "?k g \<le> ?k g'" by blast
  then show ?thesis by (auto simp: less_eq_prod_def)
qed

text \<open>The rows a fresh allocation adds.\<close>

lemma fresh_allocation:
  assumes "Store_CreateTunnelConfiguration env cd u dv rg k d = (Inr (c, True), d')"
    and "t_leases d' \<noteq> t_leases d"
  obtains region g u4 u6 ipv4 ipv6 le d1 asg d2 where "select_region rg d = Inr (region, d)"
    "select_gateway rg d = Inr (g, d)" "activeAddresses env rg d = Inr (u4, u6)"
    "firstAvailableAddress (r_v4pool region) u4 = Inr ipv4"
    "firstAvailableAddress (r_v6pool region) u6 = Inr ipv6"
    "insert_lease env rg dv (addr_string ipv4 @ ''/32'') (addr_string ipv6 @ ''/128'') d = Inr (le, d1)"
    "insert_assignment env dv (g_id g) le (go_now env + 24 * hour) d1 = Inr (asg, d2)"
    "t_leases d' = t_leases d2" "t_assignments d' = t_assignments d2"
    "tc_Addresses c = [addr_string ipv4 @ ''/32'', addr_string ipv6 @ ''/128'']"
    "tc_ServerPublicKey c = g_key g" "tc_Endpoint c = joinHostPort (g_host g) (itoa (g_port g))"
    "tc_AssignmentID c = asg"
  using assms(1)
proof (cases rule: Store_CreateTunnelConfiguration_cases)
  case (committed x i m)
  then have b: "tunnel_body env cd u dv rg k d = Inr (((c, True), i, m), d')" by simp
  show ?thesis
  proof (rule tunnel_body_cases [OF b])
    fix kr assume "replay_answer cd rg kr d = Inr (((c, True), i, m), d')"
    then show ?thesis by (auto simp: replay_answer_def split: if_splits sum.splits)
  next
    fix region row dns
    assume r: "reuse_assignment env cd u (tunnel_operation dv) rg k dns row d = Inr (((c, True), i, m), d')"
    obtain pa l g where row: "row = (pa, l, g)" by (cases row)
    show ?thesis by (rule reuse_assignment_Inr [OF r [unfolded row]])
        (use assms(2) in \<open>auto elim!: insert_idem_frame\<close>)
  next
    fix region dns
    assume s: "select_region rg d = Inr (region, d)"
      and r: "allocate_assignment env cd u dv (tunnel_operation dv) rg k region dns d = Inr (((c, True), i, m), d')"
    show ?thesis
    proof (rule allocate_assignment_Inr [OF r])
      fix g u4 u6 ipv4 ipv6 le d1 asg d2 c' body
      assume a: "select_gateway rg d = Inr (g, d)" "activeAddresses env rg d = Inr (u4, u6)"
          "firstAvailableAddress (r_v4pool region) u4 = Inr ipv4"
          "firstAvailableAddress (r_v6pool region) u6 = Inr ipv6"
          "insert_lease env rg dv (addr_string ipv4 @ ''/32'') (addr_string ipv6 @ ''/128'') d = Inr (le, d1)"
          "insert_assignment env dv (g_id g) le (go_now env + 24 * hour) d1 = Inr (asg, d2)"
        and c': "c' = make_configuration asg g (addr_string ipv4 @ ''/32'') (addr_string ipv6 @ ''/128'') dns
            (go_now env + 24 * hour)" "(c, True) = (c', True)"
        and i: "insert_idem env u (tunnel_operation dv) (sha cd k) (sha cd rg) 201 body (go_now env + 24 * hour) d2 =
            Inr ((), d')"
      from i have "t_leases d' = t_leases d2" "t_assignments d' = t_assignments d2"
        by (auto elim!: insert_idem_frame)
      then show ?thesis by (rule that [OF s a]) (use c' in \<open>simp_all add: make_configuration_def\<close>)
    qed
  qed
qed simp_all

text \<open>
  C5: A new configuration, unless it repeats the live lease of the device, allocates one lease
  and one assignment: the device is active and belongs to the caller, the region is available,
  the gateway is ready, has room and is the least loaded such gateway, the two addresses are
  the least host addresses of the pools of the region that no lease in use has, the lease
  holds what PostgreSQL reads from their texts, and the answer names them, the gateway's key
  and its endpoint.
\<close>

theorem store_allocates_from_pools:
  assumes "db_inv cast d" and "env_ok cast env" and "prints_back env d"
    and "Store_CreateTunnelConfiguration env cd u dv rg k d = (Inr (c, True), d')"
    and "t_leases d' \<noteq> t_leases d"
  shows "\<exists>r region g l pa p4 p6 ipv4 ipv6.
       r \<in> set (t_devices d) \<and> cast dv = Some (d_id r) \<and> cast u = Some (d_user r) \<and> d_state r = DeviceActive
     \<and> region \<in> set (t_regions d) \<and> r_id region = rg \<and> r_available region
     \<and> g \<in> set (t_gateways d) \<and> g_region g = rg \<and> g_state g = GwReady \<and> live_count d (g_id g) < g_capacity g
     \<and> (\<forall>g'\<in>set (t_gateways d). g_region g' = rg \<and> g_state g' = GwReady \<and> live_count d (g_id g') < g_capacity g'
          \<longrightarrow> live_count d (g_id g) \<le> live_count d (g_id g'))
     \<and> t_leases d' = t_leases d @ [l] \<and> t_assignments d' = t_assignments d @ [pa]
     \<and> l_device l = d_id r \<and> l_region l = rg \<and> held l
     \<and> a_device pa = d_id r \<and> a_gateway pa = g_id g \<and> a_lease pa = l_id l \<and> a_state pa = AsgPending
     \<and> parsePrefix (r_v4pool region) = Some p4 \<and> parsePrefix (r_v6pool region) = Some p6
     \<and> host_of p4 ipv4 \<and> ipv4 \<notin> l_v4 ` set (active_leases d rg)
     \<and> (\<forall>a. host_of p4 a \<and> addr_nat a < addr_nat ipv4 \<longrightarrow> a \<in> l_v4 ` set (active_leases d rg))
     \<and> host_of p6 ipv6 \<and> ipv6 \<notin> l_v6 ` set (active_leases d rg)
     \<and> (\<forall>a. host_of p6 a \<and> addr_nat a < addr_nat ipv6 \<longrightarrow> a \<in> l_v6 ` set (active_leases d rg))
     \<and> tc_Addresses c = [addr_string ipv4 @ ''/32'', addr_string ipv6 @ ''/128'']
     \<and> cast_inet env (addr_string ipv4 @ ''/32'') = Some (l_v4 l)
     \<and> cast_inet env (addr_string ipv6 @ ''/128'') = Some (l_v6 l)
     \<and> tc_ServerPublicKey c = g_key g \<and> tc_Endpoint c = joinHostPort (g_host g) (itoa (g_port g))
     \<and> tc_AssignmentID c = a_id pa"
proof (rule fresh_allocation [OF assms(4,5)])
  fix region g u4 u6 ipv4 ipv6 le d1 asg d2
  assume s: "select_region rg d = Inr (region, d)" and g: "select_gateway rg d = Inr (g, d)"
    and act: "activeAddresses env rg d = Inr (u4, u6)"
    and f4: "firstAvailableAddress (r_v4pool region) u4 = Inr ipv4"
    and f6: "firstAvailableAddress (r_v6pool region) u6 = Inr ipv6"
    and il: "insert_lease env rg dv (addr_string ipv4 @ ''/32'') (addr_string ipv6 @ ''/128'') d = Inr (le, d1)"
    and ia: "insert_assignment env dv (g_id g) le (go_now env + 24 * hour) d1 = Inr (asg, d2)"
    and rows: "t_leases d' = t_leases d2" "t_assignments d' = t_assignments d2"
    and c: "tc_Addresses c = [addr_string ipv4 @ ''/32'', addr_string ipv6 @ ''/128'']"
      "tc_ServerPublicKey c = g_key g" "tc_Endpoint c = joinHostPort (g_host g) (itoa (g_port g))"
      "tc_AssignmentID c = asg"
  note i = db_invD [OF assms(1)] and e = env_okD [OF assms(2)]
  obtain r where r: "r \<in> set (t_devices d)" "cast dv = Some (d_id r)" "cast u = Some (d_user r)" "d_state r = DeviceActive"
    using assms(4)
  proof (cases rule: Store_CreateTunnelConfiguration_cases)
    case (committed x i m)
    then show ?thesis by - (erule tunnel_body_device, rule that, auto simp: e(1))
  qed simp_all
  from s have region: "region \<in> set (t_regions d)" "r_id region = rg" "r_available region"
    by (auto simp: select_region_def split: option.splits dest: find_Some_mem)
  note gw = select_gateway_Inr [OF g]
  have gwi: "cast (g_id g) = Some (g_id g)" using i(6) gw(1) by (simp add: gateways_inv_def)
  note used = activeAddresses_Inr [OF assms(3) act]
  obtain p4 where p4: "parsePrefix (r_v4pool region) = Some p4" "host_of p4 ipv4" "ipv4 \<notin> u4"
    "\<And>b. host_of p4 b \<Longrightarrow> addr_nat b < addr_nat ipv4 \<Longrightarrow> b \<in> u4" by (rule firstAvailableAddress_Inr [OF f4]) blast
  obtain p6 where p6: "parsePrefix (r_v6pool region) = Some p6" "host_of p6 ipv6" "ipv6 \<notin> u6"
    "\<And>b. host_of p6 b \<Longrightarrow> addr_nat b < addr_nat ipv6 \<Longrightarrow> b \<in> u6" by (rule firstAvailableAddress_Inr [OF f6]) blast
  obtain l where l: "d1 = d\<lparr>t_leases := t_leases d @ [l]\<rparr>" "le = l_id l" "held l" "l_region l = rg"
    "cast dv = Some (l_device l)" "cast_inet env (addr_string ipv4 @ ''/32'') = Some (l_v4 l)"
    "cast_inet env (addr_string ipv6 @ ''/128'') = Some (l_v6 l)" "l_id l = new_id env 0"
    by (rule insert_lease_Inr [OF il]) (simp add: e(1))
  obtain pa where pa: "d2 = d1\<lparr>t_assignments := t_assignments d1 @ [pa]\<rparr>" "asg = a_id pa"
    "cast dv = Some (a_device pa)" "a_gateway pa = g_id g" "cast le = Some (a_lease pa)" "a_state pa = AsgPending"
    by (rule insert_assignment_Inr [OF ia]) (simp add: e(1) gwi)
  have "t_leases d' = t_leases d @ [l]" "t_assignments d' = t_assignments d @ [pa]" "a_lease pa = l_id l"
    "l_device l = d_id r" "a_device pa = d_id r"
    using rows l pa r(2) e(2) [of 0] by simp_all
  with r region gw used p4 p6 l(3,4,6,7) pa(2,4,6) c select_gateway_least [OF g]
  show ?thesis
    by (intro exI [of _ r] exI [of _ region] exI [of _ g] exI [of _ l] exI [of _ pa] exI [of _ p4] exI [of _ p6]
      exI [of _ ipv4] exI [of _ ipv6]) simp
qed

theorem store_allocates_from_pools_witness:
  "\<exists>g l. g \<in> set (t_gateways sample_db) \<and> g_state g = GwReady
     \<and> live_count sample_db (g_id g) < g_capacity g \<and> t_leases sample_db1 = t_leases sample_db @ [l]
     \<and> tc_ServerPublicKey sample_answer = g_key g"
proof -
  have "prints_back (sample_env ''t'') sample_db" "t_leases sample_db1 \<noteq> t_leases sample_db"
    by (simp_all add: prints_back_def sample_db_def sample_db1_def empty_db_def)
  moreover have "env_ok sample_cast (sample_env ''t'')" by (simp add: sample_env_ok)
  ultimately show ?thesis
    using store_allocates_from_pools [OF sample_db_inv _ _ sample_allocation] by blast
qed

section \<open>Repetition, revocation, lost commits\<close>

lemma answered_conflict:
  assumes "tunnel_body env cd u dv rg k d = Inr (((c, cr), i, m), d')"
    and "cast_uuid env' = cast_uuid env" "no_fault env'" "sha cd rg' \<noteq> sha cd rg"
    and "trimSpace u \<noteq> ''''" "trimSpace dv \<noteq> ''''" "trimSpace rg' \<noteq> ''''" "16 \<le> length k" "length k \<le> 128"
  shows "Store_CreateTunnelConfiguration env' cd u dv rg' k d' = (Inl ErrConflict, d')"
proof -
  note a = tunnel_body_answered [OF assms(1)]
  obtain r where r: "select_device env u dv d = Inr (r, d)" "d_state r = DeviceActive"
    by (rule tunnel_body_select [OF assms(1)])
  with a assms(2) have s: "select_device env' u dv d' = Inr (r, d')"
    by (auto simp: select_device_def split: option.splits)
  from a obtain kr where kr: "select_idem env u (tunnel_operation dv) (sha cd k) d' = Inr (kr, d')"
    "k_request kr = sha cd rg" unfolding answered_def by blast
  have "select_idem env' u (tunnel_operation dv) (sha cd k) d' = Inr (kr, d')"
    using kr(1) assms(2) by (simp only: select_idem_def)
  with s r(2) kr(2) assms(3-9) show ?thesis
    by (simp add: Store_CreateTunnelConfiguration_def run_tx_def tunnel_body_def attempt_def no_faultD replay_answer_def)
qed

text \<open>
  C6: A request that was answered is answered the same way again: with the same key the store
  returns the first configuration, marked as not newly created, and changes nothing, whatever
  the clocks and the generated ids, however often it is asked. The same key with another
  region (one with another request hash) is refused as a conflict and changes nothing either.
\<close>

theorem store_replays_answer:
  assumes "distinct_devices d" and "json_faithful jsonb cd c"
    and "Store_CreateTunnelConfiguration (pg_env cast jsonb env) cd u dv rg k d = (Inr (c, cr), d')"
    and "\<forall>e\<in>set envs. no_fault e"
  shows "foldl (\<lambda>(rs, s) e. case Store_CreateTunnelConfiguration (pg_env cast jsonb e) cd u dv rg k s of
           (r, s') \<Rightarrow> (rs @ [r], s')) ([], d') envs = (map (\<lambda>_. Inr (c, False)) envs, d')
     \<and> (\<forall>e\<in>set envs. \<forall>rg'. trimSpace rg' \<noteq> '''' \<and> sha cd rg' \<noteq> sha cd rg \<longrightarrow>
          Store_CreateTunnelConfiguration (pg_env cast jsonb e) cd u dv rg' k d' = (Inl ErrConflict, d'))"
proof (intro conjI ballI allI impI)
  show "foldl (\<lambda>(rs, s) e. case Store_CreateTunnelConfiguration (pg_env cast jsonb e) cd u dv rg k s of
           (r, s') \<Rightarrow> (rs @ [r], s')) ([], d') envs = (map (\<lambda>_. Inr (c, False)) envs, d')"
    using pg_devices.configure_replays [where cast = cast and jsonb = jsonb and cd = cd and s = d and e = env
        and u = u and d = dv and rg = rg and k = k and c = c and cr = cr and s' = d' and es = envs] assms
    by (simp add: pg_device_ops_def)
next
  fix e rg' assume e: "e \<in> set envs" and rg': "trimSpace rg' \<noteq> '''' \<and> sha cd rg' \<noteq> sha cd rg"
  from assms(3) obtain i m where b: "tunnel_body (pg_env cast jsonb env) cd u dv rg k d = Inr (((c, cr), i, m), d')"
    by (cases rule: Store_CreateTunnelConfiguration_cases) auto
  note g = create_tunnel_guards [OF assms(3) disjI2, simplified is_ok.simps, OF TrueI]
  from assms(4) e have e': "no_fault (pg_env cast jsonb e)" by simp
  show "Store_CreateTunnelConfiguration (pg_env cast jsonb e) cd u dv rg' k d' = (Inl ErrConflict, d')"
    by (rule answered_conflict [OF b _ e' conjunct2 [OF rg']])
      (use g rg' in simp_all)
qed

lemma sample_pg_env: "pg_env sample_cast Some (sample_env t) = sample_env t"
  by (simp add: pg_env_def sample_env_def)

lemma sample_faithful: "json_faithful Some sample_codec sample_answer"
  by (simp add: json_faithful_def sample_codec_def)

theorem store_replays_answer_witness:
  "Store_CreateTunnelConfiguration (sample_env ''z'') sample_codec ''alice'' ''dev1'' ''pt-lis'' sample_idem_key sample_db1 =
     (Inr (sample_answer, False), sample_db1)
   \<and> Store_CreateTunnelConfiguration (sample_env ''z'') sample_codec ''alice'' ''dev1'' ''es-mad'' sample_idem_key sample_db1 =
     (Inl ErrConflict, sample_db1)"
proof -
  have a: "Store_CreateTunnelConfiguration (pg_env sample_cast Some (sample_env ''t'')) sample_codec ''alice'' ''dev1''
      ''pt-lis'' sample_idem_key sample_db = (Inr (sample_answer, True), sample_db1)"
    unfolding sample_pg_env by (rule sample_allocation)
  have other: "trimSpace ''es-mad'' \<noteq> ''''" "sha sample_codec ''es-mad'' \<noteq> sha sample_codec ''pt-lis''"
    by (code_simp, simp add: sample_codec_def)
  have "distinct_devices sample_db" using sample_db_inv by (simp add: db_inv_def devices_inv_def)
  from store_replays_answer [OF this sample_faithful a, of "[sample_env ''z'']"] other show ?thesis
    by (simp add: sample_pg_env sample_no_fault split: prod.splits)
qed

text \<open>A device is never deleted, and nothing of it changes but its stage, which only moves on.\<close>

definition device_moved :: "device_row \<Rightarrow> device_row \<Rightarrow> bool" where
  "device_moved r r' \<longleftrightarrow> r' = r\<lparr>d_state := d_state r', d_revoked := d_revoked r'\<rparr> \<and> d_state r \<le> d_state r'"

definition devices_kept :: "db \<Rightarrow> db \<Rightarrow> bool" where
  "devices_kept d d' \<longleftrightarrow> (\<forall>r\<in>set (t_devices d). \<exists>r'\<in>set (t_devices d'). device_moved r r')"

lemma device_moved_refl: "device_moved r r"
  by (simp add: device_moved_def)

lemma device_moved_trans: "device_moved r r1 \<Longrightarrow> device_moved r1 r2 \<Longrightarrow> device_moved r r2"
  unfolding device_moved_def by (cases r; cases r1; cases r2) auto

lemma device_movedD: "device_moved r r' \<Longrightarrow> d_id r' = d_id r \<and> (d_state r \<noteq> DeviceActive \<longrightarrow> d_state r' \<noteq> DeviceActive)"
  unfolding device_moved_def by (cases r; cases r') auto

lemma devices_kept_map:
  assumes "t_devices d' = map f (t_devices d)" "\<And>r. device_moved r (f r)"
  shows "devices_kept d d'"
  using assms by (auto simp: devices_kept_def)

lemma devices_kept_same: "t_devices d' = t_devices d \<Longrightarrow> devices_kept d d'"
  by (rule devices_kept_map [where f = "\<lambda>r. r"]) (simp_all add: device_moved_refl)

lemma devices_kept_trans: "devices_kept d d1 \<Longrightarrow> devices_kept d1 d2 \<Longrightarrow> devices_kept d d2"
  unfolding devices_kept_def using device_moved_trans by meson

lemma store_step_devices:
  assumes "store_step cast d d'" "db_inv cast d"
  shows "devices_kept d d'"
  using assms(1)
proof (cases rule: store_step_cases)
  case (device env u n p k x)
  then obtain r where "t_devices d' = t_devices d @ [r]"
    by (auto simp: insert_device_def Let_def split: option.splits if_splits)
  then show ?thesis by (auto simp: devices_kept_def intro: device_moved_refl)
next
  case (revoked env u i x)
  then obtain ow dv where "d' = d\<lparr>t_devices := map (revoke_row ow dv) (t_devices d)\<rparr>"
    by (auto simp: update_revocation_def split: option.splits if_splits)
  then have "t_devices d' = map (revoke_row ow dv) (t_devices d)" by simp
  then show ?thesis by (rule devices_kept_map) (auto simp: revoke_row_def device_moved_def)
next
  case (tunnel env cd u dv rg k x)
  then show ?thesis
    using tunnel_body_answered [of env cd u dv rg k d "fst (fst x)" "snd (fst x)" "fst (snd x)" "snd (snd x)" d']
    by (auto intro!: devices_kept_same)
next
  case (claimed env g x i c)
  show ?thesis
    by (rule claim_body_Inr [OF db_invD(8) [OF assms(2)] env_okD(1) [OF claimed(1)] claimed(2)])
      (auto intro!: devices_kept_same)
next
  case (confirmed env g n x i c)
  show ?thesis
  proof (rule confirm_body_Inr [OF confirmed(2)])
    fix gateway d1 d2 assume "d1 = d\<lparr>t_assignments := map (confirm_row gateway n) (t_assignments d)\<rparr>"
      "d2 = d1\<lparr>t_leases := map (release_row env gateway d1) (t_leases d1)\<rparr>"
      "d' = d2\<lparr>t_devices := map (end_revocation env gateway d2) (t_devices d2)\<rparr>"
    then have "t_devices d' = map (end_revocation env gateway d2) (t_devices d)" by simp
    then show ?thesis by (rule devices_kept_map) (auto simp: end_revocation_def device_moved_def)
  qed
qed (auto simp: insert_user_def insert_snapshot_def update_acked_def update_failed_def update_snapshots_def
    split: if_splits option.splits intro!: devices_kept_same)

lemma store_reachable_devices:
  assumes "store_reachable cast d d'" "db_inv cast d"
  shows "devices_kept d d'"
  using assms
proof (induction rule: store_reachable.induct)
  case (step d d1 d2)
  then show ?case using store_step_devices store_reachable_inv devices_kept_trans by blast
qed (simp add: devices_kept_same)



text \<open>
  C7: A revocation is final. Once the store accepted it, no later state, whatever operations
  run and fail in between, gives out a configuration for the device, to anybody: the request
  is refused and changes nothing.
\<close>

theorem store_revocation_is_final:
  assumes "db_inv cast d" and "env_ok cast env"
    and "Store_RequestRevocation env u i d = (Inr (), d1)" and "store_reachable cast d1 d2"
    and "cast_uuid env' = cast" and "no_fault env'"
  shows "\<exists>err. Store_CreateTunnelConfiguration env' cd u' i rg k d2 = (Inl err, d2)"
proof -
  have i1: "db_inv cast d1"
    using store_step_inv [OF revoke_device [OF assms(2), of d u i] assms(1)] assms(3) by simp
  note i2 = store_reachable_inv [OF assms(4) i1]
  from assms(3) obtain r where r: "r \<in> set (t_devices d1)" "cast i = Some (d_id r)" "d_state r \<noteq> DeviceActive"
  proof (cases rule: Store_RequestRevocation_cases)
    case (marked ow dv)
    then obtain r0 where "r0 \<in> set (t_devices d)" "d_id r0 = dv" "d_user r0 = ow" by blast
    with marked show ?thesis
      by (intro that [of "revoke_row ow dv r0"]) (auto simp: env_okD(1) [OF assms(2)] revoke_row_def)
  qed simp
  from store_reachable_devices [OF assms(4) i1] r obtain r2 where r2: "r2 \<in> set (t_devices d2)"
    "d_id r2 = d_id r" "d_state r2 \<noteq> DeviceActive" unfolding devices_kept_def using device_movedD by metis
  have no: "tunnel_body env' cd u' i rg k d2 \<noteq> Inr (x, d3)" for x d3
  proof
    assume "tunnel_body env' cd u' i rg k d2 = Inr (x, d3)"
    then show False
    proof (rule tunnel_body_device)
      fix device owner r3
      assume a: "cast_uuid env' i = Some device" "r3 \<in> set (t_devices d2)" "d_id r3 = device" "d_state r3 = DeviceActive"
      with assms(5) r(2) r2(2) have "d_id r3 = d_id r2" by simp
      with a(2) r2(1) have "r3 = r2"
        using distinct_map_inj_unique [of d_id "t_devices d2"] db_invD(2) [OF i2] by (simp add: devices_inv_def)
      with a(4) r2(3) show False by simp
    qed
  qed
  obtain res d3 where c: "Store_CreateTunnelConfiguration env' cd u' i rg k d2 = (res, d3)" by fastforce
  from c show ?thesis
    by (cases rule: Store_CreateTunnelConfiguration_cases) (use c no in auto)
qed

theorem store_revocation_is_final_witness:
  "\<exists>d1 err. Store_RequestRevocation (sample_env ''t'') ''alice'' ''dev1'' sample_db = (Inr (), d1)
     \<and> Store_CreateTunnelConfiguration (sample_env ''t'') sample_codec ''alice'' ''dev1'' ''pt-lis''
          sample_idem_key d1 = (Inl err, d1)"
proof -
  have e: "env_ok sample_cast (sample_env ''t'')" by (simp add: sample_env_ok)
  have "\<exists>d1. Store_RequestRevocation (sample_env ''t'') ''alice'' ''dev1'' sample_db = (Inr (), d1)"
    by (simp add: Store_RequestRevocation_def autocommit_def update_revocation_def sample_env_def
        sample_cast_def sample_db_def empty_db_def sample_device_row_def)
  then obtain d1 where r: "Store_RequestRevocation (sample_env ''t'') ''alice'' ''dev1'' sample_db = (Inr (), d1)"
    by blast
  from store_revocation_is_final [OF sample_db_inv e r store_reachable.start env_okD(1) [OF e] sample_no_fault] r
  show ?thesis by blast
qed

text \<open>The commit of an allocation is one call of the operation; the statements before it do not see its fault.\<close>

definition commit_kept :: "db_env \<Rightarrow> nat \<Rightarrow> db_env" where
  "commit_kept env i = env\<lparr>fault := (fault env)(i := None)\<rparr>"

lemma fault_commit_kept [simp]: "fault (commit_kept env i) = (fault env)(i := None)"
  by (simp add: commit_kept_def)

lemma commit_kept_simps [simp]:
  "cast_uuid (commit_kept env i) = cast_uuid env"
  "cast_inet (commit_kept env i) = cast_inet env" "cast_jsonb (commit_kept env i) = cast_jsonb env"
  "new_id (commit_kept env i) = new_id env" "go_now (commit_kept env i) = go_now env"
  "db_now (commit_kept env i) = db_now env" "host_text (commit_kept env i) = host_text env"
  by (simp_all add: commit_kept_def)

lemma tunnel_body_commit:
  assumes "i \<in> {8, 15}"
  shows "tunnel_body (commit_kept env i) cd u dv rg k d = tunnel_body env cd u dv rg k d"
proof -
  let ?f = "\<lambda>j. fault (commit_kept env i) j = fault env j"
  have f: "?f 1" "?f 2" "?f 4" "?f 5" "?f 6" "?f 7" "?f 9" "?f 10" "?f 11" "?f 12" "?f 13" "?f 14"
    using assms by auto
  have q: "select_device (commit_kept env i) = select_device env" "select_idem (commit_kept env i) = select_idem env"
    "select_existing (commit_kept env i) = select_existing env" "insert_idem (commit_kept env i) = insert_idem env"
    "insert_lease (commit_kept env i) = insert_lease env" "insert_assignment (commit_kept env i) = insert_assignment env"
    "activeAddresses (commit_kept env i) = activeAddresses env"
    unfolding fun_eq_iff store_statement_defs activeAddresses_def attempt_def f commit_kept_simps by simp_all
  show ?thesis
    unfolding tunnel_body_def reuse_assignment_def allocate_assignment_def attempt_def f q commit_kept_simps ..
qed

lemma commits_of_change:
  assumes "tunnel_body env cd u dv rg k d = Inr (((c, cr), i, m), d')" "d' \<noteq> d"
  shows "cr \<and> i \<in> {8, 15}"
  using assms(1)
proof (rule tunnel_body_cases)
  fix kr assume "replay_answer cd rg kr d = Inr (((c, cr), i, m), d')"
  with assms(2) show ?thesis by (auto simp: replay_answer_def split: if_splits sum.splits)
next
  fix region row dns
  assume "reuse_assignment env cd u (tunnel_operation dv) rg k dns row d = Inr (((c, cr), i, m), d')"
  then show ?thesis by (auto simp: reuse_assignment_def Let_def split: prod.splits if_splits sum.splits)
next
  fix region dns
  assume "allocate_assignment env cd u dv (tunnel_operation dv) rg k region dns d = Inr (((c, cr), i, m), d')"
  then show ?thesis by (auto simp: allocate_assignment_def Let_def split: prod.splits if_splits sum.splits)
qed

text \<open>
  C9: A request that fails changes nothing, unless the commit took effect and only its outcome was
  lost. Then the store is in exactly the state, and holds exactly the configuration, that the
  request would have answered had the outcome of that one commit arrived; and asking again with
  the same key returns this configuration, without a second allocation and without any change.
\<close>

theorem store_lost_commit_recovered:
  assumes "Store_CreateTunnelConfiguration (pg_env cast jsonb env) cd u dv rg k d = (Inl err, d')"
    and "d' \<noteq> d"
  shows "\<exists>c i e. fault env i = Some (e, True) \<and> i \<in> {8, 15}
     \<and> Store_CreateTunnelConfiguration (commit_kept (pg_env cast jsonb env) i) cd u dv rg k d = (Inr (c, True), d')
     \<and> (\<forall>env'. json_faithful jsonb cd c \<and> no_fault env' \<longrightarrow>
          Store_CreateTunnelConfiguration (pg_env cast jsonb env') cd u dv rg k d' = (Inr (c, False), d'))"
proof -
  note g = create_tunnel_guards [OF assms(1) disjI1 [OF assms(2)]]
  let ?body = "tunnel_body (pg_env cast jsonb env) cd u dv rg k"
  have r: "run_tx (pg_env cast jsonb env) ''begin allocation transaction'' ?body d = (Inl err, d')"
    using assms(1) g by (simp add: Store_CreateTunnelConfiguration_def)
  with assms(2) obtain y i m e where b: "?body d = Inr ((y, i, m), d')" and f: "fault env i = Some (e, True)"
    and start: "fault env 0 = None"
    by (auto simp: run_tx_def split: option.splits sum.splits prod.splits if_splits)
  obtain c cr where y: "y = (c, cr)" by (cases y)
  have i: "cr \<and> i \<in> {8, 15}" using commits_of_change [OF b [unfolded y] assms(2)] .
  have "Store_CreateTunnelConfiguration (commit_kept (pg_env cast jsonb env) i) cd u dv rg k d = (Inr (c, True), d')"
    using tunnel_body_commit [OF conjunct2 [OF i], of "pg_env cast jsonb env" cd u dv rg k d] b y i g start
    by (auto simp: Store_CreateTunnelConfiguration_def run_tx_def)
  moreover have "Store_CreateTunnelConfiguration (pg_env cast jsonb env') cd u dv rg k d' = (Inr (c, False), d')"
    if "json_faithful jsonb cd c" "no_fault env'" for env'
    by (rule create_tunnel_replay [OF b [unfolded y] _ _ _ g]) (use that in simp_all)
  ultimately show ?thesis using f i by blast
qed

definition losing_env :: db_env where
  "losing_env = (sample_env ''t'')\<lparr>fault := \<lambda>i. if i = 15 then Some (DbFailure ''connection lost'', True) else None\<rparr>"

lemma losing_allocation:
  "Store_CreateTunnelConfiguration losing_env sample_codec ''alice'' ''dev1'' ''pt-lis'' sample_idem_key sample_db =
     (Inl (Wrapped ''commit tunnel allocation'' (ErrText ''connection lost'')), sample_db1)"
proof -
  have "tunnel_body losing_env sample_codec ''alice'' ''dev1'' ''pt-lis'' sample_idem_key sample_db =
     Inr (((sample_answer, True), 15, ''commit tunnel allocation''), sample_db1)"
    by (simp add: losing_env_def tunnel_body_def allocate_assignment_def store_statement_defs sample_defs
        sample_addresses timestamp_def Let_def)
  then show ?thesis
    by (simp add: Store_CreateTunnelConfiguration_def sample_spaces run_tx_def)
      (simp add: losing_env_def sample_env_def db_message_def)
qed

theorem store_lost_commit_recovered_witness:
  "sample_db1 \<noteq> sample_db
   \<and> Store_CreateTunnelConfiguration losing_env sample_codec ''alice'' ''dev1'' ''pt-lis'' sample_idem_key sample_db =
       (Inl (Wrapped ''commit tunnel allocation'' (ErrText ''connection lost'')), sample_db1)
   \<and> Store_CreateTunnelConfiguration (sample_env ''z'') sample_codec ''alice'' ''dev1'' ''pt-lis'' sample_idem_key sample_db1
       = (Inr (sample_answer, False), sample_db1)"
proof -
  have n: "sample_db1 \<noteq> sample_db" by (simp add: sample_db1_def sample_db_def empty_db_def)
  have le: "pg_env sample_cast Some losing_env = losing_env" by (simp add: pg_env_def losing_env_def sample_env_def)
  have lost: "Store_CreateTunnelConfiguration (pg_env sample_cast Some losing_env) sample_codec ''alice'' ''dev1'' ''pt-lis''
      sample_idem_key sample_db = (Inl (Wrapped ''commit tunnel allocation'' (ErrText ''connection lost'')), sample_db1)"
    unfolding le by (rule losing_allocation)
  from store_lost_commit_recovered [OF lost n] obtain c i e
    where f: "fault losing_env i = Some (e, True)"
    and a: "Store_CreateTunnelConfiguration (commit_kept (pg_env sample_cast Some losing_env) i) sample_codec ''alice'' ''dev1'' ''pt-lis''
        sample_idem_key sample_db = (Inr (c, True), sample_db1)"
    and b: "\<forall>env'. json_faithful Some sample_codec c \<and> no_fault env' \<longrightarrow>
      Store_CreateTunnelConfiguration (pg_env sample_cast Some env') sample_codec ''alice'' ''dev1'' ''pt-lis''
        sample_idem_key sample_db1 = (Inr (c, False), sample_db1)" by blast
  from f have "i = 15" by (auto simp: losing_env_def split: if_splits)
  then have "commit_kept losing_env i = sample_env ''t''"
    by (auto simp: commit_kept_def losing_env_def sample_env_def fun_eq_iff)
  with a [unfolded le] sample_allocation have "c = sample_answer" by simp
  with b sample_faithful sample_no_fault [of "''z''"] n losing_allocation show ?thesis by (metis sample_pg_env)
qed

section \<open>Accounts\<close>

text \<open>
  C29: Who registered can log in. After a registration in PostgreSQL, a login with the password
  and any spelling of the address with the same normal form issues tokens for the registered
  user id, another password logs in only if Argon2 collides, and the address cannot be
  registered again.
\<close>

theorem registered_user_logs_in:
  assumes "key_length IDKey" and "length salt = argonSaltLen"
    and "Register pg_user_ops IDKey ulow env (Inr salt) email password s = (Inr uid, s')"
    and "\<forall>i. new_id env i \<noteq> ''''" and "no_fault env'"
    and "normalizeEmail ulow email' = normalizeEmail ulow email"
  shows "Login pg_user_ops IDKey digest ulow env' rand now email' password s' =
       (let (r, t) = Issue digest rand now uid (svc_sessions s') in (r, s'\<lparr>svc_sessions := t\<rparr>))
     \<and> (\<forall>other. IDKey other salt 3 65536 4 32 \<noteq> IDKey password salt 3 65536 4 32 \<longrightarrow>
          Login pg_user_ops IDKey digest ulow env' rand now email' other s' = (Inl ErrInvalidCredentials, s'))
     \<and> (\<forall>salt2 other. \<exists>err. Register pg_user_ops IDKey ulow env' salt2 email' other s' = (Inl err, s'))"
proof -
  obtain n h where n: "normalizeEmail ulow email = Inr n" and h: "HashPassword IDKey (Inr salt) password = Inr h"
    and a: "pg_account (svc_users s') n = Some (uid, h, False)"
    by (rule pg_users.register_ok [OF TrueI assms(4,3)])
  note n' = n [folded assms(6)]
  have v: "VerifyPassword IDKey other h \<longleftrightarrow>
      IDKey other salt 3 65536 4 32 = IDKey password salt 3 65536 4 32" for other
    using verify_hash [OF assms(1) h] assms(2) by (simp add: argonSaltLen_def)
  have f: "us_FindUserPasswordHash pg_user_ops env' n (svc_users s') = Inr (uid, h, False)"
    by (rule pg_users.find_good [OF TrueI assms(5) _ a]) (use normalizeEmail_Inr(1) [OF n] in auto)
  have "Login pg_user_ops IDKey digest ulow env' rand now email' password s' =
      (let (r, t) = Issue digest rand now uid (svc_sessions s') in (r, s'\<lparr>svc_sessions := t\<rparr>))"
    by (rule pg_users.login_registered [OF TrueI assms(5) n' a]) (simp add: v)
  moreover have "\<exists>err. Register pg_user_ops IDKey ulow env' salt2 email' other s' = (Inl err, s')" for salt2 other
    by (rule pg_users.register_taken [OF TrueI assms(5) n']) (simp add: a)
  ultimately show ?thesis using n' f v by (simp add: Login_def)
qed

theorem registered_user_logs_in_witness:
  "\<exists>s'. Register pg_user_ops toy_argon2 (\<lambda>x. x) (env_of_id ''alice'') (Inr (replicate 16 CHR ''s''))
       '' Alice@Example.com '' ''correct horse battery'' (NewAuthService empty_db None) = (Inr ''alice'', s')
     \<and> Login pg_user_ops toy_argon2 sample_sha (\<lambda>x. x) (sample_env ''t'') (sample_rand 0) 1000
         '' Alice@Example.com '' ''incorrect horse battery'' s' = (Inl ErrInvalidCredentials, s')"
proof -
  obtain h where h: "HashPassword toy_argon2 (Inr (replicate 16 CHR ''s'')) ''correct horse battery'' = Inr h"
    by (simp add: HashPassword_def)
  have "\<exists>d. CreateUser (env_of_id ''alice'') ''alice@example.com'' h empty_db = (Inr ''alice'', d)"
    by (simp add: CreateUser_def autocommit_def insert_user_def email_ok_def env_of_id_def sample_env_def
        empty_db_def sample_texts)
  then obtain s' where r: "Register pg_user_ops toy_argon2 (\<lambda>x. x) (env_of_id ''alice'') (Inr (replicate 16 CHR ''s''))
       '' Alice@Example.com '' ''correct horse battery'' (NewAuthService empty_db None) = (Inr ''alice'', s')"
    by (auto simp: Register_def sample_normalize h pg_user_ops_def NewAuthService_def)
  have i: "\<forall>i. new_id (env_of_id ''alice'') i \<noteq> ''''" by (simp add: env_of_id_def)
  have "toy_argon2 ''incorrect horse battery'' (replicate 16 CHR ''s'') 3 65536 4 32
      \<noteq> toy_argon2 ''correct horse battery'' (replicate 16 CHR ''s'') 3 65536 4 32"
    by (simp add: toy_argon2_def)
  with registered_user_logs_in [OF toy_argon2_length _ r i sample_no_fault [of "''t''"] refl,
      where digest = sample_sha and rand = "sample_rand 0" and now = 1000] r
  show ?thesis by (auto simp: argonSaltLen_def)
qed

end
