(* ===== verification/Outbox_Facts.thy ===== *)
theory Outbox_Facts
  imports Store_Samples
begin

text \<open>
  The properties of the snapshot outbox: the life cycle of a delivery as an inductive relation
  that every operation of the store follows, which delivery a claim gives, and what the
  confirmation of a generation does, and does not, establish.
\<close>

section \<open>The life cycle of a delivery\<close>

inductive snapshot_move :: "snapshot_row \<Rightarrow> snapshot_row \<Rightarrow> bool" where
  stay: "snapshot_move gs gs"
| send: "s_state gs \<in> {SnapQueued, SnapFailed} \<Longrightarrow> s_attempts gs < 100 \<Longrightarrow>
    snapshot_move gs (gs\<lparr>s_state := SnapInFlight, s_attempts := s_attempts gs + 1, s_sent := Some t\<rparr>)"
| acknowledge: "s_state gs = SnapInFlight \<Longrightarrow>
    snapshot_move gs (gs\<lparr>s_state := SnapAcked, s_acked := Some t\<rparr>)"
| postpone: "s_state gs = SnapInFlight \<Longrightarrow>
    snapshot_move gs (gs\<lparr>s_state := SnapFailed, s_available := t, s_error := Some reason\<rparr>)"

declare stay [simp, intro]

inductive_cases snapshot_moveE: "snapshot_move gs gs'"

text \<open>What a delivery carries never changes.\<close>

lemma snapshot_move_frame:
  assumes "snapshot_move gs gs'"
  shows "s_id gs' = s_id gs" "s_gateway gs' = s_gateway gs" "s_generation gs' = s_generation gs"
    "s_payload gs' = s_payload gs" "s_signature gs' = s_signature gs" "s_attempts gs \<le> s_attempts gs'"
    "s_state gs = SnapAcked \<Longrightarrow> gs' = gs"
  using assms by (auto elim: snapshot_moveE)

text \<open>Every delivery of the outbox makes such a move, and what is added is queued and not yet sent.\<close>

definition outbox_moves :: "db \<Rightarrow> db \<Rightarrow> bool" where
  "outbox_moves d d' \<longleftrightarrow> (\<exists>rows new. t_snapshots d' = rows @ new \<and> list_all2 snapshot_move (t_snapshots d) rows
     \<and> (\<forall>gs\<in>set new. s_state gs = SnapQueued \<and> s_attempts gs = 0))"

lemma outbox_append:
  assumes "t_snapshots d' = t_snapshots d @ new" "\<forall>gs\<in>set new. s_state gs = SnapQueued \<and> s_attempts gs = 0"
  shows "outbox_moves d d'"
  unfolding outbox_moves_def using assms by (intro exI [of _ "t_snapshots d"] exI [of _ new]) (simp add: list_all2_same)

lemma outbox_same: "t_snapshots d' = t_snapshots d \<Longrightarrow> outbox_moves d d'"
  by (rule outbox_append [of _ _ "[]"]) simp_all

lemma outbox_map:
  assumes "t_snapshots d' = map f (t_snapshots d)" "\<And>gs. gs \<in> set (t_snapshots d) \<Longrightarrow> snapshot_move gs (f gs)"
  shows "outbox_moves d d'"
  unfolding outbox_moves_def using assms
  by (intro exI [of _ "map f (t_snapshots d)"] exI [of _ "[]"]) (simp add: list_all2_map2 list_all2_same)

lemma outbox_mem:
  assumes "outbox_moves d d'" "gs \<in> set (t_snapshots d)"
  obtains gs' where "gs' \<in> set (t_snapshots d')" "snapshot_move gs gs'"
proof -
  from assms(1) obtain rows new where r: "t_snapshots d' = rows @ new" "list_all2 snapshot_move (t_snapshots d) rows"
    by (auto simp: outbox_moves_def)
  from assms(2) obtain i where i: "i < length (t_snapshots d)" "t_snapshots d ! i = gs"
    by (auto simp: in_set_conv_nth)
  from list_all2_nthD [OF r(2) i(1)] i(2) have "snapshot_move gs (rows ! i)" by simp
  moreover have "rows ! i \<in> set (t_snapshots d')"
    using i(1) list_all2_lengthD [OF r(2)] by (simp add: r(1))
  ultimately show ?thesis by (rule that [rotated])
qed

lemma update_snapshots_moves:
  assumes "update_snapshots P f d = (x, d')" "\<And>gs. P gs \<Longrightarrow> snapshot_move gs (f gs)"
  shows "outbox_moves d d'"
proof (rule outbox_map)
  show "t_snapshots d' = map (\<lambda>gs. if P gs then f gs else gs) (t_snapshots d)"
    using assms(1) by (auto simp: update_snapshots_def)
qed (use assms(2) in simp)

text \<open>What a request for a configuration adds to the other tables.\<close>

lemma tunnel_body_rows:
  assumes "tunnel_body env cd u dv rg k d = Inr (x, d')"
  shows "t_snapshots d' = t_snapshots d \<and> t_gateways d' = t_gateways d
    \<and> (t_leases d' = t_leases d \<and> t_assignments d' = t_assignments d
       \<or> (\<exists>l pa. held l \<and> a_state pa = AsgPending \<and> a_desired pa = 1
          \<and> t_leases d' = t_leases d @ [l] \<and> t_assignments d' = t_assignments d @ [pa]))"
  using assms
proof (rule tunnel_body_cases)
  fix kr assume "replay_answer cd rg kr d = Inr (x, d')"
  then show ?thesis by (auto simp: replay_answer_def split: if_splits sum.splits)
next
  fix region row dns
  assume r: "reuse_assignment env cd u (tunnel_operation dv) rg k dns row d = Inr (x, d')"
  obtain pa l g where row: "row = (pa, l, g)" by (cases row)
  obtain y i m where x: "x = (y, i, m)" by (cases x)
  show ?thesis
    by (rule reuse_assignment_Inr [OF r [unfolded row x]]) (auto elim!: insert_idem_frame)
next
  fix region dns
  assume r: "allocate_assignment env cd u dv (tunnel_operation dv) rg k region dns d = Inr (x, d')"
  obtain y i m where x: "x = (y, i, m)" by (cases x)
  show ?thesis
    by (rule allocate_assignment_Inr [OF r [unfolded x]], elim insert_lease_Inr insert_assignment_Inr insert_idem_frame) auto
qed

lemma store_step_outbox:
  assumes "store_step cast d d'" "db_inv cast d"
  shows "outbox_moves d d'"
  using assms(1)
proof (cases rule: store_step_cases)
  case (tunnel env cd u dv rg k x)
  from tunnel_body_rows [OF tunnel(2)] show ?thesis by (auto intro!: outbox_same)
next
  case (snapshot env g n p s x)
  then show ?thesis
    by (auto simp: insert_snapshot_def split: option.splits if_splits intro!: outbox_append)
next
  case (claimed env g x i c)
  show ?thesis
  proof (rule claim_body_Inr [OF db_invD(8) [OF assms(2)] env_okD(1) [OF claimed(1)] claimed(2)])
    fix gateway gs
    assume dl: "deliverable env gateway gs"
      and d': "d' = d\<lparr>t_snapshots := map (\<lambda>r. if s_id r = s_id gs then send_row env r else r) (t_snapshots d)\<rparr>"
      and un: "\<And>r. r \<in> set (t_snapshots d) \<Longrightarrow> s_id r = s_id gs \<Longrightarrow> r = gs"
    have "snapshot_move gs (send_row env gs)"
      using dl unfolding send_row_def by (intro send) (auto simp: deliverable_def)
    then have "snapshot_move r (if s_id r = s_id gs then send_row env r else r)" if "r \<in> set (t_snapshots d)" for r
      using un [OF that] by auto
    then show ?thesis
      by (intro outbox_map [where f = "\<lambda>r. if s_id r = s_id gs then send_row env r else r"]) (simp_all add: d')
  qed
next
  case (acked env g s n x)
  then obtain P where u: "update_snapshots P (ack_row env) d = (x, d')"
    and P: "\<And>gs. P gs \<Longrightarrow> s_state gs = SnapInFlight"
    by (auto simp: update_acked_def split: option.splits)
  show ?thesis by (rule update_snapshots_moves [OF u]) (simp add: ack_row_def acknowledge P)
next
  case (confirmed env g n x i c)
  show ?thesis by (rule confirm_body_Inr [OF confirmed(2)]) (auto intro!: outbox_same)
next
  case (failed env g s t r x)
  then obtain P where u: "update_snapshots P (fail_row t r) d = (x, d')"
    and P: "\<And>gs. P gs \<Longrightarrow> s_state gs = SnapInFlight"
    by (auto simp: update_failed_def split: option.splits)
  show ?thesis by (rule update_snapshots_moves [OF u]) (simp add: fail_row_def postpone P)
qed (auto simp: insert_user_def insert_device_def update_revocation_def Let_def
    split: if_splits option.splits intro!: outbox_same)

definition delivery_kept :: "snapshot_row \<Rightarrow> snapshot_row \<Rightarrow> bool" where
  "delivery_kept gs gs' \<longleftrightarrow> s_id gs' = s_id gs \<and> s_gateway gs' = s_gateway gs
     \<and> s_generation gs' = s_generation gs \<and> s_payload gs' = s_payload gs \<and> s_signature gs' = s_signature gs
     \<and> s_attempts gs \<le> s_attempts gs' \<and> (s_state gs = SnapAcked \<longrightarrow> gs' = gs)"

lemma store_reachable_outbox:
  assumes "store_reachable cast d d'" "db_inv cast d" "gs \<in> set (t_snapshots d)"
  shows "\<exists>gs'\<in>set (t_snapshots d'). delivery_kept gs gs'"
  using assms
proof (induction rule: store_reachable.induct)
  case (start d)
  then show ?case by (auto simp: delivery_kept_def)
next
  case (step d d1 d2)
  from step.IH [OF step.prems] obtain gs1 where 1: "gs1 \<in> set (t_snapshots d1)" "delivery_kept gs gs1" by blast
  have "outbox_moves d1 d2"
    by (rule store_step_outbox [OF step.hyps(2) store_reachable_inv [OF step.hyps(1) step.prems(1)]])
  from outbox_mem [OF this 1(1)] obtain gs2 where 2: "gs2 \<in> set (t_snapshots d2)" "snapshot_move gs1 gs2" .
  from 1(2) snapshot_move_frame [OF 2(2)] have "delivery_kept gs gs2" by (auto simp: delivery_kept_def)
  with 2(1) show ?case ..
qed

section \<open>Properties\<close>

text \<open>
  C19: A snapshot once in the outbox stays there with its gateway, generation, payload and
  signature, whatever operations run and fail; it is sent at most 100 times, and after its
  acknowledgement nothing about it ever changes. Its status moves only along the life cycle: in
  every step of the store each row stays as it is, or a queued or failed one is marked as sent
  with one attempt more, or one in flight is acknowledged, or one in flight is put off with a new
  time and a reason; and rows that appear are queued and were never sent.
\<close>

theorem outbox_delivery_lifecycle:
  assumes "db_inv cast d" and "store_reachable cast d d1"
  shows "(\<forall>gs\<in>set (t_snapshots d). \<exists>gs'\<in>set (t_snapshots d1). s_id gs' = s_id gs \<and> s_gateway gs' = s_gateway gs
          \<and> s_generation gs' = s_generation gs \<and> s_payload gs' = s_payload gs \<and> s_signature gs' = s_signature gs
          \<and> s_attempts gs \<le> s_attempts gs' \<and> s_attempts gs' \<le> 100 \<and> (s_state gs = SnapAcked \<longrightarrow> gs' = gs))
     \<and> (\<forall>d2. store_step cast d1 d2 \<longrightarrow> (\<exists>rows new. t_snapshots d2 = rows @ new
          \<and> (\<forall>gs\<in>set new. s_state gs = SnapQueued \<and> s_attempts gs = 0)
          \<and> list_all2 (\<lambda>gs gs'. gs' = gs
                \<or> s_state gs \<in> {SnapQueued, SnapFailed} \<and> s_attempts gs < 100
                  \<and> (\<exists>t. gs' = gs\<lparr>s_state := SnapInFlight, s_attempts := s_attempts gs + 1, s_sent := Some t\<rparr>)
                \<or> s_state gs = SnapInFlight \<and> (\<exists>t. gs' = gs\<lparr>s_state := SnapAcked, s_acked := Some t\<rparr>)
                \<or> s_state gs = SnapInFlight
                  \<and> (\<exists>t reason. gs' = gs\<lparr>s_state := SnapFailed, s_available := t, s_error := Some reason\<rparr>))
              (t_snapshots d1) rows))"
proof (intro conjI ballI allI impI)
  fix gs assume "gs \<in> set (t_snapshots d)"
  from store_reachable_outbox [OF assms(2,1) this] obtain gs'
    where gs': "gs' \<in> set (t_snapshots d1)" "delivery_kept gs gs'" by blast
  moreover have "s_attempts gs' \<le> 100"
    using db_invD(8) [OF store_reachable_inv [OF assms(2,1)]] gs'(1) by (simp add: snapshots_inv_def snapshot_ok_def)
  ultimately show "\<exists>gs'\<in>set (t_snapshots d1). s_id gs' = s_id gs \<and> s_gateway gs' = s_gateway gs
          \<and> s_generation gs' = s_generation gs \<and> s_payload gs' = s_payload gs \<and> s_signature gs' = s_signature gs
          \<and> s_attempts gs \<le> s_attempts gs' \<and> s_attempts gs' \<le> 100 \<and> (s_state gs = SnapAcked \<longrightarrow> gs' = gs)"
    unfolding delivery_kept_def by blast
next
  fix d2 assume "store_step cast d1 d2"
  then have "outbox_moves d1 d2" by (rule store_step_outbox [OF _ store_reachable_inv [OF assms(2,1)]])
  then obtain rows new where r: "t_snapshots d2 = rows @ new" "list_all2 snapshot_move (t_snapshots d1) rows"
    "\<forall>gs\<in>set new. s_state gs = SnapQueued \<and> s_attempts gs = 0" unfolding outbox_moves_def by blast
  show "\<exists>rows new. t_snapshots d2 = rows @ new
          \<and> (\<forall>gs\<in>set new. s_state gs = SnapQueued \<and> s_attempts gs = 0)
          \<and> list_all2 (\<lambda>gs gs'. gs' = gs
                \<or> s_state gs \<in> {SnapQueued, SnapFailed} \<and> s_attempts gs < 100
                  \<and> (\<exists>t. gs' = gs\<lparr>s_state := SnapInFlight, s_attempts := s_attempts gs + 1, s_sent := Some t\<rparr>)
                \<or> s_state gs = SnapInFlight \<and> (\<exists>t. gs' = gs\<lparr>s_state := SnapAcked, s_acked := Some t\<rparr>)
                \<or> s_state gs = SnapInFlight
                  \<and> (\<exists>t reason. gs' = gs\<lparr>s_state := SnapFailed, s_available := t, s_error := Some reason\<rparr>))
              (t_snapshots d1) rows"
    by (rule exI [of _ rows], rule exI [of _ new], intro conjI r(1,3) list_all2_mono [OF r(2)])
      (erule snapshot_moveE; simp; blast)
qed

definition sample_snapshot_row :: snapshot_row where
  "sample_snapshot_row = \<lparr>s_id = ''s'', s_gateway = ''gw1'', s_generation = 1, s_payload = ''{}'',
     s_signature = replicate 64 CHR ''g'', s_state = SnapQueued, s_attempts = 0, s_available = 1000,
     s_sent = None, s_acked = None, s_error = None\<rparr>"

definition sample_outbox :: db where
  "sample_outbox = sample_db\<lparr>t_snapshots := [sample_snapshot_row]\<rparr>"

definition sample_sent :: db where
  "sample_sent = sample_db\<lparr>t_snapshots := [send_row (sample_env ''t'') sample_snapshot_row]\<rparr>"

lemma sample_outbox_inv: "db_inv sample_cast sample_outbox"
proof -
  have i: "insert_snapshot (sample_env ''s'') ''gw1'' 1 ''{}'' (replicate 64 CHR ''g'') sample_db = Inr ((), sample_outbox)"
    by (simp add: insert_snapshot_def sample_env_def sample_cast_def sample_outbox_def sample_db_def empty_db_def
        sample_gateway_row_def sample_snapshot_row_def generations_def timestamp_def)
  show ?thesis by (rule insert_snapshot_inv [OF sample_db_inv _ i]) (simp add: sample_env_ok)
qed

lemma sample_claim:
  "ClaimSnapshot (sample_env ''t'') ''gw1'' sample_outbox =
     (Inr \<lparr>del_ID = ''s'', del_Generation = 1, del_Payload = ''{}'', del_Signature = replicate 64 CHR ''g''\<rparr>, sample_sent)"
proof -
  have t: "trimSpace ''gw1'' = ''gw1''" by code_simp
  show ?thesis
    by (simp add: ClaimSnapshot_def ClaimNextSnapshot_def t run_tx_def attempt_def select_delivery_def deliverable_def
        update_in_flight_def sample_env_def sample_cast_def sample_outbox_def sample_sent_def sample_snapshot_row_def
        timestamp_def send_row_def sample_db_def empty_db_def)
qed

theorem outbox_delivery_lifecycle_witness:
  "\<exists>gs'\<in>set (t_snapshots sample_sent). s_payload gs' = ''{}'' \<and> s_attempts gs' \<le> 100"
proof -
  have "env_ok sample_cast (sample_env ''t'')" by (simp add: sample_env_ok)
  from store_reachable.step [OF store_reachable.start claim [OF this, of sample_outbox "''gw1''"]]
  have r: "store_reachable sample_cast sample_outbox sample_sent" by (simp add: sample_claim)
  have "sample_snapshot_row \<in> set (t_snapshots sample_outbox)" by (simp add: sample_outbox_def)
  from bspec [OF conjunct1 [OF outbox_delivery_lifecycle [OF sample_outbox_inv r]] this] show ?thesis
    by (auto simp: sample_snapshot_row_def)
qed

definition delivery_of :: "snapshot_row \<Rightarrow> Delivery" where
  "delivery_of gs = \<lparr>del_ID = s_id gs, del_Generation = s_generation gs, del_Payload = s_payload gs,
     del_Signature = s_signature gs\<rparr>"

lemma ClaimSnapshot_Inr:
  assumes "db_inv cast d" "cast_uuid env = cast" "ClaimSnapshot env g d = (Inr delivery, d')"
  obtains gateway gs where "cast g = Some gateway" "gs \<in> set (t_snapshots d)" "deliverable env gateway gs"
    "\<And>gs'. gs' \<in> set (t_snapshots d) \<Longrightarrow> deliverable env gateway gs' \<Longrightarrow> s_generation gs \<le> s_generation gs'"
    "delivery = delivery_of gs"
    "d' = d\<lparr>t_snapshots := map (\<lambda>r. if r = gs then send_row env gs else r) (t_snapshots d)\<rparr>"
proof -
  from assms(3) obtain sd where c: "ClaimNextSnapshot env g d = (Inr sd, d')"
    and del: "delivery = \<lparr>del_ID = sd_ID sd, del_Generation = sd_Generation sd, del_Payload = sd_Payload sd,
        del_Signature = sd_Signature sd\<rparr>"
    by (auto simp: ClaimSnapshot_def split: prod.splits sum.splits)
  from c obtain i m where b: "claim_body env g d = Inr ((sd, i, m), d')"
    by (auto simp: ClaimNextSnapshot_tx run_tx_def split: if_splits option.splits sum.splits prod.splits)
  show ?thesis
  proof (rule claim_body_Inr [OF db_invD(8) [OF assms(1)] assms(2) b])
    fix gateway gs
    assume g: "cast_uuid env g = Some gateway" and gs: "gs \<in> set (t_snapshots d)" "deliverable env gateway gs"
      and least: "\<And>gs'. gs' \<in> set (t_snapshots d) \<Longrightarrow> deliverable env gateway gs' \<Longrightarrow>
         s_generation gs \<le> s_generation gs'"
      and d': "d' = d\<lparr>t_snapshots := map (\<lambda>r. if s_id r = s_id gs then send_row env r else r) (t_snapshots d)\<rparr>"
      and sd: "sd = \<lparr>sd_ID = s_id gs, sd_GatewayID = gateway, sd_Generation = s_generation gs,
        sd_Payload = s_payload gs, sd_Signature = s_signature gs, sd_Attempts = s_attempts gs + 1\<rparr>"
      and un: "\<And>r. r \<in> set (t_snapshots d) \<Longrightarrow> s_id r = s_id gs \<Longrightarrow> r = gs"
    have rows: "map (\<lambda>r. if s_id r = s_id gs then send_row env r else r) (t_snapshots d) =
        map (\<lambda>r. if r = gs then send_row env gs else r) (t_snapshots d)"
      using un by (intro map_cong) auto
    show ?thesis
      by (rule that [OF _ gs least]) (use g d' rows sd del assms(2) in \<open>simp_all add: delivery_of_def\<close>)
  qed
qed

text \<open>
  C20: A claim gives the delivery of the lowest generation that may be sent now: it belongs to the
  gateway, is queued or failed, was sent fewer than 100 times and its time has come; the answer
  carries its generation, payload and signature as stored, and the claim marks exactly this
  row as in flight, with one attempt more.
\<close>

theorem claim_gives_oldest:
  assumes "db_inv cast d" and "env_ok cast env" and "ClaimSnapshot env g d = (Inr delivery, d')"
  shows "\<exists>gateway. \<exists>gs\<in>set (t_snapshots d). cast g = Some gateway \<and> s_gateway gs = gateway
     \<and> s_state gs \<in> {SnapQueued, SnapFailed} \<and> s_attempts gs < 100 \<and> s_available gs \<le> db_now env
     \<and> (\<forall>gs'\<in>set (t_snapshots d). deliverable env gateway gs' \<longrightarrow> s_generation gs \<le> s_generation gs')
     \<and> delivery = \<lparr>del_ID = s_id gs, del_Generation = s_generation gs, del_Payload = s_payload gs,
          del_Signature = s_signature gs\<rparr>
     \<and> d' = d\<lparr>t_snapshots := map (\<lambda>r. if r = gs then gs\<lparr>s_state := SnapInFlight, s_attempts := s_attempts gs + 1,
          s_sent := Some (timestamp (db_now env))\<rparr> else r) (t_snapshots d)\<rparr>"
proof (rule ClaimSnapshot_Inr [OF assms(1) env_okD(1) [OF assms(2)] assms(3)])
  fix gateway gs
  assume "cast g = Some gateway" and gs: "gs \<in> set (t_snapshots d)" and "deliverable env gateway gs"
    and "\<And>gs'. gs' \<in> set (t_snapshots d) \<Longrightarrow> deliverable env gateway gs' \<Longrightarrow> s_generation gs \<le> s_generation gs'"
    and "delivery = delivery_of gs"
    and "d' = d\<lparr>t_snapshots := map (\<lambda>r. if r = gs then send_row env gs else r) (t_snapshots d)\<rparr>"
  then show ?thesis
    by (intro exI [of _ gateway] bexI [OF _ gs]) (simp add: deliverable_def send_row_def delivery_of_def)
qed

theorem claim_gives_oldest_witness:
  "\<exists>gs\<in>set (t_snapshots sample_outbox). s_attempts gs < 100 \<and> s_payload gs = ''{}''
     \<and> sample_sent = sample_outbox\<lparr>t_snapshots := map (\<lambda>r. if r = gs then gs\<lparr>s_state := SnapInFlight,
          s_attempts := s_attempts gs + 1, s_sent := Some (timestamp (db_now (sample_env ''t'')))\<rparr> else r)
          (t_snapshots sample_outbox)\<rparr>"
proof -
  have "env_ok sample_cast (sample_env ''t'')" by (simp add: sample_env_ok)
  from claim_gives_oldest [OF sample_outbox_inv this sample_claim] show ?thesis by fastforce
qed

text \<open>Without a failing call, a claim succeeds as soon as something may be delivered.\<close>

lemma claim_succeeds:
  assumes i: "db_inv cast d" and e: "env_ok cast env" "no_fault env" and g: "trimSpace g \<noteq> ''''" "cast g = Some gateway"
    and gs: "gs \<in> set (t_snapshots d)" "deliverable env gateway gs"
  obtains delivery d' where "ClaimSnapshot env g d = (Inr delivery, d')"
    "del_Generation delivery \<le> s_generation gs"
proof -
  let ?gs = "sort_key s_generation (filter (deliverable env gateway) (t_snapshots d))"
  have m: "gs \<in> set ?gs" using gs by simp
  then obtain gs0 rest where r: "?gs = gs0 # rest" by (cases ?gs) auto
  then have s: "select_delivery env g d = Inr (gs0, d)"
    using g(2) env_okD(1) [OF e(1)] by (simp add: select_delivery_def)
  have "gs0 \<in> set ?gs" unfolding r by simp
  then have m0: "gs0 \<in> set (t_snapshots d)" by simp
  have "sorted (map s_generation ?gs)" by simp
  with m have le: "s_generation gs0 \<le> s_generation gs" unfolding r by auto
  have "cast_uuid env (s_id gs0) = Some (s_id gs0)"
    using db_invD(8) [OF i] m0 env_okD(1) [OF e(1)] by (simp add: snapshots_inv_def)
  moreover have "find (\<lambda>gs. s_id gs = s_id gs0) (t_snapshots d) \<noteq> None" using m0 by (auto simp: find_None_all)
  ultimately obtain n d' where u: "update_in_flight env (s_id gs0) d = Inr (n, d')"
    by (auto simp: update_in_flight_def)
  have "\<exists>sd. ClaimNextSnapshot env g d = (Inr sd, d') \<and> sd_Generation sd = s_generation gs0"
    using g(1) e(2) s u by (simp add: ClaimNextSnapshot_tx run_tx_def claim_body_def attempt_def no_faultD)
  then obtain sd where "ClaimNextSnapshot env g d = (Inr sd, d')" "sd_Generation sd = s_generation gs0" by blast
  with le show ?thesis
    by (intro that [of "\<lparr>del_ID = sd_ID sd, del_Generation = sd_Generation sd, del_Payload = sd_Payload sd,
        del_Signature = sd_Signature sd\<rparr>" d']) (simp_all add: ClaimSnapshot_def)
qed

text \<open>
  A delivery that failed is delivered again. After a retry was recorded, a claim that reaches
  the database at or after the time of the retry gives the gateway a delivery, at the latest
  this one, as long as it was sent fewer than 100 times.
\<close>

theorem retried_delivery_is_claimed:
  assumes "db_inv cast d" and "env_ok cast env" and "env_ok cast env'" and "no_fault env'"
    and "RetrySnapshot env g i retryAt reason d = (None, d1)"
    and "\<forall>gs\<in>set (t_snapshots d). cast i = Some (s_id gs) \<longrightarrow> s_attempts gs < 100"
    and "timestamp retryAt \<le> db_now env'"
  shows "\<exists>delivery d2 gs. ClaimSnapshot env' g d1 = (Inr delivery, d2) \<and> gs \<in> set (t_snapshots d)
     \<and> cast i = Some (s_id gs) \<and> del_Generation delivery \<le> s_generation gs"
proof -
  note ca = env_okD(1) [OF assms(2)]
  obtain reason1 where g: "trimSpace g \<noteq> ''''"
    and a: "autocommit env 0 (update_failed env g i retryAt reason1) d = (Inr 1, d1)"
    using assms(5) by (auto simp: RetrySnapshot_def Let_def split: if_splits prod.splits sum.splits)
  from a have "update_failed env g i retryAt reason1 d = Inr (1, d1)" by (cases rule: autocommit_cases) auto
  then obtain row gateway P where c: "cast i = Some row" "cast g = Some gateway"
    and P: "P = (\<lambda>gs. s_id gs = row \<and> s_gateway gs = gateway \<and> s_state gs = SnapInFlight)"
    and u: "update_snapshots P (fail_row retryAt reason1) d = (1, d1)"
    by (auto simp: update_failed_def ca split: option.splits)
  from u have n: "filter P (t_snapshots d) \<noteq> []"
    and d1: "t_snapshots d1 = map (\<lambda>gs. if P gs then fail_row retryAt reason1 gs else gs) (t_snapshots d)"
    by (auto simp: update_snapshots_def)
  from n obtain gs where gs: "gs \<in> set (t_snapshots d)" "P gs" by (auto simp: filter_empty_conv)
  let ?gs = "fail_row retryAt reason1 gs"
  have m: "?gs \<in> set (t_snapshots d1)" using gs unfolding d1 by auto
  have dl: "deliverable env' gateway ?gs"
    using gs assms(6,7) c(1) by (auto simp: deliverable_def fail_row_def P)
  have i1: "db_inv cast d1" using store_step_inv [OF retry [OF assms(2), of d g i retryAt reason] assms(1)] assms(5) by simp
  obtain delivery d2 where "ClaimSnapshot env' g d1 = (Inr delivery, d2)" "del_Generation delivery \<le> s_generation ?gs"
    by (rule claim_succeeds [OF i1 assms(3,4) g c(2) m dl])
  with gs c(1) show ?thesis by (auto simp: fail_row_def P)
qed

text \<open>Times are in nanoseconds; PostgreSQL keeps microseconds.\<close>

theorem retried_delivery_is_claimed_witness:
  "\<exists>d1 delivery d2. RetrySnapshot (sample_env ''t'') ''gw1'' ''s'' 1000 ''apply failed'' sample_sent = (None, d1)
     \<and> ClaimSnapshot (sample_env ''t'') ''gw1'' d1 = (Inr delivery, d2) \<and> del_Generation delivery \<le> 1"
proof -
  have e: "env_ok sample_cast (sample_env ''t'')" by (simp add: sample_env_ok)
  have i: "db_inv sample_cast sample_sent"
    using store_step_inv [OF claim [OF e, of sample_outbox "''gw1''"] sample_outbox_inv] by (simp add: sample_claim)
  have t: "trimSpace ''gw1'' = ''gw1''" "trimSpace ''s'' = ''s''" by code_simp+
  have "\<exists>d1. RetrySnapshot (sample_env ''t'') ''gw1'' ''s'' 1000 ''apply failed'' sample_sent = (None, d1)"
    by (simp add: RetrySnapshot_def t time_is_zero_def autocommit_def update_failed_def update_snapshots_def
        sample_env_def sample_cast_def sample_sent_def sample_snapshot_row_def send_row_def)
  then obtain d1 where r: "RetrySnapshot (sample_env ''t'') ''gw1'' ''s'' 1000 ''apply failed'' sample_sent = (None, d1)" ..
  have "\<forall>gs\<in>set (t_snapshots sample_sent). sample_cast ''s'' = Some (s_id gs) \<longrightarrow> s_attempts gs < 100"
    by (simp add: sample_sent_def send_row_def sample_snapshot_row_def)
  moreover have "timestamp 1000 \<le> db_now (sample_env ''t'')" by (simp add: timestamp_def sample_env_def)
  ultimately obtain delivery d2 gs where "ClaimSnapshot (sample_env ''t'') ''gw1'' d1 = (Inr delivery, d2)"
    "gs \<in> set (t_snapshots sample_sent)" "del_Generation delivery \<le> s_generation gs"
    using retried_delivery_is_claimed [OF i e e sample_no_fault r] by blast
  with r show ?thesis by (auto simp: sample_sent_def send_row_def sample_snapshot_row_def)
qed

section \<open>What a confirmation establishes\<close>

text \<open>The state of a system whose assignments were never asked to go away.\<close>

definition nothing_removed :: "db \<Rightarrow> bool" where
  "nothing_removed d \<longleftrightarrow> (\<forall>pa\<in>set (t_assignments d). a_state pa \<in> {AsgPending, AsgActive} \<and> a_desired pa = 1)
     \<and> (\<forall>l\<in>set (t_leases d). held l) \<and> (\<forall>r\<in>set (t_devices d). d_state r \<noteq> DeviceRevoked)"

lemma nothing_removed_eq:
  "t_assignments d' = t_assignments d \<Longrightarrow> t_leases d' = t_leases d \<Longrightarrow> t_devices d' = t_devices d \<Longrightarrow>
     nothing_removed d' = nothing_removed d"
  by (simp add: nothing_removed_def)

lemma confirmed_nothing_removed:
  assumes "confirm_body env g n d = Inr ((x, i, c), d')" "nothing_removed d"
  shows "nothing_removed d' \<and> (\<exists>gateway. cast_uuid env g = Some gateway
    \<and> d' = d\<lparr>t_assignments := map (confirm_row gateway n) (t_assignments d)\<rparr>)"
proof (rule confirm_body_Inr [OF assms(1)])
  fix gateway d1 d2
  assume g: "cast_uuid env g = Some gateway"
    and d1: "d1 = d\<lparr>t_assignments := map (confirm_row gateway n) (t_assignments d)\<rparr>"
    and d2: "d2 = d1\<lparr>t_leases := map (release_row env gateway d1) (t_leases d1)\<rparr>"
    and d': "d' = d2\<lparr>t_devices := map (end_revocation env gateway d2) (t_devices d2)\<rparr>"
  have st: "a_state (confirm_row gateway n pa) \<in> {AsgPending, AsgActive}" if "pa \<in> set (t_assignments d)" for pa
    using assms(2) that by (auto simp: nothing_removed_def confirm_row_def)
  then have "a_state (confirm_row gateway n pa) \<noteq> AsgRemoved" if "pa \<in> set (t_assignments d)" for pa
    using that by fastforce
  then have r: "\<not> removed_here gateway P d1" "\<not> removed_here gateway P d2" for P
    unfolding removed_here_def d1 d2 by auto
  then have "t_leases d2 = t_leases d1" "t_devices d' = t_devices d2"
    by (auto simp: d2 d' release_row_def end_revocation_def map_idI)
  then have "d' = d1" by (simp add: d2 d')
  moreover from assms(2) st have "nothing_removed d1" by (auto simp: nothing_removed_def d1)
  ultimately show ?thesis using g d1 by blast
qed

lemma nothing_removed_step:
  assumes "store_step cast d d'" "db_inv cast d" "nothing_removed d"
  shows "nothing_removed d'"
  using assms(1)
proof (cases rule: store_step_cases)
  case (device env u n p k x)
  then obtain r where "d' = d\<lparr>t_devices := t_devices d @ [r]\<rparr>" "d_state r = DeviceActive"
    by (auto simp: insert_device_def Let_def split: option.splits if_splits)
  with assms(3) show ?thesis by (auto simp: nothing_removed_def)
next
  case (revoked env u i x)
  then obtain ow dv where "d' = d\<lparr>t_devices := map (revoke_row ow dv) (t_devices d)\<rparr>"
    by (auto simp: update_revocation_def split: option.splits if_splits)
  with assms(3) show ?thesis by (auto simp: nothing_removed_def revoke_row_def)
next
  case (tunnel env cd u dv rg k x)
  then have "t_devices d' = t_devices d"
    using tunnel_body_answered [of env cd u dv rg k d "fst (fst x)" "snd (fst x)" "fst (snd x)" "snd (snd x)" d'] by simp
  with tunnel_body_rows [OF tunnel(2)] assms(3) show ?thesis unfolding nothing_removed_def by (elim conjE disjE exE) auto
next
  case (claimed env g x i c)
  show ?thesis
    by (rule claim_body_Inr [OF db_invD(8) [OF assms(2)] env_okD(1) [OF claimed(1)] claimed(2)])
      (use assms(3) in \<open>simp add: nothing_removed_def\<close>)
next
  case (confirmed env g n x i c)
  then show ?thesis using confirmed_nothing_removed assms(3) by blast
qed (use assms(3) in \<open>auto simp: insert_user_def insert_snapshot_def update_acked_def update_failed_def
    update_snapshots_def nothing_removed_def split: if_splits option.splits\<close>)

lemma nothing_removed_reachable:
  assumes "store_reachable cast d0 d" "seeded cast d0"
  shows "nothing_removed d"
  using assms
proof (induction rule: store_reachable.induct)
  case (start d)
  then show ?case by (simp add: seeded_def nothing_removed_def)
next
  case (step d d1 d2)
  then show ?case using nothing_removed_step store_reachable_inv seeded_inv by blast
qed

text \<open>
  C22: A revocation never completes. No operation of the store asks for the removal of a peer, so
  in every reachable state each assignment is pending or active, no lease was ever released and
  no device ever reaches the state revoked: the address and the place at the gateway of a
  revoked device stay taken.
\<close>

theorem revocation_never_completes:
  assumes "seeded cast d0" and "store_reachable cast d0 d"
  shows "(\<forall>pa\<in>set (t_assignments d). a_state pa = AsgPending \<or> a_state pa = AsgActive)
     \<and> (\<forall>l\<in>set (t_leases d). l_released l = None)
     \<and> (\<forall>r\<in>set (t_devices d). d_state r \<noteq> DeviceRevoked)"
  using nothing_removed_reachable [OF assms(2,1)] by (auto simp: nothing_removed_def)

theorem revocation_never_completes_witness:
  "\<exists>d. Store_RequestRevocation (sample_env ''t'') ''alice'' ''dev1'' sample_db1 = (Inr (), d)
     \<and> (\<forall>l\<in>set (t_leases d). l_released l = None) \<and> (\<forall>r\<in>set (t_devices d). d_state r \<noteq> DeviceRevoked)"
proof -
  have e: "env_ok sample_cast (sample_env ''t'')" by (simp add: sample_env_ok)
  have "\<exists>d. Store_RequestRevocation (sample_env ''t'') ''alice'' ''dev1'' sample_db1 = (Inr (), d)"
    by (simp add: Store_RequestRevocation_def autocommit_def update_revocation_def sample_env_def
        sample_cast_def sample_db1_def sample_db_def empty_db_def sample_device_row_def)
  then obtain d where r: "Store_RequestRevocation (sample_env ''t'') ''alice'' ''dev1'' sample_db1 = (Inr (), d)" ..
  from store_reachable.step [OF sample_reachable revoke_device [OF e, of _ "''alice''" "''dev1''"]] r
  have "store_reachable sample_cast empty_db d" by simp
  from revocation_never_completes [OF sample_seeded this] r show ?thesis by blast
qed

lemma confirmed_rows_active:
  assumes "nothing_removed d" "0 < n" "t_assignments d' = map (confirm_row gateway n) (t_assignments d)"
  shows "\<forall>pa\<in>set (t_assignments d'). a_gateway pa = gateway \<and> live pa \<longrightarrow>
      a_state pa = AsgActive \<and> a_observed pa = a_desired pa"
    and "\<forall>gw\<in>set (t_gateways d'). g_id gw = gateway \<longrightarrow> \<not> needs_snapshot d' gw"
proof -
  have a: "a_state pa = AsgActive \<and> a_observed pa = a_desired pa"
    if "pa \<in> set (t_assignments d')" "a_gateway pa = gateway" "live pa" for pa
  proof -
    from that(1) obtain pb where pb: "pb \<in> set (t_assignments d)" "pa = confirm_row gateway n pb"
      by (auto simp: assms(3))
    from assms(1) pb(1) have "live pb" "a_desired pb = 1" "a_state pb \<noteq> AsgRemovalPending"
      unfolding nothing_removed_def live_def by fastforce+
    moreover have "a_gateway pb = gateway" using that(2) pb(2) by simp
    ultimately show ?thesis using assms(2) by (simp add: pb(2) confirm_row_def)
  qed
  then show "\<forall>pa\<in>set (t_assignments d'). a_gateway pa = gateway \<and> live pa \<longrightarrow>
      a_state pa = AsgActive \<and> a_observed pa = a_desired pa" by blast
  show "\<forall>gw\<in>set (t_gateways d'). g_id gw = gateway \<longrightarrow> \<not> needs_snapshot d' gw"
    using a by (fastforce simp: needs_snapshot_def)
qed

text \<open>
  C21: After a confirmation the gateway counts as up to date: every live assignment of it is active
  with its desired generation observed, and the planner asks for no snapshot, until another
  device is assigned.
\<close>

theorem confirmation_completes_gateway:
  assumes "seeded cast d0" and "store_reachable cast d0 d" and "cast_uuid env = cast" and "cast g = Some gateway"
    and "ConfirmGatewaySnapshot env g n d = (Inr (), d')"
  shows "(\<forall>pa\<in>set (t_assignments d'). a_gateway pa = gateway \<and> live pa \<longrightarrow>
        a_state pa = AsgActive \<and> a_observed pa = a_desired pa)
     \<and> (\<forall>gw\<in>set (t_gateways d'). g_id gw = gateway \<longrightarrow> \<not> needs_snapshot d' gw)"
proof -
  note nr = nothing_removed_reachable [OF assms(2,1)]
  from assms(5) have n: "0 < n" and "\<exists>i c. confirm_body env g n d = Inr (((), i, c), d')"
    by (auto simp: ConfirmGatewaySnapshot_tx run_tx_def split: if_splits option.splits sum.splits prod.splits)
  then obtain i c where "confirm_body env g n d = Inr (((), i, c), d')" by blast
  from confirmed_nothing_removed [OF this nr] assms(3,4)
  have d': "d' = d\<lparr>t_assignments := map (confirm_row gateway n) (t_assignments d)\<rparr>" by auto
  from confirmed_rows_active [OF nr n, of d' gateway] show ?thesis by (simp add: d')
qed

theorem confirmation_completes_gateway_witness:
  "\<exists>d'. ConfirmGatewaySnapshot (sample_env ''t'') ''gw1'' 1 sample_db1 = (Inr (), d')
     \<and> \<not> needs_snapshot d' sample_gateway_row"
proof -
  have "\<exists>d'. ConfirmGatewaySnapshot (sample_env ''t'') ''gw1'' 1 sample_db1 = (Inr (), d')"
    by (simp add: ConfirmGatewaySnapshot_def run_tx_def attempt_def confirm_assignments_def release_leases_def
        revoke_devices_def sample_env_def sample_cast_def)
  then obtain d' where c: "ConfirmGatewaySnapshot (sample_env ''t'') ''gw1'' 1 sample_db1 = (Inr (), d')" ..
  have "t_gateways d' = [sample_gateway_row]"
    using c by (auto simp: ConfirmGatewaySnapshot_def run_tx_def attempt_def confirm_assignments_def release_leases_def
        revoke_devices_def sample_env_def sample_cast_def sample_db1_def sample_db_def empty_db_def)
  then have g: "sample_gateway_row \<in> set (t_gateways d')" "g_id sample_gateway_row = ''gw1''"
    by (simp_all add: sample_gateway_row_def)
  have "cast_uuid (sample_env ''t'') = sample_cast" "sample_cast ''gw1'' = Some ''gw1''"
    by (simp_all add: sample_env_def sample_cast_def)
  from confirmation_completes_gateway [OF sample_seeded sample_reachable this c] g
  have "\<not> needs_snapshot d' sample_gateway_row" by blast
  with c show ?thesis by blast
qed

text \<open>
  A peer can be confirmed although no snapshot ever named it. If a device is assigned after a
  snapshot was enqueued and before it is acknowledged, the acknowledgement of that snapshot
  confirms the new assignment too, the outbox holds only the old payload, and the planner asks
  for no other: the gateway never learns of the peer.
\<close>

theorem confirmed_without_delivery:
  "\<exists>env cd g s n key gen d0 d1 c d2 delivery d3 d4.
     EnqueueSnapshot env g gen s n d0 = (None, d1) \<and> t_assignments d1 = []
     \<and> Store_CreateTunnelConfiguration env cd ''alice'' ''dev1'' ''pt-lis'' key d1 = (Inr (c, True), d2)
     \<and> ClaimSnapshot env g d2 = (Inr delivery, d3)
     \<and> AckSnapshotDelivery env g (del_ID delivery) (del_Generation delivery) d3 = (None, d4)
     \<and> (\<exists>pa\<in>set (t_assignments d4). a_device pa = ''dev1'' \<and> a_state pa = AsgActive)
     \<and> map s_payload (t_snapshots d4) = [s] \<and> GatewaysNeedingSnapshot env d4 = Inr []"
proof -
  let ?env = "sample_env ''t''" and ?sig = "replicate 64 CHR ''g''"
  let ?queued = "sample_snapshot_row\<lparr>s_id := ''t''\<rparr>"
  let ?sent = "send_row ?env ?queued"
  let ?d1 = "sample_db\<lparr>t_snapshots := [?queued]\<rparr>" and ?d2 = "sample_db1\<lparr>t_snapshots := [?queued]\<rparr>"
  let ?d3 = "sample_db1\<lparr>t_snapshots := [?sent]\<rparr>"
  let ?d4 = "sample_db1\<lparr>t_snapshots := [ack_row ?env ?sent], t_assignments := [sample_assignment_row\<lparr>a_state := AsgActive, a_observed := 1\<rparr>]\<rparr>"
  let ?del = "\<lparr>del_ID = ''t'', del_Generation = 1, del_Payload = ''{}'', del_Signature = ?sig\<rparr>"
  have t: "trimSpace ''gw1'' = ''gw1''" "trimSpace ''t'' = ''t''" by code_simp+
  have f1: "EnqueueSnapshot ?env ''gw1'' 1 ''{}'' ?sig sample_db = (None, ?d1)"
    by (simp add: EnqueueSnapshot_at_def t autocommit_def insert_snapshot_def sample_env_def sample_cast_def
        sample_db_def empty_db_def sample_gateway_row_def sample_snapshot_row_def generations_def timestamp_def)
  have f2: "Store_CreateTunnelConfiguration ?env sample_codec ''alice'' ''dev1'' ''pt-lis'' sample_idem_key ?d1 =
      (Inr (sample_answer, True), ?d2)"
  proof -
    have "tunnel_body ?env sample_codec ''alice'' ''dev1'' ''pt-lis'' sample_idem_key ?d1 =
        Inr (((sample_answer, True), 15, ''commit tunnel allocation''), ?d2)"
      by (simp add: tunnel_body_def allocate_assignment_def store_statement_defs sample_defs sample_addresses
          timestamp_def Let_def)
    then show ?thesis
      by (simp add: Store_CreateTunnelConfiguration_def sample_spaces run_tx_def) (simp add: sample_env_def)
  qed
  have f3: "ClaimSnapshot ?env ''gw1'' ?d2 = (Inr ?del, ?d3)"
    by (simp add: ClaimSnapshot_def ClaimNextSnapshot_def t run_tx_def attempt_def select_delivery_def deliverable_def
        update_in_flight_def sample_env_def sample_cast_def sample_snapshot_row_def timestamp_def send_row_def)
  have f4: "AckSnapshotDelivery ?env ''gw1'' (del_ID ?del) (del_Generation ?del) ?d3 = (None, ?d4)"
    by (simp add: AckSnapshotDelivery_def AckSnapshot_at_def t autocommit_def update_acked_def update_snapshots_def
        ConfirmGatewaySnapshot_def run_tx_def attempt_def confirm_assignments_def release_leases_def
        revoke_devices_def removed_here_def confirm_row_def live_def sample_env_def sample_cast_def
        sample_snapshot_row_def send_row_def ack_row_def sample_db1_def sample_assignment_row_def
        sample_lease_row_def sample_db_def sample_device_row_def empty_db_def)
  have f5: "GatewaysNeedingSnapshot ?env ?d4 = Inr []"
    by (simp add: GatewaysNeedingSnapshot_def needs_snapshot_def sample_env_def sample_db1_def sample_assignment_row_def
        sample_db_def empty_db_def)
  have f6: "t_assignments ?d1 = []" by (simp add: sample_db_def empty_db_def)
  have f7: "\<exists>pa\<in>set (t_assignments ?d4). a_device pa = ''dev1'' \<and> a_state pa = AsgActive"
    by (simp add: sample_assignment_row_def)
  have f8: "map s_payload (t_snapshots ?d4) = [''{}'']"
    by (simp add: ack_row_def send_row_def sample_snapshot_row_def)
  show ?thesis
    by (intro exI [of _ ?env] exI [of _ sample_codec] exI [of _ "''gw1''"] exI [of _ "''{}''"] exI [of _ ?sig]
        exI [of _ sample_idem_key] exI [of _ 1] exI [of _ sample_db] exI [of _ ?d1] exI [of _ sample_answer] exI [of _ ?d2]
        exI [of _ ?del] exI [of _ ?d3] exI [of _ ?d4] conjI) (rule f1 f2 f3 f4 f5 f6 f7 f8)+
qed

end
