(* ===== verification/Publish.thy ===== *)
theory Publish
  imports Commands Store_Props Outbox_Facts
begin

text \<open>
  What the control plane publishes: a snapshot queued for a gateway names exactly the peers
  assigned to it, and the agent's own validation accepts it. This joins the invariants of the
  tables (keys are valid and unique, addresses are unique in a region, a device is assigned to
  a gateway of the region of its lease) with the checks of \<open>Snapshot\<close>. Then the runs of the
  reconciler of \<open>Commands\<close>.
\<close>

section \<open>Peers and regions\<close>

definition peers_inv :: "db \<Rightarrow> bool" where
  "peers_inv d \<longleftrightarrow> (\<forall>r\<in>set (t_devices d). validPublicKey (d_key r))
     \<and> (\<forall>pa\<in>set (t_assignments d). \<forall>l\<in>set (t_leases d). \<forall>g\<in>set (t_gateways d).
          a_lease pa = l_id l \<longrightarrow> a_gateway pa = g_id g \<longrightarrow> l_region l = g_region g)"

lemma peers_inv_same:
  assumes "peers_inv d" "t_gateways d' = t_gateways d"
    and "\<And>r. r \<in> set (t_devices d') \<Longrightarrow> \<exists>r0\<in>set (t_devices d). d_key r = d_key r0"
    and "\<And>pa. pa \<in> set (t_assignments d') \<Longrightarrow>
      \<exists>pa0\<in>set (t_assignments d). a_lease pa = a_lease pa0 \<and> a_gateway pa = a_gateway pa0"
    and "\<And>l. l \<in> set (t_leases d') \<Longrightarrow> \<exists>l0\<in>set (t_leases d). l_id l = l_id l0 \<and> l_region l = l_region l0"
  shows "peers_inv d'"
  unfolding peers_inv_def
proof (intro conjI ballI impI)
  fix r assume "r \<in> set (t_devices d')"
  with assms(3) assms(1) show "validPublicKey (d_key r)" unfolding peers_inv_def by metis
next
  fix pa l g
  assume "pa \<in> set (t_assignments d')" "l \<in> set (t_leases d')" "g \<in> set (t_gateways d')"
    and e: "a_lease pa = l_id l" "a_gateway pa = g_id g"
  with assms(2,4,5) obtain pa0 l0 where "pa0 \<in> set (t_assignments d)" "a_lease pa = a_lease pa0"
    "a_gateway pa = a_gateway pa0" "l0 \<in> set (t_leases d)" "l_id l = l_id l0" "l_region l = l_region l0"
    "g \<in> set (t_gateways d)" by metis
  with assms(1) e show "l_region l = g_region g" unfolding peers_inv_def by metis
qed

lemma allocate_peers_inv:
  assumes "db_inv cast d" "env_ok cast env" "peers_inv d"
    and "allocate_assignment env cd u dv op rg k region dns d = Inr (x, d')"
  shows "peers_inv d'"
proof -
  obtain y i m where x: "x = (y, i, m)" by (cases x)
  show ?thesis
  proof (rule allocate_assignment_Inr [OF assms(4) [unfolded x]], elim insert_lease_Inr insert_assignment_Inr insert_idem_frame)
    fix g le d1 asg d2 l pa kk
    assume g: "select_gateway rg d = Inr (g, d)"
      and d1: "d1 = d\<lparr>t_leases := t_leases d @ [l]\<rparr>" and d2: "d2 = d1\<lparr>t_assignments := t_assignments d1 @ [pa]\<rparr>"
      and d': "d' = d2\<lparr>t_idem := t_idem d2 @ [kk]\<rparr>"
      and l: "le = l_id l" "l_id l = new_id env 0" "l_region l = rg" "l_id l \<notin> l_id ` set (t_leases d)"
      and pa: "cast_uuid env (g_id g) = Some (a_gateway pa)" "cast_uuid env le = Some (a_lease pa)"
    note gw = select_gateway_Inr [OF g]
    have lease: "a_lease pa = l_id l" using pa(2) l(1,2) env_okD [OF assms(2)] by simp
    have gateway: "a_gateway pa = g_id g"
      using pa(1) gw(1) db_invD(6) [OF assms(1)] env_okD(1) [OF assms(2)] by (auto simp: gateways_inv_def)
    have same: "g' = g" if "g' \<in> set (t_gateways d)" "g_id g' = g_id g" for g'
      using that gw(1) db_invD(6) [OF assms(1)] by (auto simp: gateways_inv_def distinct_map inj_on_def)
    have old: "a_lease pa' \<noteq> l_id l" if "pa' \<in> set (t_assignments d)" for pa'
    proof -
      have "a_lease pa' \<in> l_id ` set (t_leases d)"
        using that db_invD(4) [OF assms(1)] by (simp add: assignments_inv_def)
      with l(4) show ?thesis by metis
    qed
    show ?thesis
      unfolding peers_inv_def
    proof (intro conjI ballI impI)
      fix r assume "r \<in> set (t_devices d')"
      with assms(3) show "validPublicKey (d_key r)" by (simp add: peers_inv_def d' d2 d1)
    next
      fix pa' l' g'
      assume m: "pa' \<in> set (t_assignments d')" "l' \<in> set (t_leases d')" "g' \<in> set (t_gateways d')"
        and e: "a_lease pa' = l_id l'" "a_gateway pa' = g_id g'"
      have g': "g' \<in> set (t_gateways d)" using m(3) by (simp add: d' d2 d1)
      show "l_region l' = g_region g'"
      proof (cases "pa' = pa")
        case True
        with e lease gateway same [OF g'] have "l_id l' = l_id l" "g' = g" by simp_all
        moreover from m(2) have "l' \<in> set (t_leases d) \<or> l' = l" by (auto simp: d' d2 d1)
        ultimately have "l' = l" "g' = g" using l(4) by (metis imageI, blast)
        then show ?thesis using l(3) gw(2) by simp
      next
        case False
        with m(1) have pa': "pa' \<in> set (t_assignments d)" by (simp add: d' d2 d1)
        with old e(1) have "l_id l' \<noteq> l_id l" by metis
        with m(2) have "l' \<in> set (t_leases d)" by (auto simp: d' d2 d1)
        with assms(3) pa' g' e show ?thesis unfolding peers_inv_def by metis
      qed
    qed
  qed
qed

lemma store_step_peers_inv:
  assumes "store_step cast d d'" "db_inv cast d" "peers_inv d"
  shows "peers_inv d'"
  using assms(1)
proof (cases rule: store_step_cases)
  case (device env u n p k x)
  then obtain r where "d' = d\<lparr>t_devices := t_devices d @ [r]\<rparr>" "d_key r = k"
    by (auto simp: insert_device_def Let_def split: option.splits if_splits)
  with assms(3) device(3) show ?thesis
    by (auto simp: peers_inv_def validPublicKey_def validWireGuardPublicKey_def)
next
  case (revoked env u i x)
  then obtain ow dv where "d' = d\<lparr>t_devices := map (revoke_row ow dv) (t_devices d)\<rparr>"
    by (auto simp: update_revocation_def split: option.splits if_splits)
  with assms(3) show ?thesis by (auto simp: peers_inv_def revoke_row_def)
next
  case (tunnel env cd u dv rg k x)
  show ?thesis
    using tunnel(2)
  proof (rule tunnel_body_cases)
    fix kr assume "replay_answer cd rg kr d = Inr (x, d')"
    with assms(3) show ?thesis by (auto simp: replay_answer_def split: if_splits sum.splits)
  next
    fix region row dns
    assume r: "reuse_assignment env cd u (tunnel_operation dv) rg k dns row d = Inr (x, d')"
    obtain pa l g where row: "row = (pa, l, g)" by (cases row)
    obtain y i m where x: "x = (y, i, m)" by (cases x)
    show ?thesis
      by (rule reuse_assignment_Inr [OF r [unfolded row x]])
        (use assms(3) in \<open>auto simp: peers_inv_def elim!: insert_idem_frame\<close>)
  qed (rule allocate_peers_inv [OF assms(2) tunnel(1) assms(3)])
next
  case (claimed env g x i c)
  show ?thesis
    by (rule claim_body_Inr [OF db_invD(8) [OF assms(2)] env_okD(1) [OF claimed(1)] claimed(2)])
      (use assms(3) in \<open>simp add: peers_inv_def\<close>)
next
  case (confirmed env g n x i c)
  show ?thesis
  proof (rule confirm_body_Inr [OF confirmed(2)])
    fix gateway d1 d2
    assume "d1 = d\<lparr>t_assignments := map (confirm_row gateway n) (t_assignments d)\<rparr>"
      "d2 = d1\<lparr>t_leases := map (release_row env gateway d1) (t_leases d1)\<rparr>"
      "d' = d2\<lparr>t_devices := map (end_revocation env gateway d2) (t_devices d2)\<rparr>"
    then show ?thesis
      by (intro peers_inv_same [OF assms(3)]) (auto simp: end_revocation_def)
  qed
qed (use assms(3) in \<open>auto simp: insert_user_def insert_snapshot_def update_acked_def update_failed_def
    update_snapshots_def peers_inv_def split: if_splits option.splits\<close>)

lemma peers_inv_reachable:
  assumes "store_reachable cast d0 d" "seeded cast d0"
  shows "peers_inv d"
  using assms
proof (induction rule: store_reachable.induct)
  case (start d)
  then show ?case by (simp add: seeded_def peers_inv_def)
next
  case (step d d1 d2)
  then show ?case using store_step_peers_inv store_reachable_inv seeded_inv by blast
qed

section \<open>The peers of a gateway\<close>

definition assigned :: "db \<Rightarrow> string \<Rightarrow> assignment_row list" where
  "assigned d gateway = filter (\<lambda>pa. a_gateway pa = gateway \<and> live pa) (t_assignments d)"

lemma concat_map_if: "concat (map (\<lambda>x. if P x then f x else []) xs) = concat (map f (filter P xs))"
  by (induction xs) auto

lemma filter_key: "distinct (map k xs) \<Longrightarrow> x \<in> set xs \<Longrightarrow> filter (\<lambda>y. k y = k x) xs = [x]"
  by (induction xs) (auto simp: filter_empty_conv image_iff)

lemma concat_map_single: "(\<And>x. x \<in> set xs \<Longrightarrow> f x = [g x]) \<Longrightarrow> concat (map f xs) = map g xs"
  by (induction xs) auto

definition row_of :: "assignment_row \<Rightarrow> db \<Rightarrow> device_row \<times> lease_row \<Rightarrow> bool" where
  "row_of pa d row \<longleftrightarrow> fst row \<in> set (t_devices d) \<and> d_id (fst row) = a_device pa
     \<and> snd row \<in> set (t_leases d) \<and> l_id (snd row) = a_lease pa \<and> held (snd row) \<and> l_device (snd row) = a_device pa"

lemma assigned_row:
  assumes "db_inv cast d" "pa \<in> set (t_assignments d)" "live pa"
  shows "\<exists>row. row_of pa d row"
proof -
  from db_invD(5) [OF assms(1)] assms(2,3) obtain l where l: "l \<in> set (t_leases d)" "l_id l = a_lease pa" "held l"
    "l_device l = a_device pa" unfolding match_inv_def by blast
  from db_invD(3) [OF assms(1)] l(1) have "l_device l \<in> d_id ` set (t_devices d)" by (simp add: leases_inv_def)
  then obtain dv where "dv \<in> set (t_devices d)" "d_id dv = l_device l" by fastforce
  with l have "row_of pa d (dv, l)" by (simp add: row_of_def)
  then show ?thesis ..
qed

lemma peer_rows_assigned:
  assumes "db_inv cast d"
  obtains f where "peer_rows d gateway = sort_key (\<lambda>(dv, l). d_id dv) (map f (assigned d gateway))"
    "\<And>pa. pa \<in> set (assigned d gateway) \<Longrightarrow> row_of pa d (f pa)"
proof -
  have "\<forall>pa\<in>set (assigned d gateway). \<exists>row. row_of pa d row"
    using assigned_row [OF assms] by (auto simp: assigned_def)
  from bchoice [OF this] obtain f where f: "\<And>pa. pa \<in> set (assigned d gateway) \<Longrightarrow> row_of pa d (f pa)" by blast
  let ?inner = "\<lambda>pa. concat (map (\<lambda>dv. concat (map (\<lambda>l. [(dv, l)]) (filter (\<lambda>l. l_id l = a_lease pa) (t_leases d))))
     (filter (\<lambda>dv. d_id dv = a_device pa) (t_devices d)))"
  have inner: "?inner pa = [f pa]" if "pa \<in> set (assigned d gateway)" for pa
  proof -
    from f [OF that] have r: "fst (f pa) \<in> set (t_devices d)" "d_id (fst (f pa)) = a_device pa"
      "snd (f pa) \<in> set (t_leases d)" "l_id (snd (f pa)) = a_lease pa" by (simp_all add: row_of_def)
    have "filter (\<lambda>dv. d_id dv = a_device pa) (t_devices d) = [fst (f pa)]"
      using filter_key [OF _ r(1), of d_id] db_invD(2) [OF assms] r(2) by (simp add: devices_inv_def)
    moreover have "filter (\<lambda>l. l_id l = a_lease pa) (t_leases d) = [snd (f pa)]"
      using filter_key [OF _ r(3), of l_id] db_invD(3) [OF assms] r(4) by (simp add: leases_inv_def)
    ultimately show ?thesis by simp
  qed
  have "peer_rows d gateway = sort_key (\<lambda>(dv, l). d_id dv) (concat (map ?inner (assigned d gateway)))"
    by (simp add: peer_rows_def concat_map_if assigned_def)
  also have "concat (map ?inner (assigned d gateway)) = map f (assigned d gateway)"
    by (rule concat_map_single) (rule inner)
  finally show ?thesis using f by (rule that)
qed

lemma length_assigned: "length (assigned d gateway) = live_count d gateway"
  by (simp add: assigned_def live_count_def)

text \<open>The peers a snapshot of a gateway names: one for each of its live assignments.\<close>

definition current_peers :: "db_env \<Rightarrow> db \<Rightarrow> string \<Rightarrow> Peer list" where
  "current_peers env d gateway = map (peer_of_row env) (peer_rows d gateway)"

lemma distinct_map_sort_key: "distinct (map h (sort_key k xs)) = distinct (map h xs)"
  by (rule mset_eq_imp_distinct_iff) simp

lemma inj_on_key: "distinct (map k xs) \<Longrightarrow> x \<in> set xs \<Longrightarrow> y \<in> set xs \<Longrightarrow> k x = k y \<Longrightarrow> x = y"
  by (auto simp: distinct_map inj_on_def)

lemma assigned_devices:
  assumes "db_inv cast d"
  shows "distinct (map a_device (assigned d gateway))"
proof -
  have "distinct (map a_device (filter (\<lambda>pa. a_gateway pa = gateway) (filter live (t_assignments d))))"
    by (rule distinct_map_filter) (use db_invD(4) [OF assms] in \<open>simp add: assignments_inv_def\<close>)
  then show ?thesis by (simp add: assigned_def conj_commute)
qed

lemma parse_host_text:
  assumes "parseAddr t = Some a"
  shows "parsePrefix (t @ ''/32'') = (if bitLen a < 32 then None else Some \<lparr>prefix_addr = a, prefix_bits = 32\<rparr>)"
    and "bitLen a = 128 \<Longrightarrow> parsePrefix (t @ ''/128'') = Some \<lparr>prefix_addr = a, prefix_bits = 128\<rparr>"
proof -
  have "parse_bits ''32'' = Some 32" "parse_bits ''128'' = Some 128" by code_simp+
  with assms parsePrefix_split [of "''32''" t] parsePrefix_split [of "''128''" t]
  show "parsePrefix (t @ ''/32'') = (if bitLen a < 32 then None else Some \<lparr>prefix_addr = a, prefix_bits = 32\<rparr>)"
    and "bitLen a = 128 \<Longrightarrow> parsePrefix (t @ ''/128'') = Some \<lparr>prefix_addr = a, prefix_bits = 128\<rparr>"
    by auto
qed

text \<open>Two live assignments of a gateway have different keys and addresses.\<close>

lemma assigned_distinct:
  assumes inv: "db_inv cast d" "peers_inv d" and g: "g \<in> set (t_gateways d)" "g_id g = gateway"
    and pa: "pa1 \<in> set (assigned d gateway)" "pa2 \<in> set (assigned d gateway)"
    and r: "row_of pa1 d (dv1, l1)" "row_of pa2 d (dv2, l2)"
    and same: "d_key dv1 = d_key dv2 \<or> l_v4 l1 = l_v4 l2 \<or> l_v6 l1 = l_v6 l2"
  shows "pa1 = pa2"
proof -
  have reg: "l_region l1 = g_region g" "l_region l2 = g_region g"
    using inv(2) g pa r by (auto simp: peers_inv_def row_of_def assigned_def)
  note L = db_invD(3) [OF inv(1), unfolded leases_inv_def]
  have "a_device pa1 = a_device pa2"
    using same
  proof (elim disjE)
    assume "d_key dv1 = d_key dv2"
    then have "dv1 = dv2"
      using r db_invD(2) [OF inv(1)] inj_on_key [of d_key "t_devices d" dv1 dv2] by (simp add: devices_inv_def row_of_def)
    with r show ?thesis by (auto simp: row_of_def)
  next
    assume "l_v4 l1 = l_v4 l2"
    then have "l1 = l2"
      using inj_on_key [of "\<lambda>l. (l_region l, l_v4 l)" "filter held (t_leases d)" l1 l2] L r reg by (simp add: row_of_def)
    with r show ?thesis by (auto simp: row_of_def)
  next
    assume "l_v6 l1 = l_v6 l2"
    then have "l1 = l2"
      using inj_on_key [of "\<lambda>l. (l_region l, l_v6 l)" "filter held (t_leases d)" l1 l2] L r reg by (simp add: row_of_def)
    with r show ?thesis by (auto simp: row_of_def)
  qed
  with inj_on_key [OF assigned_devices [OF inv(1)] pa] show ?thesis by simp
qed

lemma distinct_assigned_by:
  assumes "db_inv cast d" "\<And>pa1 pa2. pa1 \<in> set (assigned d gateway) \<Longrightarrow> pa2 \<in> set (assigned d gateway) \<Longrightarrow> h pa1 = h pa2 \<Longrightarrow> pa1 = pa2"
  shows "distinct (map h (assigned d gateway))"
  using assigned_devices [OF assms(1)] assms(2) by (auto simp: distinct_map inj_on_def)

lemma current_peers_valid:
  assumes inv: "db_inv cast d" "peers_inv d" and pb: "prints_back env d"
    and g: "g \<in> set (t_gateways d)" "g_id g = gateway" "g_capacity g \<le> maxPeersPerSnapshot"
  shows "valid_peers (current_peers env d gateway)" and "unambiguous (current_peers env d gateway)"
proof -
  obtain f where rows: "peer_rows d gateway = sort_key (\<lambda>(dv, l). d_id dv) (map f (assigned d gateway))"
    and f: "\<And>pa. pa \<in> set (assigned d gateway) \<Longrightarrow> row_of pa d (f pa)"
    by (rule peer_rows_assigned [OF inv(1)]) blast
  let ?A = "assigned d gateway"
  let ?p = "\<lambda>pa. peer_of_row env (f pa)"
  have set_peers: "set (current_peers env d gateway) = ?p ` set ?A"
    by (simp add: current_peers_def rows image_image)
  have addr: "parseAddr (host_text env (l_v4 (snd (f pa)))) = Some (l_v4 (snd (f pa)))"
    "parseAddr (host_text env (l_v6 (snd (f pa)))) = Some (l_v6 (snd (f pa)))"
    "bitLen (l_v4 (snd (f pa))) = 32" "bitLen (l_v6 (snd (f pa))) = 128" if "pa \<in> set ?A" for pa
    using f [OF that] pb db_invD(3) [OF inv(1)] by (simp_all add: row_of_def prints_back_def leases_inv_def)
  have prefixes: "parsePrefix (peer_IPv4 (?p pa)) = Some \<lparr>prefix_addr = l_v4 (snd (f pa)), prefix_bits = 32\<rparr>"
    "parsePrefix (peer_IPv6 (?p pa)) = Some \<lparr>prefix_addr = l_v6 (snd (f pa)), prefix_bits = 128\<rparr>"
    if "pa \<in> set ?A" for pa
    using addr [OF that] parse_host_text [OF addr(1) [OF that]] parse_host_text(2) [OF addr(2) [OF that]]
    by (simp_all add: peer_of_row_def case_prod_beta)
  have eq: "pa1 = pa2" if m: "pa1 \<in> set ?A" "pa2 \<in> set ?A"
    and "d_key (fst (f pa1)) = d_key (fst (f pa2)) \<or> l_v4 (snd (f pa1)) = l_v4 (snd (f pa2))
      \<or> l_v6 (snd (f pa1)) = l_v6 (snd (f pa2))" for pa1 pa2
    using assigned_distinct [OF inv g(1,2) m] f [OF m(1)] f [OF m(2)] that(3) by (metis prod.collapse)
  have key: "peer_PublicKey (?p pa) = d_key (fst (f pa))" for pa
    by (simp add: peer_of_row_def case_prod_beta)
  have "distinct (map (\<lambda>pa. peer_PublicKey (?p pa)) ?A)"
    by (rule distinct_assigned_by [OF inv(1)]) (metis eq key)
  moreover have "distinct (map (\<lambda>pa. peer_IPv4 (?p pa)) ?A)"
    by (rule distinct_assigned_by [OF inv(1)]) (metis eq prefixes(1) option.inject addr_prefix.ext_inject)
  moreover have "distinct (map (\<lambda>pa. peer_IPv6 (?p pa)) ?A)"
    by (rule distinct_assigned_by [OF inv(1)]) (metis eq prefixes(2) option.inject addr_prefix.ext_inject)
  moreover have "valid_peer (?p pa)" if "pa \<in> set ?A" for pa
    using f [OF that] prefixes [OF that] addr(3,4) [OF that] inv(2)
    by (simp add: valid_peer_def validHostPrefix_def key row_of_def peers_inv_def)
  moreover have "length (peer_rows d gateway) \<le> maxPeersPerSnapshot"
  proof -
    have "live_count d (g_id g) \<le> g_capacity g" using db_invD(6) [OF inv(1)] g(1) by (simp add: gateways_inv_def)
    with g(2,3) show ?thesis by (simp add: rows length_assigned)
  qed
  ultimately show "valid_peers (current_peers env d gateway)"
    using set_peers
    by (auto simp: valid_peers_def current_peers_def rows comp_def distinct_map_sort_key)
  show "unambiguous (current_peers env d gateway)"
    unfolding unambiguous_def set_peers
    using eq by (fastforce simp: prefixes_of_def prefixes)
qed

section \<open>Publishing\<close>

text \<open>The snapshot the store signs for a gateway.\<close>

definition current_snapshot :: "db_env \<Rightarrow> db \<Rightarrow> string \<Rightarrow> string \<Rightarrow> int \<Rightarrow> Snapshot" where
  "current_snapshot env d gateway gatewayID generation =
     \<lparr>snap_GatewayID = gatewayID, snap_Generation = generation,
      snap_ExpiresAt = go_now env + 10 * minute, snap_Peers = current_peers env d gateway,
      snap_Signature = []\<rparr>"

definition queued_row :: "db_env \<Rightarrow> string \<Rightarrow> int \<Rightarrow> string \<Rightarrow> string \<Rightarrow> snapshot_row" where
  "queued_row env gateway generation body signature =
     \<lparr>s_id = new_id env 0, s_gateway = gateway, s_generation = generation,
      s_payload = body, s_signature = signature, s_state = SnapQueued, s_attempts = 0,
      s_available = timestamp (db_now env), s_sent = None, s_acked = None, s_error = None\<rparr>"

lemma EnqueueCurrentGatewaySnapshot_None:
  assumes "EnqueueCurrentGatewaySnapshot env marshal ed_sign gid n key d = (None, d')"
  obtains gateway payload body where "cast_uuid env gid = Some gateway" "gid \<noteq> ''''" "0 < n"
    "marshal (current_snapshot env d gateway gid n) = Inr payload" "cast_jsonb env payload = Some body"
    "length (ed_sign key payload) = 64" "length key = 64" "gateway \<in> g_id ` set (t_gateways d)"
    "d' = d\<lparr>t_snapshots := t_snapshots d @ [queued_row env gateway n body (ed_sign key payload)]\<rparr>"
proof -
  note e = assms [unfolded EnqueueCurrentGatewaySnapshot_def Let_def]
  have g: "gid \<noteq> ''''" "0 < n" "length key = 64" using e by (auto split: if_splits)
  with e obtain rows d0 where r: "attempt env 0 (\<lambda>d. case cast_uuid env gid of
      None \<Rightarrow> Inl invalid_text | Some gateway \<Rightarrow> Inr (peer_rows d gateway, d)) d = Inr (rows, d0)"
    by (auto split: sum.splits prod.splits if_splits)
  then obtain gateway where gw: "cast_uuid env gid = Some gateway" and rows: "rows = peer_rows d gateway"
    by (auto simp: attempt_Inr split: option.splits)
  let ?s = "current_snapshot env d gateway gid n"
  have s: "\<lparr>snap_GatewayID = gid, snap_Generation = n, snap_ExpiresAt = go_now env + 10 * minute,
      snap_Peers = map (peer_of_row env) rows, snap_Signature = []\<rparr> = ?s"
    by (simp add: current_snapshot_def current_peers_def rows)
  note e = e [unfolded r sum.case prod.case s]
  have f1: "fault env 1 = None" using e g by (auto split: option.splits if_splits)
  have sig: "?s\<lparr>snap_Signature := []\<rparr> = ?s" by (simp add: current_snapshot_def)
  have "(case Sign marshal ed_sign ?s key of Inl err \<Rightarrow> (Some err, d)
      | Inr t \<Rightarrow> (case marshal (t\<lparr>snap_Signature := []\<rparr>) of Inl err \<Rightarrow> (Some err, d)
         | Inr payload \<Rightarrow> EnqueueSnapshot_at 2 env gid n payload (snap_Signature t) d)) = (None, d')"
    using e g f1 by simp
  then obtain payload where m: "marshal ?s = Inr payload"
    and q: "EnqueueSnapshot_at 2 env gid n payload (ed_sign key payload) d = (None, d')"
    using g(3) by (auto simp: Sign_def Let_def signingBytes_def sig split: sum.splits)
  from q have i: "insert_snapshot env gid n payload (ed_sign key payload) d = Inr ((), d')"
    by (auto simp: EnqueueSnapshot_at_def split: if_splits prod.splits sum.splits elim!: autocommit_cases)
  then obtain body where b: "cast_jsonb env payload = Some body"
    by (auto simp: insert_snapshot_def split: option.splits)
  show ?thesis
    by (rule that [OF gw g(1,2) m b _ g(3)])
      (use i gw b in \<open>auto simp: insert_snapshot_def queued_row_def split: if_splits\<close>)
qed

lemma current_snapshot_frame [simp]:
  "current_snapshot env (d\<lparr>t_snapshots := x\<rparr>) gateway gid n = current_snapshot env d gateway gid n"
  by (simp add: current_snapshot_def current_peers_def peer_rows_def cong: if_cong)

lemma mem_peer_rows:
  "row \<in> set (peer_rows d gateway) \<longleftrightarrow> (\<exists>pa\<in>set (t_assignments d). a_gateway pa = gateway \<and> live pa
     \<and> fst row \<in> set (t_devices d) \<and> d_id (fst row) = a_device pa
     \<and> snd row \<in> set (t_leases d) \<and> l_id (snd row) = a_lease pa)"
  by (cases row) (auto simp: peer_rows_def concat_map_if)

text \<open>
  C11: Every snapshot the control plane queues is one its gateway accepts. In every reachable
  database, whatever was registered, assigned and revoked before, the snapshot names exactly
  one peer for each live assignment of the gateway, with the key of the device and the
  addresses of its lease, and until it expires the agent of that gateway verifies it: keys,
  addresses and generation are valid, no two peers share a key or an address, and the
  signature is right.
\<close>

theorem published_snapshot_is_accepted:
  assumes "seeded cast d0" and "store_reachable cast d0 d" and "prints_back env d"
    and "\<forall>g\<in>set (t_gateways d). g_capacity g \<le> maxPeersPerSnapshot"
    and "ed25519_sound ed_sign ed_verify key publicKey"
    and "EnqueueCurrentGatewaySnapshot env marshal ed_sign gid n key d = (None, d')"
  shows "\<exists>gateway s row payload. cast_uuid env gid = Some gateway
     \<and> d' = d\<lparr>t_snapshots := t_snapshots d @ [row]\<rparr> \<and> s_gateway row = gateway \<and> s_generation row = n
     \<and> marshal s = Inr payload \<and> cast_jsonb env payload = Some (s_payload row)
     \<and> set (snap_Peers s) = peer_of_row env ` {(dv, l). \<exists>pa\<in>set (t_assignments d).
          a_gateway pa = gateway \<and> live pa \<and> dv \<in> set (t_devices d) \<and> d_id dv = a_device pa
          \<and> l \<in> set (t_leases d) \<and> l_id l = a_lease pa}
     \<and> length (snap_Peers s) = live_count d gateway \<and> unambiguous (snap_Peers s)
     \<and> (\<forall>now < go_now env + 10 * minute.
          Verify marshal ed_verify (s\<lparr>snap_Signature := s_signature row\<rparr>) now gid publicKey = None)"
proof (rule EnqueueCurrentGatewaySnapshot_None [OF assms(6)])
  fix gateway payload body
  assume gw: "cast_uuid env gid = Some gateway" and gid: "gid \<noteq> ''''" "0 < n"
    and m: "marshal (current_snapshot env d gateway gid n) = Inr payload" and b: "cast_jsonb env payload = Some body"
    and g: "gateway \<in> g_id ` set (t_gateways d)"
    and d': "d' = d\<lparr>t_snapshots := t_snapshots d @ [queued_row env gateway n body (ed_sign key payload)]\<rparr>"
  have inv: "db_inv cast d" "peers_inv d"
    using store_reachable_inv [OF assms(2) seeded_inv [OF assms(1)]] peers_inv_reachable [OF assms(2,1)] by auto
  let ?s = "current_snapshot env d gateway gid n"
  from g assms(4) obtain gr where gr: "gr \<in> set (t_gateways d)" "g_id gr = gateway" "g_capacity gr \<le> maxPeersPerSnapshot"
    by fastforce
  note valid = current_peers_valid [OF inv assms(3) gr]
  have "Validate ?s now gid = None" if "now < go_now env + 10 * minute" for now
    using that valid(1) gid by (simp add: Validate_None current_snapshot_def)
  moreover have "Sign marshal ed_sign ?s key = Inr (?s\<lparr>snap_Signature := ed_sign key payload\<rparr>)"
    using m assms(5) by (simp add: Sign_def Let_def signingBytes_def ed25519_sound_def current_snapshot_def)
  ultimately have v: "Verify marshal ed_verify (?s\<lparr>snap_Signature := ed_sign key payload\<rparr>) now gid publicKey = None"
    if "now < go_now env + 10 * minute" for now
    using that Sign_Verify [OF assms(5)] by blast
  have rows: "set (peer_rows d gateway) = {(dv, l). \<exists>pa\<in>set (t_assignments d).
          a_gateway pa = gateway \<and> live pa \<and> dv \<in> set (t_devices d) \<and> d_id dv = a_device pa
          \<and> l \<in> set (t_leases d) \<and> l_id l = a_lease pa}"
    by (intro set_eqI, unfold mem_peer_rows mem_Collect_eq case_prod_beta) (rule refl)
  have peers: "set (snap_Peers ?s) = peer_of_row env ` set (peer_rows d gateway)"
    by (simp add: current_snapshot_def current_peers_def)
  have len: "length (snap_Peers ?s) = live_count d gateway"
    by (rule peer_rows_assigned [OF inv(1), of gateway])
      (simp add: current_snapshot_def current_peers_def length_assigned)
  show ?thesis
    by (intro exI [of _ gateway] exI [of _ ?s] exI [of _ payload]
        exI [of _ "queued_row env gateway n body (ed_sign key payload)"])
      (use gw d' m b peers [unfolded rows] len valid(2) v in \<open>simp add: queued_row_def current_snapshot_def\<close>)
qed

definition sample_marshal :: "Snapshot \<Rightarrow> string result" where
  "sample_marshal s = Inr (CHR ''{'' # snap_GatewayID s)"

lemma sample_needs: "no_fault env \<Longrightarrow> GatewaysNeedingSnapshot env sample_db1 = Inr [''gw1'']"
  using no_faultD [of env]
  by (simp add: GatewaysNeedingSnapshot_def needs_snapshot_def sample_db1_def sample_db_def empty_db_def
      sample_row_defs live_def)

lemma sample_prints_back: "prints_back (sample_env t) sample_db1"
proof -
  have "parseAddr (addr_string (V4 0x0A460002)) = Some (V4 0x0A460002)" "parseAddr (addr_string (V6 2)) = Some (V6 2)"
    by code_simp+
  then show ?thesis by (simp add: prints_back_def sample_db1_def sample_env_def sample_lease_row_def)
qed

lemma sample_enqueue:
  "\<exists>d'. EnqueueCurrentGatewaySnapshot (sample_env ''s'') sample_marshal toy_sign ''gw1'' 1
     (replicate 64 CHR ''k'') sample_db1 = (None, d')"
proof -
  have t: "trimSpace ''gw1'' = ''gw1''" by code_simp
  show ?thesis
    by (simp add: EnqueueCurrentGatewaySnapshot_def attempt_def sample_env_def sample_cast_def peer_rows_def
        Sign_def Let_def signingBytes_def sample_marshal_def EnqueueSnapshot_at_def t autocommit_def
        insert_snapshot_def toy_sign_def generations_def sample_db1_def sample_db_def empty_db_def sample_gateway_row_def)
qed

theorem published_snapshot_is_accepted_witness:
  "\<exists>s signature. length (snap_Peers s) = 1 \<and> snap_GatewayID s = ''gw1''
     \<and> Verify sample_marshal toy_verify (s\<lparr>snap_Signature := signature\<rparr>) 1000 ''gw1'' (replicate 32 CHR ''p'') = None"
proof -
  obtain d' where e: "EnqueueCurrentGatewaySnapshot (sample_env ''s'') sample_marshal toy_sign ''gw1'' 1
     (replicate 64 CHR ''k'') sample_db1 = (None, d')" using sample_enqueue by blast
  have "\<forall>g\<in>set (t_gateways sample_db1). g_capacity g \<le> maxPeersPerSnapshot"
    by (simp add: sample_db1_def sample_db_def empty_db_def sample_gateway_row_def maxPeersPerSnapshot_def)
  from published_snapshot_is_accepted [OF sample_seeded sample_reachable sample_prints_back this toy_ed25519 e]
  show ?thesis
  proof (elim exE conjE)
    fix gateway s row payload
    assume "cast_uuid (sample_env ''s'') ''gw1'' = Some gateway"
      and l: "length (snap_Peers s) = live_count sample_db1 gateway"
      and v: "\<forall>now < go_now (sample_env ''s'') + 10 * minute. Verify sample_marshal toy_verify
        (s\<lparr>snap_Signature := s_signature row\<rparr>) now ''gw1'' (replicate 32 CHR ''p'') = None"
    then have "gateway = ''gw1''" by (simp add: sample_env_def sample_cast_def)
    with l have "length (snap_Peers s) = 1"
      by (simp add: live_count_def sample_db1_def sample_assignment_row_def live_def)
    moreover from v have v: "Verify sample_marshal toy_verify (s\<lparr>snap_Signature := s_signature row\<rparr>) 1000 ''gw1''
        (replicate 32 CHR ''p'') = None" by (simp add: sample_env_def)
    moreover from v have "snap_GatewayID s = ''gw1''" by (simp add: Verify_None Validate_None)
    ultimately show ?thesis by blast
  qed
qed

section \<open>The reconciler\<close>

lemma fold_max: "m \<in> set (x # xs) \<Longrightarrow> m \<le> fold max xs (x :: int)"
  unfolding Max.set_eq_fold [symmetric] by (rule Max_ge) simp_all

lemma fold_max_in: "fold max xs (x :: int) \<in> set (x # xs)"
  unfolding Max.set_eq_fold [symmetric] by (rule Max_in) simp_all

lemma next_generation:
  assumes "env_ok cast env" "no_fault env" "cast gid = Some gateway" "gid \<noteq> ''''"
    and "\<forall>m\<in>set (generations d gateway). 0 < m \<and> m < max_bigint"
  obtains n where "NextGatewaySnapshotGeneration env gid d = Inr n" "0 < n" "n \<le> max_bigint"
    "\<And>m. m \<in> set (generations d gateway) \<Longrightarrow> m < n"
proof -
  let ?x = "case generations d gateway of [] \<Rightarrow> 0 | g # gs \<Rightarrow> fold max gs g"
  have x: "0 \<le> ?x \<and> ?x < max_bigint \<and> (\<forall>m\<in>set (generations d gateway). m \<le> ?x)"
  proof (cases "generations d gateway")
    case (Cons g gs)
    with assms(5) fold_max_in [of gs g] fold_max [of _ g gs] show ?thesis by (auto intro: less_imp_le)
  qed (simp add: max_bigint_def)
  then have "NextGatewaySnapshotGeneration env gid d = Inr (?x + 1)"
    using assms(1-4)
    by (simp add: NextGatewaySnapshotGeneration_def attempt_def no_faultD select_next_generation_def env_okD(1)
        Let_def split: list.splits)
  then show ?thesis by (rule that) (use x in force)+
qed

text \<open>A snapshot has a JSON text that PostgreSQL takes.\<close>

definition json_storable :: "db_env \<Rightarrow> (Snapshot \<Rightarrow> string result) \<Rightarrow> Snapshot \<Rightarrow> bool" where
  "json_storable env marshal s \<longleftrightarrow> (\<exists>payload body. marshal s = Inr payload \<and> payload \<noteq> ''''
     \<and> cast_jsonb env payload = Some body \<and> jsonb_object env body)"

text \<open>The row queued for a gateway carries its current peers.\<close>

definition queued_current ::
  "db \<Rightarrow> (Snapshot \<Rightarrow> string result) \<Rightarrow> (string \<Rightarrow> string \<Rightarrow> string) \<Rightarrow> string \<Rightarrow> db_env \<Rightarrow> snapshot_row \<Rightarrow> bool" where
  "queued_current d marshal ed_sign key env row \<longleftrightarrow> s_state row = SnapQueued \<and> 0 < s_generation row
     \<and> (\<forall>m\<in>set (generations d (s_gateway row)). m < s_generation row)
     \<and> (\<exists>payload. marshal (current_snapshot env d (s_gateway row) (s_gateway row) (s_generation row)) = Inr payload
          \<and> cast_jsonb env payload = Some (s_payload row) \<and> s_signature row = ed_sign key payload)"

lemma publish_gateway_queued:
  assumes "db_inv cast d" "env_ok cast env1" "env_ok cast env2" "no_fault env1" "no_fault env2"
    and "\<And>n. 0 < n \<Longrightarrow> n \<le> max_bigint \<Longrightarrow> json_storable env2 marshal (current_snapshot env2 d g g n)" "length key = 64" "\<forall>m. length (ed_sign key m) = 64"
    and "g \<in> g_id ` set (t_gateways d)" "trimSpace g \<noteq> ''''" "g \<noteq> ''''" "new_id env2 0 \<notin> s_id ` set (t_snapshots d)"
    and "\<forall>m\<in>set (generations d g). m < max_bigint"
  obtains row where "publish_gateway env1 env2 marshal ed_sign key g d =
      (SnapshotQueued g (s_generation row), d\<lparr>t_snapshots := t_snapshots d @ [row]\<rparr>)"
    "s_gateway row = g" "s_id row = new_id env2 0" "queued_current d marshal ed_sign key env2 row"
proof -
  have c: "cast g = Some g" using assms(9) db_invD(6) [OF assms(1)] by (auto simp: gateways_inv_def)
  have pos: "\<forall>m\<in>set (generations d g). 0 < m \<and> m < max_bigint"
    using db_invD(8) [OF assms(1)] assms(13) by (auto simp: generations_def snapshots_inv_def snapshot_ok_def)
  obtain n where n: "NextGatewaySnapshotGeneration env1 g d = Inr n" "0 < n" "n \<le> max_bigint"
    "\<And>m. m \<in> set (generations d g) \<Longrightarrow> m < n"
    by (rule next_generation [OF assms(2,4) c assms(11) pos]) blast
  let ?s = "current_snapshot env2 d g g n"
  from assms(6) [OF n(2,3)] obtain payload body where j: "marshal ?s = Inr payload" "payload \<noteq> ''''"
    "cast_jsonb env2 payload = Some body" "jsonb_object env2 body" unfolding json_storable_def by blast
  let ?row = "queued_row env2 g n body (ed_sign key payload)"
  have f: "fault env2 i = None" for i using assms(5) by (rule no_faultD)
  have "n \<notin> set (generations d g)" using n(4) by blast
  then have i: "insert_snapshot env2 g n payload (ed_sign key payload) d =
      Inr ((), d\<lparr>t_snapshots := t_snapshots d @ [?row]\<rparr>)"
    using j assms(8,9,12) n(2) c env_okD(1) [OF assms(3)] by (simp add: insert_snapshot_def queued_row_def)
  have "EnqueueCurrentGatewaySnapshot env2 marshal ed_sign g n key d = (None, d\<lparr>t_snapshots := t_snapshots d @ [?row]\<rparr>)"
    using assms(7,8,10,11) n(2) c env_okD(1) [OF assms(3)] j(2-4) i
      j(1) [unfolded current_snapshot_def current_peers_def]
    by (simp add: EnqueueCurrentGatewaySnapshot_def attempt_def f Sign_def Let_def signingBytes_def
        EnqueueSnapshot_at_def autocommit_def)
  then have "publish_gateway env1 env2 marshal ed_sign key g d =
      (SnapshotQueued g (s_generation ?row), d\<lparr>t_snapshots := t_snapshots d @ [?row]\<rparr>)"
    using n(1) by (simp add: publish_gateway_def queued_row_def)
  then show ?thesis
    by (rule that) (use n j in \<open>simp_all add: queued_row_def queued_current_def\<close>)
qed

lemma peer_frame [simp]:
  "generations (d\<lparr>t_snapshots := t_snapshots d @ [row]\<rparr>) g =
     generations d g @ (if s_gateway row = g then [s_generation row] else [])"
  by (simp add: generations_def)

text \<open>
  What a run of the reconciler relies on: of the environments of its calls, one for the list and
  two for each gateway, that no call fails, that the ids drawn are new, and that the snapshots of
  the gateways of the database have JSON texts the database takes; and a key.
\<close>

definition publisher_ok ::
  "(string \<Rightarrow> string option) \<Rightarrow> (nat \<Rightarrow> db_env) \<Rightarrow> (Snapshot \<Rightarrow> string result) \<Rightarrow> (string \<Rightarrow> string \<Rightarrow> string)
   \<Rightarrow> string \<Rightarrow> db \<Rightarrow> bool" where
  "publisher_ok cast envs marshal ed_sign key d \<longleftrightarrow>
     (let calls = {..2 * length (t_gateways d)} in
       (\<forall>i\<in>calls. env_ok cast (envs i) \<and> no_fault (envs i) \<and> new_id (envs i) 0 \<notin> s_id ` set (t_snapshots d)
          \<and> (\<forall>g\<in>set (t_gateways d). \<forall>n. 0 < n \<and> n \<le> max_bigint \<longrightarrow>
               json_storable (envs i) marshal (current_snapshot (envs i) d (g_id g) (g_id g) n)))
       \<and> inj_on (\<lambda>i. new_id (envs i) 0) calls)
     \<and> length key = 64 \<and> (\<forall>m. length (ed_sign key m) = 64)
     \<and> (\<forall>g\<in>set (t_gateways d). trimSpace (g_id g) \<noteq> '''')
     \<and> (\<forall>gs\<in>set (t_snapshots d). s_generation gs < max_bigint)"

lemma insert_snapshot_frame_inv:
  assumes "db_inv cast d" "env_ok cast env" "publish_gateway env1 env marshal ed_sign key g d = (SnapshotQueued g n, d')"
  shows "db_inv cast d'"
proof -
  from assms(3) have "EnqueueCurrentGatewaySnapshot env marshal ed_sign g n key d = (None, d')"
    by (auto simp: publish_gateway_def split: sum.splits prod.splits option.splits)
  with EnqueueCurrentGatewaySnapshot_step [OF assms(2), of marshal ed_sign g n key d]
  show ?thesis using store_step_inv [OF _ assms(1)] assms(1) by auto
qed

lemma publish_all_queued:
  assumes "db_inv cast d" "\<And>i. i \<le> top_call \<Longrightarrow> env_ok cast (envs i)" "\<And>i. i \<le> top_call \<Longrightarrow> no_fault (envs i)"
    and "length key = 64" "\<forall>m. length (ed_sign key m) = 64" "inj_on (\<lambda>i. new_id (envs i) 0) {..top_call}"
    and "\<And>i g n. i \<le> top_call \<Longrightarrow> g \<in> set gs \<Longrightarrow> 0 < n \<Longrightarrow> n \<le> max_bigint \<Longrightarrow>
      json_storable (envs i) marshal (current_snapshot (envs i) d g g n)" "k + 2 * length gs \<le> top_call + 1"
    and "distinct gs" "set gs \<subseteq> g_id ` set (t_gateways d)" "\<And>g. g \<in> set gs \<Longrightarrow> trimSpace g \<noteq> '''' \<and> g \<noteq> ''''"
    and "\<And>j. k \<le> j \<Longrightarrow> j \<le> top_call \<Longrightarrow> new_id (envs j) 0 \<notin> s_id ` set (t_snapshots d)"
    and "\<And>g m. g \<in> set gs \<Longrightarrow> m \<in> set (generations d g) \<Longrightarrow> m < max_bigint"
  shows "\<exists>rows. publish_all envs k marshal ed_sign key gs d =
       (map (\<lambda>r. SnapshotQueued (s_gateway r) (s_generation r)) rows, d\<lparr>t_snapshots := t_snapshots d @ rows\<rparr>)
     \<and> map s_gateway rows = gs \<and> (\<forall>r\<in>set rows. \<exists>i. queued_current d marshal ed_sign key (envs i) r)"
  using assms(1,7-13)
proof (induction gs arbitrary: k d)
  case (Cons g gs)
  have k: "k \<le> top_call" "k + 1 \<le> top_call" "k + 2 + 2 * length gs \<le> top_call + 1" using Cons.prems(3) by auto
  have g: "g \<in> g_id ` set (t_gateways d)" "trimSpace g \<noteq> ''''" "g \<noteq> ''''"
    "new_id (envs (k + 1)) 0 \<notin> s_id ` set (t_snapshots d)" "\<forall>m\<in>set (generations d g). m < max_bigint"
    using Cons.prems(5) Cons.prems(6,8) [of g] Cons.prems(7) [of "k + 1"] k by auto
  have j: "json_storable (envs (k + 1)) marshal (current_snapshot (envs (k + 1)) d g g n)" if "0 < n" "n \<le> max_bigint" for n
    by (rule Cons.prems(2)) (use k(2) that in simp_all)
  obtain row where r: "publish_gateway (envs k) (envs (k + 1)) marshal ed_sign key g d =
      (SnapshotQueued g (s_generation row), d\<lparr>t_snapshots := t_snapshots d @ [row]\<rparr>)"
    and row: "s_gateway row = g" "s_id row = new_id (envs (k + 1)) 0" "queued_current d marshal ed_sign key (envs (k + 1)) row"
    by (rule publish_gateway_queued [where marshal = marshal and ed_sign = ed_sign and key = key, OF Cons.prems(1) assms(2) [OF k(1)] assms(2) [OF k(2)] assms(3) [OF k(1)]
          assms(3) [OF k(2)] j assms(4,5) g])
  let ?d = "d\<lparr>t_snapshots := t_snapshots d @ [row]\<rparr>"
  have inv: "db_inv cast ?d" by (rule insert_snapshot_frame_inv [OF Cons.prems(1) assms(2) [OF k(2)] r])
  have fresh: "new_id (envs j) 0 \<notin> s_id ` set (t_snapshots ?d)" if "k + 2 \<le> j" "j \<le> top_call" for j
  proof -
    have "new_id (envs j) 0 \<noteq> new_id (envs (k + 1)) 0" using inj_onD [OF assms(6), of j "k + 1"] that k(2) by auto
    with Cons.prems(7) [of j] that row(2) show ?thesis by auto
  qed
  have "\<exists>rows. publish_all envs (k + 2) marshal ed_sign key gs ?d =
       (map (\<lambda>r. SnapshotQueued (s_gateway r) (s_generation r)) rows, ?d\<lparr>t_snapshots := t_snapshots ?d @ rows\<rparr>)
     \<and> map s_gateway rows = gs \<and> (\<forall>r\<in>set rows. \<exists>i. queued_current ?d marshal ed_sign key (envs i) r)"
  proof (rule Cons.IH [OF inv])
    show "json_storable (envs i) marshal (current_snapshot (envs i) ?d g' g' n)"
      if "i \<le> top_call" "g' \<in> set gs" "0 < n" "n \<le> max_bigint" for i g' n
      using Cons.prems(2) [of i g' n] that by simp
    show "m < max_bigint" if "g' \<in> set gs" "m \<in> set (generations ?d g')" for g' m
    proof -
      have "g' \<noteq> g" using that(1) Cons.prems(4) by auto
      then show ?thesis using Cons.prems(8) [of g' m] that row(1) by simp
    qed
    show "trimSpace g' \<noteq> '''' \<and> g' \<noteq> ''''" if "g' \<in> set gs" for g'
      using Cons.prems(6) [of g'] that by simp
  qed (use Cons.prems(4,5) fresh k(3) in simp_all)
  then obtain rows where rows: "publish_all envs (k + 2) marshal ed_sign key gs ?d =
       (map (\<lambda>r. SnapshotQueued (s_gateway r) (s_generation r)) rows, ?d\<lparr>t_snapshots := t_snapshots ?d @ rows\<rparr>)"
    "map s_gateway rows = gs" "\<forall>r\<in>set rows. \<exists>i. queued_current ?d marshal ed_sign key (envs i) r" by blast
  have older: "queued_current d marshal ed_sign key env x" if "queued_current ?d marshal ed_sign key env x" for env x
    using that by (auto simp: queued_current_def)
  have all: "\<forall>r\<in>set (row # rows). \<exists>i. queued_current d marshal ed_sign key (envs i) r"
    using rows(3) row(3) older by (metis set_ConsD)
  show ?case
    by (intro exI [of _ "row # rows"] conjI all) (use r rows(1,2) row(1) in \<open>simp_all add: numeral_2_eq_2\<close>)
qed (rule exI [of _ "[]"], simp)

text \<open>
  C10: A run of the reconciler reaches every gateway that has work. In every reachable database,
  when no call fails, it queues one snapshot for each gateway that needs one, in the order it
  lists them, with a generation above every earlier one and the peers the gateway has now;
  nothing else changes, every line it logs is a success, and a second run finds nothing to do.
\<close>

theorem reconcile_reaches_every_gateway:
  assumes "seeded cast d0" and "store_reachable cast d0 d" and "publisher_ok cast envs marshal ed_sign key d"
    and "no_fault env"
  shows "\<exists>rows. reconcile envs marshal ed_sign key d =
       (map (\<lambda>r. SnapshotQueued (s_gateway r) (s_generation r)) rows, d\<lparr>t_snapshots := t_snapshots d @ rows\<rparr>)
     \<and> GatewaysNeedingSnapshot env d = Inr (map s_gateway rows)
     \<and> (\<forall>g\<in>set (t_gateways d). needs_snapshot d g \<longrightarrow> g_id g \<in> s_gateway ` set rows)
     \<and> (\<forall>r\<in>set rows. \<exists>i. queued_current d marshal ed_sign key (envs i) r)
     \<and> GatewaysNeedingSnapshot env (snd (reconcile envs marshal ed_sign key d)) = Inr []
     \<and> reconcile envs marshal ed_sign key (snd (reconcile envs marshal ed_sign key d)) =
         ([], snd (reconcile envs marshal ed_sign key d))"
proof -
  have inv: "db_inv cast d" by (rule store_reachable_inv [OF assms(2) seeded_inv [OF assms(1)]])
  let ?last = "2 * length (t_gateways d)"
  from assms(3) have ok: "\<And>i. i \<le> ?last \<Longrightarrow> env_ok cast (envs i)" "\<And>i. i \<le> ?last \<Longrightarrow> no_fault (envs i)"
    "\<And>i. i \<le> ?last \<Longrightarrow> new_id (envs i) 0 \<notin> s_id ` set (t_snapshots d)"
    "\<And>i g n. i \<le> ?last \<Longrightarrow> g \<in> g_id ` set (t_gateways d) \<Longrightarrow> 0 < n \<Longrightarrow> n \<le> max_bigint \<Longrightarrow>
       json_storable (envs i) marshal (current_snapshot (envs i) d g g n)"
    "inj_on (\<lambda>i. new_id (envs i) 0) {..?last}" "length key = 64" "\<forall>m. length (ed_sign key m) = 64"
    "\<forall>g\<in>set (t_gateways d). trimSpace (g_id g) \<noteq> ''''" "\<forall>gs\<in>set (t_snapshots d). s_generation gs < max_bigint"
    unfolding publisher_ok_def Let_def by auto
  let ?gs = "sort (remdups (map g_id (filter (needs_snapshot d) (t_gateways d))))"
  have list: "GatewaysNeedingSnapshot e d1 = Inr (sort (remdups (map g_id (filter (needs_snapshot d1) (t_gateways d1)))))"
    if "no_fault e" for e d1
    using no_faultD [OF that] by (simp add: GatewaysNeedingSnapshot_def)
  have nonempty: "g \<noteq> ''''" if "g \<in> g_id ` set (t_gateways d)" for g
  proof -
    have "trimSpace '''' = ''''" by code_simp
    with ok(8) that show ?thesis by fastforce
  qed
  have "\<exists>rows. publish_all envs 1 marshal ed_sign key ?gs d =
       (map (\<lambda>r. SnapshotQueued (s_gateway r) (s_generation r)) rows, d\<lparr>t_snapshots := t_snapshots d @ rows\<rparr>)
     \<and> map s_gateway rows = ?gs \<and> (\<forall>r\<in>set rows. \<exists>i. queued_current d marshal ed_sign key (envs i) r)"
  proof (rule publish_all_queued [where top_call = ?last and envs = envs and ed_sign = ed_sign and key = key, OF inv ok(1,2,6,7,5)])
    have "length ?gs \<le> length (t_gateways d)"
      using order_trans [OF length_remdups_leq [of "map g_id (filter (needs_snapshot d) (t_gateways d))", unfolded length_map]
          length_filter_le] by simp
    then show "1 + 2 * length ?gs \<le> ?last + 1" by simp
  qed (use ok nonempty in \<open>auto simp: generations_def\<close>)
  then obtain rows where rows: "publish_all envs 1 marshal ed_sign key ?gs d =
       (map (\<lambda>r. SnapshotQueued (s_gateway r) (s_generation r)) rows, d\<lparr>t_snapshots := t_snapshots d @ rows\<rparr>)"
    "map s_gateway rows = ?gs" "\<forall>r\<in>set rows. \<exists>i. queued_current d marshal ed_sign key (envs i) r" by blast
  let ?d = "d\<lparr>t_snapshots := t_snapshots d @ rows\<rparr>"
  have r: "reconcile envs marshal ed_sign key d =
      (map (\<lambda>r. SnapshotQueued (s_gateway r) (s_generation r)) rows, ?d)"
    using ok(2) [of 0] rows(1) by (simp add: reconcile_def list)
  have needs: "\<forall>g\<in>set (t_gateways d). needs_snapshot d g \<longrightarrow> g_id g \<in> s_gateway ` set rows"
    using arg_cong [OF rows(2), of set] by auto
  have "\<not> needs_snapshot ?d g" if "g \<in> set (t_gateways d)" for g
  proof
    assume n: "needs_snapshot ?d g"
    then have "needs_snapshot d g" by (auto simp: needs_snapshot_def)
    with needs that obtain r where "r \<in> set rows" "s_gateway r = g_id g" by force
    moreover from this rows(3) have "s_state r = SnapQueued" by (auto simp: queued_current_def)
    ultimately show False using n by (auto simp: needs_snapshot_def)
  qed
  then have none: "GatewaysNeedingSnapshot e ?d = Inr []" if "no_fault e" for e
    using list [OF that, of ?d] by (simp add: filter_False)
  then have again: "reconcile envs marshal ed_sign key ?d = ([], ?d)"
    using ok(2) [of 0] by (simp add: reconcile_def)
  show ?thesis
    by (intro exI [of _ rows] conjI)
      (use r list [OF assms(4), of d] rows(2,3) needs none [OF assms(4)] again in simp_all)
qed

definition sample_envs :: "nat \<Rightarrow> db_env" where
  "sample_envs i = sample_env (replicate (i + 1) CHR ''s'')"

lemma sample_publisher_ok:
  "publisher_ok sample_cast sample_envs sample_marshal toy_sign (replicate 64 CHR ''k'') sample_db1"
proof -
  have "trimSpace ''gw1'' = ''gw1''" by code_simp
  moreover have "\<forall>m. length (toy_sign (replicate 64 CHR ''k'') m) = 64"
    using toy_ed25519 by (simp add: ed25519_sound_def)
  moreover have "inj_on (\<lambda>i. new_id (sample_envs i) 0) A" for A
    by (rule inj_onI) (auto simp: sample_envs_def sample_env_def dest: arg_cong [where f = length])
  moreover have "json_storable (sample_envs i) sample_marshal s" for i s
    by (simp add: json_storable_def sample_marshal_def sample_envs_def sample_env_def)
  ultimately show ?thesis
    by (simp add: publisher_ok_def sample_envs_def sample_env_ok sample_no_fault
        sample_db1_def sample_db_def empty_db_def sample_gateway_row_def)
qed

theorem reconcile_reaches_every_gateway_witness:
  "\<exists>row. reconcile sample_envs sample_marshal toy_sign (replicate 64 CHR ''k'') sample_db1 =
       ([SnapshotQueued ''gw1'' (s_generation row)], sample_db1\<lparr>t_snapshots := [row]\<rparr>)
     \<and> s_state row = SnapQueued \<and> s_gateway row = ''gw1''"
proof -
  have none: "t_snapshots sample_db1 = []" by (simp add: sample_db1_def sample_db_def empty_db_def)
  from reconcile_reaches_every_gateway [OF sample_seeded sample_reachable sample_publisher_ok sample_no_fault [of "''z''"]]
  obtain rows where r: "reconcile sample_envs sample_marshal toy_sign (replicate 64 CHR ''k'') sample_db1 =
       (map (\<lambda>r. SnapshotQueued (s_gateway r) (s_generation r)) rows,
        sample_db1\<lparr>t_snapshots := t_snapshots sample_db1 @ rows\<rparr>)"
    and "GatewaysNeedingSnapshot (sample_env ''z'') sample_db1 = Inr (map s_gateway rows)"
    and q: "\<forall>r\<in>set rows. \<exists>i. queued_current sample_db1 sample_marshal toy_sign (replicate 64 CHR ''k'') (sample_envs i) r"
    by blast
  then have "map s_gateway rows = [''gw1'']" using sample_needs [OF sample_no_fault] by simp
  then obtain row where "rows = [row]" "s_gateway row = ''gw1''" by auto
  with r q none show ?thesis by (intro exI [of _ row]) (auto simp: queued_current_def)
qed

end
