(* ===== verification/System.thy ===== *)
theory System
  imports Config Router_Facts Publish
begin

text \<open>
  The API as it runs: the account service over the PostgreSQL store and its session store, the
  devices, regions and gateways of the same store behind the two listeners that
  \<^verbatim>\<open>cmd/api/main.go\<close> starts. The state of the system is the account service with the database
  as its users; a request comes with the environment it meets: the calls of the database, the
  clock, the random draws and the order of map iteration.
\<close>

section \<open>The services\<close>

record libs =
  lib_IDKey :: argon2
  lib_sha :: "string \<Rightarrow> hash"
  lib_lower :: "string \<Rightarrow> string"
  lib_codec :: codec
  lib_request :: request_codec

record sys_env =
  se_db :: db_env
  se_ping :: "error option"
  se_salt :: "string result"
  se_rand :: "nat \<Rightarrow> string result"
  se_order :: "session_store \<Rightarrow> string list"
  se_now :: time
  se_later :: time

type_synonym sys = "db auth_service"

text \<open>An operation of the store on the system.\<close>

definition with_db :: "(db \<Rightarrow> 'a \<times> db) \<Rightarrow> sys \<Rightarrow> 'a \<times> sys" where
  "with_db f s = (case f (svc_users s) of (r, d) \<Rightarrow> (r, s\<lparr>svc_users := d\<rparr>))"

definition api_auth :: "libs \<Rightarrow> (sys_env, sys) auth_api" where
  "api_auth lib =
     \<lparr>au_Register = \<lambda>e. Register pg_user_ops (lib_IDKey lib) (lib_lower lib) (se_db e) (se_salt e),
      au_Login = \<lambda>e. Login pg_user_ops (lib_IDKey lib) (lib_sha lib) (lib_lower lib) (se_db e) (se_rand e) (se_now e),
      au_Refresh = \<lambda>e token s. Refresh (lib_sha lib) (se_rand e) (se_order e (svc_sessions s)) (se_now e) (se_later e) token s,
      au_Logout = \<lambda>e userID s. Logout (se_order e (svc_sessions s)) userID s,
      au_AuthenticateAccess = \<lambda>e. Service_AuthenticateAccess (lib_sha lib) (se_now e)\<rparr>"

definition api_devices :: "libs \<Rightarrow> (sys_env, sys) device_ops" where
  "api_devices lib =
     \<lparr>ds_ListDevices = \<lambda>e u s. Store_ListDevices (se_db e) u (svc_users s),
      ds_RegisterDevice = \<lambda>e u q. with_db (Store_RegisterDevice (se_db e) u q),
      ds_RequestRevocation = \<lambda>e u i. with_db (Store_RequestRevocation (se_db e) u i),
      ds_CreateTunnelConfiguration = \<lambda>e u i rg k.
        with_db (Store_CreateTunnelConfiguration (se_db e) (lib_codec lib) u i rg k)\<rparr>"

definition api_regions :: "sys_env \<Rightarrow> sys \<Rightarrow> Region list result" where
  "api_regions e s = Store_ListRegions (se_db e) (svc_users s)"

definition api_gateways :: "(sys_env, sys) gateway_api" where
  "api_gateways =
     \<lparr>gw_ClaimSnapshot = \<lambda>e g. with_db (ClaimSnapshot (se_db e) g),
      gw_AckSnapshotDelivery = \<lambda>e g i n. with_db (AckSnapshotDelivery (se_db e) g i n),
      gw_RetrySnapshotDelivery = \<lambda>e g i t reason. with_db (RetrySnapshotDelivery (se_db e) g i t reason)\<rparr>"

section \<open>The listeners\<close>

definition api_server :: "libs \<Rightarrow> string \<Rightarrow> ('c, 'p, sys_env, sys) http_server" where
  "api_server lib address =
     NewServer address (mux_serve (NewMux (lib_request lib) (Some (api_auth lib))
       (Some (api_devices lib, Some api_regions)) (Some (\<lambda>e _. se_ping e)) [Some api_gateways]))"

definition gateway_mux :: "libs \<Rightarrow> (sys_env, sys) route list" where
  "gateway_mux lib = NewMux (lib_request lib) None None (Some (\<lambda>e _. se_ping e)) [Some api_gateways]"

record ('c, 'p, 'q) api_start =
  api_store :: 'q
  api_service :: sys
  api_public :: "('c, 'p, sys_env, sys) http_server"
  api_gateway :: "('c, 'p, sys_env, sys) http_server option"

text \<open>\<open>d\<close> is the database the pool reaches; the account service starts with an empty session store.\<close>

definition api_main :: "('c, 'p, 'q) os_env \<Rightarrow> libs \<Rightarrow> db \<Rightarrow> ('c, 'p, 'q) api_start started" where
  "api_main os lib d =
     (case Load (os_Getenv os) (Some (os_Getenv os)) of
        Inl err \<Rightarrow> Exits 1
      | Inr runtimeConfig \<Rightarrow>
      (case open_store os (DatabaseURL runtimeConfig) of
        Inl err \<Rightarrow> Exits 1
      | Inr store \<Rightarrow>
          let service = NewAuthService d None;
              server = api_server lib (ListenAddress runtimeConfig)
          in if GatewayListenAddress runtimeConfig \<noteq> '''' then
               (case ServerTLSConfig (os_tls os)
                       \<lparr>CertificateFile = GatewayCertificateFile runtimeConfig,
                        PrivateKeyFile = GatewayPrivateKeyFile runtimeConfig,
                        CAFile = GatewayCAFile runtimeConfig, ServerName = ''''\<rparr> of
                  Inl err \<Rightarrow> Exits 1
                | Inr tlsConfig \<Rightarrow>
                    Started \<lparr>api_store = store, api_service = service, api_public = server,
                      api_gateway = Some (NewMTLSServer (GatewayListenAddress runtimeConfig)
                        (mux_serve (gateway_mux lib)) tlsConfig)\<rparr>)
             else Started \<lparr>api_store = store, api_service = service, api_public = server,
                    api_gateway = None\<rparr>))"

section \<open>What a request changes\<close>

lemma with_db_eq: "with_db f s = (r, s') \<longleftrightarrow> f (svc_users s) = (r, svc_users s') \<and> svc_sessions s' = svc_sessions s"
  by (cases s; cases s') (auto simp: with_db_def split: prod.splits)

lemma snd_with_db: "snd (with_db f s) = s\<lparr>svc_users := snd (f (svc_users s))\<rparr>"
  by (simp add: with_db_def split: prod.splits)

lemma serve_NewMTLSServer: "serve (NewMTLSServer address h tls) e r s = h e r (secured r) s"
  using serve_NewServer [of address h e r s] by (simp add: serve_def NewMTLSServer_def NewServer_def)

text \<open>
  What an operation may do to the database for the owner \<open>w\<close>: nothing, a new device of \<open>w\<close>, a
  revocation of a device of \<open>w\<close>, or a tunnel of an active device of \<open>w\<close> with the answer kept
  under the keys of \<open>w\<close>.
\<close>

inductive owner_move :: "string \<Rightarrow> db \<Rightarrow> db \<Rightarrow> bool" for w d where
  same: "owner_move w d d"
| new_device: "d_user row = w \<Longrightarrow> owner_move w d (d\<lparr>t_devices := t_devices d @ [row]\<rparr>)"
| revoked: "owner_move w d (d\<lparr>t_devices := map (revoke_row w i) (t_devices d)\<rparr>)"
| tunnel: "dv \<in> set (t_devices d) \<Longrightarrow> d_user dv = w \<Longrightarrow> d_state dv = DeviceActive \<Longrightarrow>
    \<forall>l\<in>set ls. l_device l = d_id dv \<Longrightarrow> \<forall>pa\<in>set pas. a_device pa = d_id dv \<Longrightarrow> \<forall>k\<in>set ks. k_user k = w \<Longrightarrow>
    owner_move w d (d\<lparr>t_leases := t_leases d @ ls, t_assignments := t_assignments d @ pas, t_idem := t_idem d @ ks\<rparr>)"

lemma register_device_move:
  assumes "cast_uuid env = cast"
  shows "snd (Store_RegisterDevice env u q d) = d
    \<or> (\<exists>w. cast u = Some w \<and> owner_move w d (snd (Store_RegisterDevice env u q d)))"
proof (cases "ValidateRegisterDevice u q")
  case None
  let ?i = "insert_device env u (trimSpace (req_Name q)) (req_Platform q) (req_PublicKey q)"
  have move: "\<exists>w. cast u = Some w \<and> owner_move w d d'" if "?i d = Inr (x, d')" for x d'
    using that assms by (auto simp: insert_device_def Let_def split: option.splits if_splits intro!: new_device)
  show ?thesis
    unfolding Store_RegisterDevice_db using None move
    by (rule_tac autocommit_snd [of env 0 ?i d]) auto
qed (simp add: Store_RegisterDevice_db)

lemma revocation_move:
  assumes "cast_uuid env = cast"
  shows "snd (Store_RequestRevocation env u i d) = d
    \<or> (\<exists>w. cast u = Some w \<and> owner_move w d (snd (Store_RequestRevocation env u i d)))"
proof -
  obtain r d' where s: "Store_RequestRevocation env u i d = (r, d')" by fastforce
  then show ?thesis
    by (cases rule: Store_RequestRevocation_cases) (use assms s in \<open>auto intro: owner_move.revoked\<close>)
qed

text \<open>The rows a tunnel adds, all of them of the device and its owner.\<close>

lemma tunnel_body_adds:
  assumes "tunnel_body env cd u dv rg k d = Inr (x, d')" "cast_uuid env dv = Some device" "cast_uuid env u = Some owner"
  shows "\<exists>ls pas ks. d' = d\<lparr>t_leases := t_leases d @ ls, t_assignments := t_assignments d @ pas, t_idem := t_idem d @ ks\<rparr>
    \<and> (\<forall>l\<in>set ls. l_device l = device) \<and> (\<forall>pa\<in>set pas. a_device pa = device) \<and> (\<forall>kr\<in>set ks. k_user kr = owner)"
    (is "\<exists>ls pas ks. ?P ls pas ks")
  using assms(1)
proof (rule tunnel_body_cases)
  fix kr assume "replay_answer cd rg kr d = Inr (x, d')"
  then have "?P [] [] []" by (auto simp: replay_answer_def split: if_splits sum.splits)
  then show ?thesis by blast
next
  fix region row dns
  assume r: "reuse_assignment env cd u (tunnel_operation dv) rg k dns row d = Inr (x, d')"
  obtain pa l g where row: "row = (pa, l, g)" by (cases row)
  obtain y i m where x: "x = (y, i, m)" by (cases x)
  obtain kr where "d' = d\<lparr>t_idem := t_idem d @ [kr]\<rparr>" "k_user kr = owner"
    by (rule reuse_assignment_Inr [OF r [unfolded row x]]) (use assms(3) in \<open>auto elim!: insert_idem_frame\<close>)
  then have "?P [] [] [kr]" by simp
  then show ?thesis by blast
next
  fix region dns
  assume r: "allocate_assignment env cd u dv (tunnel_operation dv) rg k region dns d = Inr (x, d')"
  obtain y i m where x: "x = (y, i, m)" by (cases x)
  obtain l pa kr where "d' = d\<lparr>t_leases := t_leases d @ [l], t_assignments := t_assignments d @ [pa], t_idem := t_idem d @ [kr]\<rparr>"
    "l_device l = device" "a_device pa = device" "k_user kr = owner"
    by (rule allocate_assignment_Inr [OF r [unfolded x]], elim insert_lease_Inr insert_assignment_Inr insert_idem_frame)
      (use assms(2,3) in auto)
  then have "?P [l] [pa] [kr]" by simp
  then show ?thesis by blast
qed

lemma tunnel_move:
  assumes "cast_uuid env = cast"
  shows "snd (Store_CreateTunnelConfiguration env cd u i rg k d) = d
    \<or> (\<exists>w. cast u = Some w \<and> owner_move w d (snd (Store_CreateTunnelConfiguration env cd u i rg k d)))"
proof -
  obtain r d' where s: "Store_CreateTunnelConfiguration env cd u i rg k d = (r, d')" by fastforce
  have move: "\<exists>w. cast u = Some w \<and> owner_move w d d'" if b: "tunnel_body env cd u i rg k d = Inr (x, d')" for x
  proof (rule tunnel_body_device [OF b])
    fix device owner dv
    assume dv: "cast_uuid env i = Some device" "cast_uuid env u = Some owner" "dv \<in> set (t_devices d)"
      "d_id dv = device" "d_user dv = owner" "d_state dv = DeviceActive"
    from tunnel_body_adds [OF b dv(1,2)] obtain ls pas ks where
      d': "d' = d\<lparr>t_leases := t_leases d @ ls, t_assignments := t_assignments d @ pas, t_idem := t_idem d @ ks\<rparr>"
      and "\<forall>l\<in>set ls. l_device l = d_id dv" "\<forall>pa\<in>set pas. a_device pa = d_id dv" "\<forall>kr\<in>set ks. k_user kr = owner"
      unfolding dv(4) by blast
    from owner_move.tunnel [OF dv(3,5,6) this(2-)] dv(2) assms show ?thesis by (auto simp: d')
  qed
  from s show ?thesis
    by (cases rule: Store_CreateTunnelConfiguration_cases) (use s move in auto)
qed

lemma create_user_move: "snd (CreateUser env n h d) = d \<or> (\<exists>row. snd (CreateUser env n h d) = d\<lparr>t_users := t_users d @ [row]\<rparr>)"
proof -
  obtain r d' where s: "CreateUser env n h d = (r, d')" by fastforce
  then show ?thesis
    by (cases rule: CreateUser_cases) (use s in \<open>auto simp: insert_user_def split: if_splits\<close>)
qed

lemma user_moves:
  assumes "acts_as_user (Some (api_auth lib)) (Some (api_devices lib, lr)) e u s s'" "cast_uuid (se_db e) = cast"
  shows "svc_users s' = svc_users s \<or> (\<exists>w. cast u = Some w \<and> owner_move w (svc_users s) (svc_users s'))"
  using assms(1)
proof cases
  case (register ops lr q)
  then show ?thesis
    using register_device_move [OF assms(2), of u q "svc_users s"] by (auto simp: api_devices_def snd_with_db)
next
  case (revoke ops lr i)
  then show ?thesis
    using revocation_move [OF assms(2), of u i "svc_users s"] by (auto simp: api_devices_def snd_with_db)
next
  case (configure ops lr i rg k)
  then show ?thesis
    using tunnel_move [OF assms(2), of "lib_codec lib" u i rg k "svc_users s"] by (auto simp: api_devices_def snd_with_db)
next
  case (logout au)
  then have "au = api_auth lib" by simp
  with logout show ?thesis by (simp add: api_auth_def Logout_def)
qed simp

lemma Register_users:
  "svc_users (snd (Register pg_user_ops IDKey ulow env salt email password s)) = svc_users s
   \<or> (\<exists>n h. svc_users (snd (Register pg_user_ops IDKey ulow env salt email password s)) = snd (CreateUser env n h (svc_users s)))"
  by (auto simp: Register_def pg_user_ops_def case_prod_beta split: sum.splits)

lemma visitor_moves:
  assumes "acts_as_visitor (Some (api_auth lib)) e s s'"
  shows "svc_users s' = svc_users s
    \<or> (\<exists>email password row. s' = snd (Register pg_user_ops (lib_IDKey lib) (lib_lower lib) (se_db e) (se_salt e) email password s)
        \<and> svc_users s' = (svc_users s)\<lparr>t_users := t_users (svc_users s) @ [row]\<rparr>)"
  using assms
proof cases
  case (register_account au email password)
  then have "au = api_auth lib" by simp
  with register_account have "s' = snd (Register pg_user_ops (lib_IDKey lib) (lib_lower lib) (se_db e) (se_salt e) email password s)"
    by (simp add: api_auth_def)
  moreover from this Register_users [of "lib_IDKey lib" "lib_lower lib" "se_db e" "se_salt e" email password s] create_user_move
  have "svc_users s' = svc_users s \<or> (\<exists>row. svc_users s' = (svc_users s)\<lparr>t_users := t_users (svc_users s) @ [row]\<rparr>)" by metis
  ultimately show ?thesis by blast
next
  case (login au email password)
  then have "au = api_auth lib" by simp
  with login show ?thesis
    by (simp add: api_auth_def Login_def Let_def case_prod_beta split: sum.splits)
next
  case (refresh au token)
  then have "au = api_auth lib" by simp
  with refresh show ?thesis by (simp add: api_auth_def Refresh_def case_prod_beta)
qed

lemma api_server_moves:
  assumes "serve (api_server lib address) e r s = (w, s')" "sr_TLS r = None" "cast_uuid (se_db e) = cast"
  shows "svc_users s' = svc_users s
    \<or> (\<exists>email password row. s' = snd (Register pg_user_ops (lib_IDKey lib) (lib_lower lib) (se_db e) (se_salt e) email password s)
        \<and> svc_users s' = (svc_users s)\<lparr>t_users := t_users (svc_users s) @ [row]\<rparr>)
    \<or> (\<exists>u v. token_of (Some (api_auth lib)) e r s u \<and> cast u = Some v \<and> owner_move v (svc_users s) (svc_users s'))"
proof -
  from assms(1) have "mux_serve (NewMux (lib_request lib) (Some (api_auth lib)) (Some (api_devices lib, Some api_regions))
      (Some (\<lambda>e _. se_ping e)) [Some api_gateways]) e r (secured r) s = (w, s')"
    by (simp add: api_server_def serve_NewServer)
  from mux_access [OF this secured_writer(2)] assms(2)
  consider "s' = s" | "acts_as_visitor (Some (api_auth lib)) e s s'"
    | u where "token_of (Some (api_auth lib)) e r s u"
        "acts_as_user (Some (api_auth lib)) (Some (api_devices lib, Some api_regions)) e u s s'"
    by (auto simp: gatewayIdentity_def)
  then show ?thesis
    by cases (use visitor_moves user_moves [OF _ assms(3)] in blast)+
qed

text \<open>
  C12: Who does what at the API. Whatever request arrives at the public listener, in whatever
  state and whatever fails, it leaves the database as it is, or it registers an account, which
  adds this one row and nothing else, or it carries a valid access token of a user and does one
  of three things for that user: it adds a device of the user; it asks for the revocation of a
  device, which changes no row of a device of anybody else; or it adds rows for the tunnel of an
  active device of the user, with the lease and the assignment of this device and the stored
  answer under this user. In each case every other table is exactly as before: no account,
  region, gateway or delivery changes, and no lease, assignment or stored answer is taken away.
\<close>

theorem request_acts_for_its_user:
  assumes "serve (api_server lib address) e r s = (w, s')" and "sr_TLS r = None" and "cast_uuid (se_db e) = cast"
  defines "d \<equiv> svc_users s"
  shows "svc_users s' = d
     \<or> (\<exists>email password row.
          s' = snd (Register pg_user_ops (lib_IDKey lib) (lib_lower lib) (se_db e) (se_salt e) email password s)
          \<and> svc_users s' = d\<lparr>t_users := t_users d @ [row]\<rparr>)
     \<or> (\<exists>u owner. token_of (Some (api_auth lib)) e r s u \<and> cast u = Some owner
          \<and> ((\<exists>row. d_user row = owner \<and> svc_users s' = d\<lparr>t_devices := t_devices d @ [row]\<rparr>)
             \<or> (\<exists>i. svc_users s' = d\<lparr>t_devices := map (\<lambda>dv. if d_user dv = owner then revoke_row owner i dv else dv) (t_devices d)\<rparr>)
             \<or> (\<exists>dv\<in>set (t_devices d). d_user dv = owner \<and> d_state dv = DeviceActive
                  \<and> (\<exists>ls pas ks. svc_users s' =
                       d\<lparr>t_leases := t_leases d @ ls, t_assignments := t_assignments d @ pas, t_idem := t_idem d @ ks\<rparr>
                     \<and> (\<forall>l\<in>set ls. l_device l = d_id dv) \<and> (\<forall>pa\<in>set pas. a_device pa = d_id dv)
                     \<and> (\<forall>k\<in>set ks. k_user k = owner)))))"
  using api_server_moves [OF assms(1-3)]
proof (elim disjE exE conjE)
  fix u v
  assume t: "token_of (Some (api_auth lib)) e r s u" "cast u = Some v"
    and m: "owner_move v (svc_users s) (svc_users s')"
  from m show ?thesis
  proof cases
    case (revoked i)
    have "map (revoke_row v i) (t_devices d) =
        map (\<lambda>dv. if d_user dv = v then revoke_row v i dv else dv) (t_devices d)" by (simp add: revoke_row_def)
    with revoked have "svc_users s' = d\<lparr>t_devices := map (\<lambda>dv. if d_user dv = v then revoke_row v i dv else dv) (t_devices d)\<rparr>"
      by (simp add: d_def)
    with t show ?thesis by blast
  next
    case new_device
    with t show ?thesis unfolding d_def by blast
  next
    case tunnel
    with t show ?thesis unfolding d_def by blast
  qed (simp add: d_def)
qed (auto simp: d_def)

section \<open>What a gateway changes\<close>

text \<open>
  Only rows of the gateway \<open>g\<close> move, and no row is added or lost: deliveries and live assignments
  of the gateway, and, where an assignment of the gateway is removed, its lease is released and
  the pending revocation of its device ends.
\<close>

definition gateway_move :: "string \<Rightarrow> db \<Rightarrow> db \<Rightarrow> bool" where
  "gateway_move g d d' \<longleftrightarrow> t_users d' = t_users d \<and> t_idem d' = t_idem d \<and> t_regions d' = t_regions d
     \<and> t_gateways d' = t_gateways d
     \<and> (\<exists>f. t_snapshots d' = map f (t_snapshots d)
          \<and> (\<forall>gs. s_gateway (f gs) = s_gateway gs \<and> (s_gateway gs \<noteq> g \<longrightarrow> f gs = gs)))
     \<and> (\<exists>h. t_assignments d' = map h (t_assignments d)
          \<and> (\<forall>pa. a_gateway (h pa) = a_gateway pa \<and> a_lease (h pa) = a_lease pa \<and> a_device (h pa) = a_device pa
                \<and> (a_gateway pa \<noteq> g \<or> \<not> live pa \<longrightarrow> h pa = pa)))
     \<and> (\<exists>f. t_leases d' = map f (t_leases d)
          \<and> (\<forall>l. f l = l \<or> held l \<and> removed_here g (\<lambda>pa. a_lease pa = l_id l) d' \<and> (\<exists>t. f l = l\<lparr>l_released := Some t\<rparr>)))
     \<and> (\<exists>f. t_devices d' = map f (t_devices d)
          \<and> (\<forall>dv. f dv = dv \<or> d_state dv = DeviceRevocationPending \<and> removed_here g (\<lambda>pa. a_device pa = d_id dv) d'
                \<and> (\<exists>t. f dv = dv\<lparr>d_state := DeviceRevoked, d_revoked := Some t\<rparr>)))"

lemma gateway_moveI:
  assumes "t_users d' = t_users d" "t_idem d' = t_idem d" "t_regions d' = t_regions d" "t_gateways d' = t_gateways d"
    and "t_snapshots d' = map f (t_snapshots d)"
      "\<And>gs. s_gateway (f gs) = s_gateway gs" "\<And>gs. s_gateway gs \<noteq> g \<Longrightarrow> f gs = gs"
    and "t_assignments d' = map h (t_assignments d)"
      "\<And>pa. a_gateway (h pa) = a_gateway pa \<and> a_lease (h pa) = a_lease pa \<and> a_device (h pa) = a_device pa"
      "\<And>pa. a_gateway pa \<noteq> g \<or> \<not> live pa \<Longrightarrow> h pa = pa"
    and "t_leases d' = map m (t_leases d)"
      "\<And>l. m l = l \<or> held l \<and> removed_here g (\<lambda>pa. a_lease pa = l_id l) d' \<and> (\<exists>t. m l = l\<lparr>l_released := Some t\<rparr>)"
    and "t_devices d' = map q (t_devices d)"
      "\<And>dv. q dv = dv \<or> d_state dv = DeviceRevocationPending \<and> removed_here g (\<lambda>pa. a_device pa = d_id dv) d'
         \<and> (\<exists>t. q dv = dv\<lparr>d_state := DeviceRevoked, d_revoked := Some t\<rparr>)"
  shows "gateway_move g d d'"
proof -
  have "\<forall>gs. s_gateway (f gs) = s_gateway gs \<and> (s_gateway gs \<noteq> g \<longrightarrow> f gs = gs)"
    and "\<forall>pa. a_gateway (h pa) = a_gateway pa \<and> a_lease (h pa) = a_lease pa \<and> a_device (h pa) = a_device pa
      \<and> (a_gateway pa \<noteq> g \<or> \<not> live pa \<longrightarrow> h pa = pa)"
    using assms(6,7,9,10) by simp_all
  then show ?thesis
    unfolding gateway_move_def
    by (intro conjI exI [of _ f] exI [of _ h] exI [of _ m] exI [of _ q] allI assms(1-5,8,11-14); assumption?) blast+
qed

lemma gateway_moveE:
  assumes "gateway_move g d d'"
  obtains f h m q where "t_users d' = t_users d" "t_idem d' = t_idem d" "t_regions d' = t_regions d"
    "t_gateways d' = t_gateways d" "t_snapshots d' = map f (t_snapshots d)"
    "\<forall>gs. s_gateway (f gs) = s_gateway gs \<and> (s_gateway gs \<noteq> g \<longrightarrow> f gs = gs)"
    "t_assignments d' = map h (t_assignments d)"
    "\<forall>pa. a_gateway (h pa) = a_gateway pa \<and> a_lease (h pa) = a_lease pa \<and> a_device (h pa) = a_device pa
       \<and> (a_gateway pa \<noteq> g \<or> \<not> live pa \<longrightarrow> h pa = pa)"
    "t_leases d' = map m (t_leases d)"
    "\<forall>l. m l = l \<or> held l \<and> removed_here g (\<lambda>pa. a_lease pa = l_id l) d' \<and> (\<exists>t. m l = l\<lparr>l_released := Some t\<rparr>)"
    "t_devices d' = map q (t_devices d)"
    "\<forall>dv. q dv = dv \<or> d_state dv = DeviceRevocationPending \<and> removed_here g (\<lambda>pa. a_device pa = d_id dv) d'
         \<and> (\<exists>t. q dv = dv\<lparr>d_state := DeviceRevoked, d_revoked := Some t\<rparr>)"
  using assms unfolding gateway_move_def by (elim conjE exE) (rule that; assumption)

lemma gateway_move_refl: "gateway_move g d d"
  by (rule gateway_moveI [of _ _ "\<lambda>x. x" _ "\<lambda>x. x" "\<lambda>x. x" "\<lambda>x. x"]) simp_all

text \<open>What was removed stays removed.\<close>

lemma removed_here_map:
  assumes "removed_here g P d" "t_assignments d' = map h (t_assignments d)"
    and "\<And>pa. a_gateway pa \<noteq> g \<or> \<not> live pa \<Longrightarrow> h pa = pa"
  shows "removed_here g P d'"
proof -
  from assms(1) obtain pa where pa: "pa \<in> set (t_assignments d)" "P pa" "a_gateway pa = g" "a_state pa = AsgRemoved"
    by (auto simp: removed_here_def)
  then have "h pa = pa" by (intro assms(3)) (simp add: live_iff)
  with pa show ?thesis unfolding removed_here_def assms(2) by (metis image_eqI list.set_map)
qed

lemma gateway_move_trans:
  assumes "gateway_move g d d1" "gateway_move g d1 d2"
  shows "gateway_move g d d2"
proof (rule gateway_moveE [OF assms(1)], rule gateway_moveE [OF assms(2)])
  fix f h m q f' h' m' q'
  assume 1: "t_users d1 = t_users d" "t_idem d1 = t_idem d" "t_regions d1 = t_regions d"
    "t_gateways d1 = t_gateways d" "t_snapshots d1 = map f (t_snapshots d)"
    "t_assignments d1 = map h (t_assignments d)"
    "t_leases d1 = map m (t_leases d)" "t_devices d1 = map q (t_devices d)"
    and f: "\<forall>gs. s_gateway (f gs) = s_gateway gs \<and> (s_gateway gs \<noteq> g \<longrightarrow> f gs = gs)"
    and h: "\<forall>pa. a_gateway (h pa) = a_gateway pa \<and> a_lease (h pa) = a_lease pa \<and> a_device (h pa) = a_device pa
       \<and> (a_gateway pa \<noteq> g \<or> \<not> live pa \<longrightarrow> h pa = pa)"
    and m: "\<forall>l. m l = l \<or> held l \<and> removed_here g (\<lambda>pa. a_lease pa = l_id l) d1 \<and> (\<exists>t. m l = l\<lparr>l_released := Some t\<rparr>)"
    and q: "\<forall>dv. q dv = dv \<or> d_state dv = DeviceRevocationPending \<and> removed_here g (\<lambda>pa. a_device pa = d_id dv) d1
         \<and> (\<exists>t. q dv = dv\<lparr>d_state := DeviceRevoked, d_revoked := Some t\<rparr>)"
  assume 2: "t_users d2 = t_users d1" "t_idem d2 = t_idem d1" "t_regions d2 = t_regions d1"
    "t_gateways d2 = t_gateways d1" "t_snapshots d2 = map f' (t_snapshots d1)"
    "t_assignments d2 = map h' (t_assignments d1)"
    "t_leases d2 = map m' (t_leases d1)" "t_devices d2 = map q' (t_devices d1)"
    and f': "\<forall>gs. s_gateway (f' gs) = s_gateway gs \<and> (s_gateway gs \<noteq> g \<longrightarrow> f' gs = gs)"
    and h': "\<forall>pa. a_gateway (h' pa) = a_gateway pa \<and> a_lease (h' pa) = a_lease pa \<and> a_device (h' pa) = a_device pa
       \<and> (a_gateway pa \<noteq> g \<or> \<not> live pa \<longrightarrow> h' pa = pa)"
    and m': "\<forall>l. m' l = l \<or> held l \<and> removed_here g (\<lambda>pa. a_lease pa = l_id l) d2 \<and> (\<exists>t. m' l = l\<lparr>l_released := Some t\<rparr>)"
    and q': "\<forall>dv. q' dv = dv \<or> d_state dv = DeviceRevocationPending \<and> removed_here g (\<lambda>pa. a_device pa = d_id dv) d2
         \<and> (\<exists>t. q' dv = dv\<lparr>d_state := DeviceRevoked, d_revoked := Some t\<rparr>)"
  have "\<And>pa. a_gateway pa \<noteq> g \<or> \<not> live pa \<Longrightarrow> h' pa = pa" using h' by simp
  note later = removed_here_map [OF _ 2(6) this]
  have "(m' \<circ> m) l = l \<or> held l \<and> removed_here g (\<lambda>pa. a_lease pa = l_id l) d2 \<and> (\<exists>t. (m' \<circ> m) l = l\<lparr>l_released := Some t\<rparr>)" for l
    using spec [OF m, of l]
  proof
    assume a: "m l = l"
    from spec [OF m', of l] show ?thesis by (simp add: a)
  next
    assume a: "held l \<and> removed_here g (\<lambda>pa. a_lease pa = l_id l) d1 \<and> (\<exists>t. m l = l\<lparr>l_released := Some t\<rparr>)"
    then have "\<not> held (m l)" by auto
    with spec [OF m', of "m l"] have "m' (m l) = m l" by blast
    with a later show ?thesis by auto
  qed
  moreover have "(q' \<circ> q) dv = dv \<or> d_state dv = DeviceRevocationPending \<and> removed_here g (\<lambda>pa. a_device pa = d_id dv) d2
      \<and> (\<exists>t. (q' \<circ> q) dv = dv\<lparr>d_state := DeviceRevoked, d_revoked := Some t\<rparr>)" for dv
    using spec [OF q, of dv]
  proof
    assume a: "q dv = dv"
    from spec [OF q', of dv] show ?thesis by (simp add: a)
  next
    assume a: "d_state dv = DeviceRevocationPending \<and> removed_here g (\<lambda>pa. a_device pa = d_id dv) d1
         \<and> (\<exists>t. q dv = dv\<lparr>d_state := DeviceRevoked, d_revoked := Some t\<rparr>)"
    then have "d_state (q dv) \<noteq> DeviceRevocationPending" by auto
    with spec [OF q', of "q dv"] have "q' (q dv) = q dv" by blast
    with a later show ?thesis by auto
  qed
  ultimately show ?thesis
    by (intro gateway_moveI [of _ _ "f' \<circ> f" _ "h' \<circ> h" "m' \<circ> m" "q' \<circ> q"]) (use 1 2 f f' h h' in \<open>simp_all add: live_iff\<close>)
qed

lemma gateway_steps:
  assumes "d1 = d \<or> (\<exists>gateway. cast g = Some gateway \<and> gateway_move gateway d d1)"
    and "d2 = d1 \<or> (\<exists>gateway. cast g = Some gateway \<and> gateway_move gateway d1 d2)"
  shows "d2 = d \<or> (\<exists>gateway. cast g = Some gateway \<and> gateway_move gateway d d2)"
  using assms(1)
proof (elim disjE exE conjE)
  fix h
  assume h: "cast g = Some h" "gateway_move h d d1"
  with assms(2) have "d2 = d1 \<or> gateway_move h d1 d2" by auto
  with h gateway_move_trans [of h d d1 d2] show ?thesis by blast
qed (use assms(2) in simp)

lemma claim_move:
  assumes "db_inv cast d" "cast_uuid env = cast"
  shows "snd (ClaimSnapshot env g d) = d
    \<or> (\<exists>gateway. cast g = Some gateway \<and> gateway_move gateway d (snd (ClaimSnapshot env g d)))"
proof (cases "trimSpace g = ''''")
  case False
  have move: "\<exists>gateway. cast g = Some gateway \<and> gateway_move gateway d d'"
    if b: "claim_body env g d = Inr ((x, i, c), d')" for x i c d'
  proof (rule claim_body_Inr [OF db_invD(8) [OF assms(1)] assms(2) b])
    fix gateway gs
    assume g: "cast_uuid env g = Some gateway" and dl: "deliverable env gateway gs"
      and d': "d' = d\<lparr>t_snapshots := map (\<lambda>r. if s_id r = s_id gs then send_row env r else r) (t_snapshots d)\<rparr>"
      and un: "\<And>r. r \<in> set (t_snapshots d) \<Longrightarrow> s_id r = s_id gs \<Longrightarrow> r = gs"
    have rows: "map (\<lambda>r. if s_id r = s_id gs then send_row env r else r) (t_snapshots d) =
      map (\<lambda>r. if r = gs then send_row env r else r) (t_snapshots d)" using un by auto
    have "gateway_move gateway d d'"
      by (rule gateway_moveI [of _ _ "\<lambda>r. if r = gs then send_row env r else r" _ "\<lambda>x. x" "\<lambda>x. x" "\<lambda>x. x"])
        (use dl in \<open>auto simp: d' rows send_row_def deliverable_def\<close>)
    with g assms(2) show ?thesis by blast
  qed
  show ?thesis
    by (rule run_tx_snd [of env "''begin snapshot claim''" "claim_body env g" d])
      (use False move in \<open>auto simp: ClaimSnapshot_db ClaimNextSnapshot_tx\<close>)
qed (simp add: ClaimSnapshot_db ClaimNextSnapshot_tx)

lemma update_snapshots_move:
  assumes "update_snapshots P f d = (x, d')" "\<And>gs. P gs \<Longrightarrow> s_gateway gs = g" "\<And>gs. s_gateway (f gs) = s_gateway gs"
  shows "gateway_move g d d'"
  by (rule gateway_moveI [of _ _ "\<lambda>gs. if P gs then f gs else gs" _ "\<lambda>x. x" "\<lambda>x. x" "\<lambda>x. x"])
    (use assms in \<open>auto simp: update_snapshots_def\<close>)

lemma ack_move:
  assumes "cast_uuid env = cast"
  shows "snd (AckSnapshot_at i env g s n d) = d
    \<or> (\<exists>gateway. cast g = Some gateway \<and> gateway_move gateway d (snd (AckSnapshot_at i env g s n d)))"
proof -
  have move: "\<exists>gateway. cast g = Some gateway \<and> gateway_move gateway d d'" if u: "update_acked env g s n d = Inr (x, d')" for x d'
  proof -
    from u assms obtain j gateway where "cast g = Some gateway"
      and "update_snapshots (\<lambda>gs. s_id gs = j \<and> s_gateway gs = gateway \<and> s_generation gs = n
        \<and> s_state gs = SnapInFlight) (ack_row env) d = (x, d')"
      by (auto simp: update_acked_def split: option.splits)
    with update_snapshots_move [OF this(2), of gateway] show ?thesis by (auto simp: ack_row_def)
  qed
  show ?thesis
    unfolding AckSnapshot_db
    by (rule autocommit_snd [of env i "update_acked env g s n" d]) (use move in auto)
qed

lemma retry_move:
  assumes "cast_uuid env = cast"
  shows "snd (RetrySnapshot env g s t reason d) = d
    \<or> (\<exists>gateway. cast g = Some gateway \<and> gateway_move gateway d (snd (RetrySnapshot env g s t reason d)))"
proof -
  let ?r = "if length reason > 512 then take 512 reason else reason"
  have move: "\<exists>gateway. cast g = Some gateway \<and> gateway_move gateway d d'" if u: "update_failed env g s t ?r d = Inr (x, d')" for x d'
  proof -
    from u assms obtain j gateway where "cast g = Some gateway"
      and "update_snapshots (\<lambda>gs. s_id gs = j \<and> s_gateway gs = gateway \<and> s_state gs = SnapInFlight)
        (fail_row t ?r) d = (x, d')"
      by (auto simp: update_failed_def split: option.splits)
    with update_snapshots_move [OF this(2), of gateway] show ?thesis by (auto simp: fail_row_def)
  qed
  show ?thesis
    unfolding RetrySnapshot_db
    by (rule autocommit_snd [of env 0 "update_failed env g s t ?r" d]) (use move in auto)
qed

lemma confirm_move:
  assumes "cast_uuid env = cast"
  shows "snd (ConfirmGatewaySnapshot env g n d) = d
    \<or> (\<exists>gateway. cast g = Some gateway \<and> gateway_move gateway d (snd (ConfirmGatewaySnapshot env g n d)))"
proof -
  have move: "\<exists>gateway. cast g = Some gateway \<and> gateway_move gateway d d'"
    if b: "confirm_body env g n d = Inr ((x, i, c), d')" for x i c d'
  proof (rule confirm_body_Inr [OF b])
    fix gateway d1 d2
    assume g: "cast_uuid env g = Some gateway"
      and "d1 = d\<lparr>t_assignments := map (confirm_row gateway n) (t_assignments d)\<rparr>"
        "d2 = d1\<lparr>t_leases := map (release_row env gateway d1) (t_leases d1)\<rparr>"
        "d' = d2\<lparr>t_devices := map (end_revocation env gateway d2) (t_devices d2)\<rparr>"
    then have "gateway_move gateway d d'"
      by (intro gateway_moveI [of _ _ "\<lambda>x. x" _ "confirm_row gateway n" "release_row env gateway d1" "end_revocation env gateway d2"])
        (auto simp: confirm_row_def release_row_def end_revocation_def removed_here_def)
    with g assms show ?thesis by blast
  qed
  show ?thesis
    unfolding ConfirmGatewaySnapshot_tx
    by (rule run_tx_snd [of env "''begin gateway confirmation''" "confirm_body env g n" d]) (use move in auto)
qed

lemma gateway_ops_move:
  assumes "acts_as_gateway [Some api_gateways] e g s s'" "db_inv cast (svc_users s)" "cast_uuid (se_db e) = cast"
  shows "svc_sessions s' = svc_sessions s
    \<and> (svc_users s' = svc_users s \<or> (\<exists>gateway. cast g = Some gateway \<and> gateway_move gateway (svc_users s) (svc_users s')))"
  using assms(1)
proof cases
  case (claim svc rest)
  then show ?thesis
    using claim_move [OF assms(2,3), of g] by (auto simp: api_gateways_def snd_with_db)
next
  case (ack svc rest i n)
  let ?d = "svc_users s"
  obtain r1 d1 where a: "AckSnapshot_at 5 (se_db e) g i n ?d = (r1, d1)" by fastforce
  obtain r2 d2 where c: "ConfirmGatewaySnapshot (se_db e) g n d1 = (r2, d2)" by fastforce
  from ack_move [OF assms(3), of 5 g i n ?d] a
  have m1: "d1 = ?d \<or> (\<exists>gateway. cast g = Some gateway \<and> gateway_move gateway ?d d1)" by simp
  from confirm_move [OF assms(3), of g n d1] c
  have m2: "d2 = d1 \<or> (\<exists>gateway. cast g = Some gateway \<and> gateway_move gateway d1 d2)" by simp
  have "svc_users s' = d1 \<or> svc_users s' = d2"
    using ack a c by (auto simp: api_gateways_def snd_with_db AckSnapshotDelivery_def split: option.splits sum.splits)
  moreover have "svc = api_gateways" using ack by simp
  with ack have "svc_sessions s' = svc_sessions s" by (simp add: snd_with_db api_gateways_def)
  ultimately show ?thesis using m1 gateway_steps [of d1 ?d cast g d2, OF m1 m2] by (elim disjE) simp_all
next
  case (fail svc rest i t reason)
  then show ?thesis
    using retry_move [OF assms(3), of g i t reason "svc_users s"]
    by (auto simp: api_gateways_def snd_with_db RetrySnapshotDelivery_def)
qed simp

text \<open>
  C13: Gateways are kept apart. Whatever arrives at the mutual TLS listener of the gateways
  changes no account, region, gateway or session and no stored answer of a user. Anything else
  only moves for the gateway whose certificate the request came with, and only if the path names
  the same gateway: deliveries and assignments of other gateways stay as they are; a lease is
  released only where an assignment of this gateway with this lease is removed, and a device
  becomes revoked only from a pending revocation where an assignment of this gateway with this
  device is removed; nothing else of a lease or a device changes, and no row is added or lost.
\<close>

theorem gateway_touches_only_its_own:
  assumes "db_inv cast (svc_users s)" and "cast_uuid (se_db e) = cast"
    and "serve (NewMTLSServer address (mux_serve (gateway_mux lib)) tls) e r s = (w, s')"
  shows "svc_sessions s' = svc_sessions s \<and> t_users (svc_users s') = t_users (svc_users s)
     \<and> t_idem (svc_users s') = t_idem (svc_users s) \<and> t_regions (svc_users s') = t_regions (svc_users s)
     \<and> t_gateways (svc_users s') = t_gateways (svc_users s)
     \<and> (svc_users s' = svc_users s \<or> (\<exists>g gateway rest. gatewayIdentity r = Some g \<and> cast g = Some gateway
          \<and> map mux_unescape (path_segments (sr_Path r)) = [''v1'', ''agent'', ''gateways'', g] @ rest
          \<and> map s_gateway (t_snapshots (svc_users s')) = map s_gateway (t_snapshots (svc_users s))
          \<and> filter (\<lambda>gs. s_gateway gs \<noteq> gateway) (t_snapshots (svc_users s')) =
              filter (\<lambda>gs. s_gateway gs \<noteq> gateway) (t_snapshots (svc_users s))
          \<and> map a_gateway (t_assignments (svc_users s')) = map a_gateway (t_assignments (svc_users s))
          \<and> filter (\<lambda>pa. a_gateway pa \<noteq> gateway) (t_assignments (svc_users s')) =
              filter (\<lambda>pa. a_gateway pa \<noteq> gateway) (t_assignments (svc_users s))
          \<and> list_all2 (\<lambda>l l'. l' = l \<or> l_released l = None \<and> (\<exists>t. l' = l\<lparr>l_released := Some t\<rparr>)
                \<and> (\<exists>pa\<in>set (t_assignments (svc_users s')). a_gateway pa = gateway \<and> a_lease pa = l_id l \<and> a_state pa = AsgRemoved))
              (t_leases (svc_users s)) (t_leases (svc_users s'))
          \<and> list_all2 (\<lambda>dv dv'. dv' = dv \<or> d_state dv = DeviceRevocationPending
                \<and> (\<exists>t. dv' = dv\<lparr>d_state := DeviceRevoked, d_revoked := Some t\<rparr>)
                \<and> (\<exists>pa\<in>set (t_assignments (svc_users s')). a_gateway pa = gateway \<and> a_device pa = d_id dv \<and> a_state pa = AsgRemoved))
              (t_devices (svc_users s)) (t_devices (svc_users s'))))"
proof -
  have kept: "filter (\<lambda>x. k x \<noteq> c) (map f xs) = filter (\<lambda>x. k x \<noteq> c) xs"
    if "\<And>x. k (f x) = k x" "\<And>x. k x \<noteq> c \<Longrightarrow> f x = x" for k c f and xs :: "'z list"
    using that by (induction xs) auto
  from assms(3) have "mux_serve (NewMux (lib_request lib) None None (Some (\<lambda>e _. se_ping e)) [Some api_gateways]) e r
      (secured r) s = (w, s')"
    by (simp add: serve_NewMTLSServer gateway_mux_def)
  from mux_access [OF this secured_writer(2)]
  consider "s' = s" | g rest where "gatewayIdentity r = Some g"
      "map mux_unescape (path_segments (sr_Path r)) = [''v1'', ''agent'', ''gateways'', g] @ rest"
      "acts_as_gateway [Some api_gateways] e g s s'"
    by (auto simp: token_of_def elim: acts_as_visitorE)
  then show ?thesis
  proof cases
    case (2 g rest)
    from gateway_ops_move [OF 2(3) assms(1,2)] have se: "svc_sessions s' = svc_sessions s"
      and m: "svc_users s' = svc_users s \<or> (\<exists>gateway. cast g = Some gateway \<and> gateway_move gateway (svc_users s) (svc_users s'))"
      by auto
    from m show ?thesis
    proof (elim disjE exE conjE)
      fix gateway assume g: "cast g = Some gateway" and mv: "gateway_move gateway (svc_users s) (svc_users s')"
      show ?thesis
      proof (rule gateway_moveE [OF mv])
        fix f h m q
        assume same: "t_users (svc_users s') = t_users (svc_users s)" "t_idem (svc_users s') = t_idem (svc_users s)"
          "t_regions (svc_users s') = t_regions (svc_users s)" "t_gateways (svc_users s') = t_gateways (svc_users s)"
          and f: "t_snapshots (svc_users s') = map f (t_snapshots (svc_users s))"
            "\<forall>gs. s_gateway (f gs) = s_gateway gs \<and> (s_gateway gs \<noteq> gateway \<longrightarrow> f gs = gs)"
          and h: "t_assignments (svc_users s') = map h (t_assignments (svc_users s))"
            "\<forall>pa. a_gateway (h pa) = a_gateway pa \<and> a_lease (h pa) = a_lease pa \<and> a_device (h pa) = a_device pa
               \<and> (a_gateway pa \<noteq> gateway \<or> \<not> live pa \<longrightarrow> h pa = pa)"
          and l: "t_leases (svc_users s') = map m (t_leases (svc_users s))"
            "\<forall>l. m l = l \<or> held l \<and> removed_here gateway (\<lambda>pa. a_lease pa = l_id l) (svc_users s')
               \<and> (\<exists>t. m l = l\<lparr>l_released := Some t\<rparr>)"
          and q: "t_devices (svc_users s') = map q (t_devices (svc_users s))"
            "\<forall>dv. q dv = dv \<or> d_state dv = DeviceRevocationPending \<and> removed_here gateway (\<lambda>pa. a_device pa = d_id dv) (svc_users s')
               \<and> (\<exists>t. q dv = dv\<lparr>d_state := DeviceRevoked, d_revoked := Some t\<rparr>)"
        have "map s_gateway (t_snapshots (svc_users s')) = map s_gateway (t_snapshots (svc_users s))"
          "map a_gateway (t_assignments (svc_users s')) = map a_gateway (t_assignments (svc_users s))"
          using f(2) h(2) by (simp_all add: f(1) h(1))
        moreover have "filter (\<lambda>gs. s_gateway gs \<noteq> gateway) (t_snapshots (svc_users s')) =
            filter (\<lambda>gs. s_gateway gs \<noteq> gateway) (t_snapshots (svc_users s))"
          unfolding f(1) by (rule kept) (use f in simp_all)
        moreover have "filter (\<lambda>pa. a_gateway pa \<noteq> gateway) (t_assignments (svc_users s')) =
            filter (\<lambda>pa. a_gateway pa \<noteq> gateway) (t_assignments (svc_users s))"
          unfolding h(1) by (rule kept) (use h in simp_all)
        moreover have "list_all2 (\<lambda>l l'. l' = l \<or> l_released l = None \<and> (\<exists>t. l' = l\<lparr>l_released := Some t\<rparr>)
                \<and> (\<exists>pa\<in>set (t_assignments (svc_users s')). a_gateway pa = gateway \<and> a_lease pa = l_id l \<and> a_state pa = AsgRemoved))
              (t_leases (svc_users s)) (t_leases (svc_users s'))"
          unfolding l(1) list.rel_map by (rule list.rel_refl_strong) (use l(2) in \<open>fastforce simp: removed_here_def\<close>)
        moreover have "list_all2 (\<lambda>dv dv'. dv' = dv \<or> d_state dv = DeviceRevocationPending
                \<and> (\<exists>t. dv' = dv\<lparr>d_state := DeviceRevoked, d_revoked := Some t\<rparr>)
                \<and> (\<exists>pa\<in>set (t_assignments (svc_users s')). a_gateway pa = gateway \<and> a_device pa = d_id dv \<and> a_state pa = AsgRemoved))
              (t_devices (svc_users s)) (t_devices (svc_users s'))"
          unfolding q(1) list.rel_map by (rule list.rel_refl_strong) (use q(2) in \<open>fastforce simp: removed_here_def\<close>)
        ultimately show ?thesis using se same 2(1,2) g by blast
      qed
    qed (simp add: se)
  qed simp
qed

section \<open>Logging out\<close>

lemma logout_request:
  assumes "sr_Path r = ''/v1/auth/logout''" "sr_Method r = ''POST''" "token_of (Some (api_auth lib)) e r s u"
  shows "serve (api_server lib address) e r s =
    (WriteHeader 204 (secured r), Logout (se_order e (svc_sessions s)) u s)"
proof -
  have p: "cleanPath ''/v1/auth/logout'' = ''/v1/auth/logout''"
    "path_segments ''/v1/auth/logout'' = [''v1'', ''auth'', ''logout'']"
    "mux_unescape ''v1'' = ''v1''" "mux_unescape ''auth'' = ''auth''" "mux_unescape ''logout'' = ''logout''"
    by code_simp+
  have "find_route (NewMux (lib_request lib) (Some (api_auth lib)) (Some (api_devices lib, Some api_regions))
      (Some (\<lambda>e _. se_ping e)) [Some api_gateways]) ''POST'' [''v1'', ''auth'', ''logout''] =
      Some (AuthHandler_Logout (api_auth lib))"
    by (simp add: NewMux_def auth_routes_def p method_matches_def)
  with assms p show ?thesis
    by (auto simp: api_server_def serve_NewServer mux_serve_def AuthHandler_Logout_def token_of_def api_auth_def
        split: option.splits)
qed

text \<open>
  C16: Logging out works from end to end. A logout request with a valid access token of a user is
  answered with 204 and changes no row of the database. Every session of that user is gone,
  access and refresh tokens alike, and every session of any other user is exactly as before:
  no later request carries a valid token of the user, none of the user's refresh tokens gives
  new tokens, and the access tokens of other users are valid exactly as long as before.
\<close>

theorem logout_ends_access:
  assumes "session_reachable (lib_sha lib) (svc_sessions s)"
    and "iter_order (families (svc_sessions s)) (se_order e (svc_sessions s))"
    and "sr_Path r = ''/v1/auth/logout''" and "sr_Method r = ''POST''"
    and "token_of (Some (api_auth lib)) e r s u"
    and "serve (api_server lib address) e r s = (w, s')"
  shows "reply_status w = 204 \<and> svc_users s' = svc_users s
     \<and> (\<forall>h. sessions (svc_sessions s') h = (case sessions (svc_sessions s) h of None \<Rightarrow> None
          | Some se \<Rightarrow> if session_userID se = u then None else Some se))
     \<and> consumed (svc_sessions s') = consumed (svc_sessions s)
     \<and> (\<forall>e2 r2. \<not> token_of (Some (api_auth lib)) e2 r2 s' u)
     \<and> (\<forall>e2 token se. sessions (svc_sessions s) (lib_sha lib token) = Some se \<longrightarrow> session_userID se = u \<longrightarrow>
          (\<exists>err. fst (au_Refresh (api_auth lib) e2 token s') = Inl err))
     \<and> (\<forall>e2 r2 v. v \<noteq> u \<longrightarrow>
          token_of (Some (api_auth lib)) e2 r2 s' v = token_of (Some (api_auth lib)) e2 r2 s v)"
proof -
  have inv: "session_inv (svc_sessions s)" by (rule session_reachable_inv [OF assms(1)])
  from assms(6) have w: "w = WriteHeader 204 (secured r)" and s': "s' = Logout (se_order e (svc_sessions s)) u s"
    unfolding logout_request [OF assms(3-5)] by simp_all
  have t: "svc_sessions s' = without_families (families_of u (svc_sessions s)) (svc_sessions s)"
    using revokeUser_closed(1) [OF inv assms(2)] by (simp add: s' Logout_def)
  note gone = revoked_sessions [OF inv, of u, folded t]
  have a: "AuthenticateAccess (lib_sha lib) t token (svc_sessions s') =
      (case AuthenticateAccess (lib_sha lib) t token (svc_sessions s) of None \<Rightarrow> None
       | Some v \<Rightarrow> if v = u then None else Some v)" for t token
    using authenticate_after_revoke [OF inv] by (simp add: t)
  have "reply_status w = 204"
    using secured_writer(1) [of r] by (simp add: w reply_status_def WriteHeader_def fresh_def)
  moreover have "svc_users s' = svc_users s" by (simp add: s' Logout_def)
  moreover have "token_of (Some (api_auth lib)) e2 r2 s' v = (v \<noteq> u \<and> token_of (Some (api_auth lib)) e2 r2 s v)"
    for e2 r2 v
    by (auto simp: token_of_def api_auth_def Service_AuthenticateAccess_def a split: option.splits)
  moreover have "\<exists>err. fst (au_Refresh (api_auth lib) e2 token s') = Inl err"
    if "sessions (svc_sessions s) (lib_sha lib token) = Some se" "session_userID se = u" for e2 token se
  proof -
    have "sessions (svc_sessions s') (lib_sha lib token) = None" using gone [of "lib_sha lib token"] that by simp
    then have "fst (RotateRefresh (lib_sha lib) rand order now now' token (svc_sessions s')) = None" for rand order now now'
      using token_hash_sha [of "lib_sha lib" token] by (auto simp: RotateRefresh_def split: option.splits)
    then show ?thesis by (simp add: api_auth_def Refresh_def case_prod_beta)
  qed
  moreover have "consumed (svc_sessions s') = consumed (svc_sessions s)" by (simp add: t)
  ultimately show ?thesis using gone by blast
qed

section \<open>A small system for the witnesses\<close>

definition sample_request_codec :: request_codec where
  "sample_request_codec = \<lparr>rc_credentials = \<lambda>_. None, rc_refresh = \<lambda>_. None, rc_device = \<lambda>_. None,
     rc_region = \<lambda>_. None, rc_generation = \<lambda>_. Some (1, ''''), rc_retry = \<lambda>_. None, rc_eof = \<lambda>_. True,
     rc_lower = \<lambda>s. s\<rparr>"

definition sample_libs :: libs where
  "sample_libs = \<lparr>lib_IDKey = toy_argon2, lib_sha = sample_sha, lib_lower = \<lambda>s. s, lib_codec = sample_codec,
     lib_request = sample_request_codec\<rparr>"

definition sample_sys_env :: sys_env where
  "sample_sys_env = \<lparr>se_db = sample_env ''t'', se_ping = None, se_salt = Inl ErrInvalidInput,
     se_rand = sample_rand 3, se_order = \<lambda>_. [sample_token 0], se_now = 2000, se_later = 2000\<rparr>"

definition sample_sys :: sys where
  "sample_sys = \<lparr>svc_users = sample_outbox, svc_sessions = sample_store\<rparr>"

definition user_request :: "string \<Rightarrow> string \<Rightarrow> server_request" where
  "user_request m path = \<lparr>sr_Method = m, sr_Path = path,
     sr_Header = \<lambda>h. if h = ''Authorization'' then ''Bearer '' @ sample_token 1 else '''',
     sr_Body = '''', sr_TLS = None\<rparr>"

definition agent_request :: "string \<Rightarrow> string \<Rightarrow> server_request" where
  "agent_request m path = \<lparr>sr_Method = m, sr_Path = path,
     sr_Header = \<lambda>h. if h = ''Content-Type'' then ''application/json'' else '''',
     sr_Body = '''', sr_TLS = Some \<lparr>tls_CommonNames = [''gw1'']\<rparr>\<rparr>"

lemma sample_token_of:
  "token_of (Some (api_auth sample_libs)) sample_sys_env (user_request m p) sample_sys ''alice''"
proof -
  have "bearerToken (''Bearer '' @ sample_token 1) = Some (sample_token 1)" by code_simp
  moreover have "AuthenticateAccess sample_sha 2000 (sample_token 1) sample_store = Some ''alice''"
    by (simp add: authenticate_session sample_token_hash sample_store_sessions sample_token_eq
        accessTokenLifetime_def del: One_nat_def)
  ultimately show ?thesis
    by (simp add: token_of_def user_request_def api_auth_def sample_libs_def sample_sys_env_def sample_sys_def
        Service_AuthenticateAccess_def del: One_nat_def)
qed

theorem logout_ends_access_witness:
  "\<exists>w s'. serve (api_server sample_libs '''' :: (unit, unit, sys_env, sys) http_server) sample_sys_env (user_request ''POST'' ''/v1/auth/logout'') sample_sys = (w, s')
     \<and> reply_status w = 204
     \<and> \<not> token_of (Some (api_auth sample_libs)) sample_sys_env (user_request ''GET'' ''/v1/devices'') s' ''alice''"
proof -
  obtain w s' where serve: "serve (api_server sample_libs '''' :: (unit, unit, sys_env, sys) http_server) sample_sys_env
      (user_request ''POST'' ''/v1/auth/logout'') sample_sys = (w, s')" by fastforce
  have reach: "session_reachable (lib_sha sample_libs) (svc_sessions sample_sys)"
    using sample_store_reachable by (simp add: sample_libs_def sample_sys_def)
  have order: "iter_order (families (svc_sessions sample_sys)) (se_order sample_sys_env (svc_sessions sample_sys))"
    using sample_order by (simp add: sample_sys_def sample_sys_env_def)
  have path: "sr_Path (user_request ''POST'' ''/v1/auth/logout'') = ''/v1/auth/logout''"
    "sr_Method (user_request ''POST'' ''/v1/auth/logout'') = ''POST''" by (simp_all add: user_request_def)
  note out = logout_ends_access [OF reach order path sample_token_of serve]
  show ?thesis
  proof (intro exI conjI)
    show "serve (api_server sample_libs '''' :: (unit, unit, sys_env, sys) http_server) sample_sys_env
        (user_request ''POST'' ''/v1/auth/logout'') sample_sys = (w, s')" by (rule serve)
    show "reply_status w = 204" by (rule conjunct1 [OF out])
    show "\<not> token_of (Some (api_auth sample_libs)) sample_sys_env (user_request ''GET'' ''/v1/devices'') s' ''alice''"
      using out by blast
  qed
qed

lemma sample_revoke:
  "serve (api_server sample_libs '''') sample_sys_env (user_request ''DELETE'' ''/v1/devices/dev1'') sample_sys =
    (WriteHeader 204 (secured (user_request ''DELETE'' ''/v1/devices/dev1'')),
     sample_sys\<lparr>svc_users := sample_outbox\<lparr>t_devices := [sample_device_row\<lparr>d_state := DeviceRevocationPending\<rparr>]\<rparr>\<rparr>)"
proof -
  have p: "cleanPath ''/v1/devices/dev1'' = ''/v1/devices/dev1''"
    "path_segments ''/v1/devices/dev1'' = [''v1'', ''devices'', ''dev1'']"
    "mux_unescape ''v1'' = ''v1''" "mux_unescape ''devices'' = ''devices''" "mux_unescape ''dev1'' = ''dev1''"
    by code_simp+
  let ?r = "user_request ''DELETE'' ''/v1/devices/dev1''"
  have "find_route (NewMux (lib_request sample_libs) (Some (api_auth sample_libs))
      (Some (api_devices sample_libs, Some api_regions)) (Some (\<lambda>e _. se_ping e)) [Some api_gateways])
      ''DELETE'' [''v1'', ''devices'', ''dev1''] =
      Some (DeviceHandler_Revoke (api_auth sample_libs) (api_devices sample_libs) ''dev1'')"
    by (simp add: NewMux_def auth_routes_def device_routes_def p method_matches_def)
  moreover have "sr_Path ?r = ''/v1/devices/dev1''" "sr_Method ?r = ''DELETE''"
    by (simp_all add: user_request_def)
  moreover have "authenticatedUser (api_auth sample_libs) sample_sys_env ?r w sample_sys = (Some ''alice'', w)" for w
    using sample_token_of [of "''DELETE''" "''/v1/devices/dev1''"]
    by (auto simp: authenticatedUser_def token_of_def split: option.splits)
  moreover have "ds_RequestRevocation (api_devices sample_libs) sample_sys_env ''alice'' ''dev1'' sample_sys =
      (Inr (), sample_sys\<lparr>svc_users := sample_outbox\<lparr>t_devices := [sample_device_row\<lparr>d_state := DeviceRevocationPending\<rparr>]\<rparr>\<rparr>)"
    by (simp add: api_devices_def with_db_def Store_RequestRevocation_def autocommit_def update_revocation_def
        sample_sys_env_def sample_env_def sample_cast_def sample_sys_def sample_outbox_def sample_db_def empty_db_def
        revoke_row_def sample_device_row_def)
  ultimately show ?thesis
    by (simp add: api_server_def serve_NewServer mux_serve_def p DeviceHandler_Revoke_def)
qed

theorem request_acts_for_its_user_witness:
  "\<exists>w s'. serve (api_server sample_libs '''') sample_sys_env (user_request ''DELETE'' ''/v1/devices/dev1'') sample_sys = (w, s')
     \<and> map d_state (t_devices (svc_users s')) = [DeviceRevocationPending]
     \<and> (\<exists>u. token_of (Some (api_auth sample_libs)) sample_sys_env (user_request ''DELETE'' ''/v1/devices/dev1'') sample_sys u
          \<and> sample_cast u = Some ''alice'')"
proof -
  let ?d = "sample_outbox\<lparr>t_devices := [sample_device_row\<lparr>d_state := DeviceRevocationPending\<rparr>]\<rparr>"
  have old: "t_devices (svc_users sample_sys) = [sample_device_row]" "t_users (svc_users sample_sys) = t_users ?d"
    "d_user sample_device_row = ''alice''" "sample_device_row \<noteq> sample_device_row\<lparr>d_state := DeviceRevocationPending\<rparr>"
    by (simp_all add: sample_sys_def sample_outbox_def sample_db_def sample_device_row_def)
  have "sr_TLS (user_request ''DELETE'' ''/v1/devices/dev1'') = None" "cast_uuid (se_db sample_sys_env) = sample_cast"
    by (simp_all add: user_request_def sample_sys_env_def sample_env_def)
  from request_acts_for_its_user [OF sample_revoke this]
  have "\<exists>u. token_of (Some (api_auth sample_libs)) sample_sys_env (user_request ''DELETE'' ''/v1/devices/dev1'') sample_sys u
      \<and> sample_cast u = Some ''alice''"
  proof (elim disjE exE conjE bexE)
    fix u owner i
    assume t: "token_of (Some (api_auth sample_libs)) sample_sys_env (user_request ''DELETE'' ''/v1/devices/dev1'') sample_sys u"
      "sample_cast u = Some owner"
      and d: "svc_users (sample_sys\<lparr>svc_users := ?d\<rparr>) = (svc_users sample_sys)\<lparr>t_devices :=
        map (\<lambda>dv. if d_user dv = owner then revoke_row owner i dv else dv) (t_devices (svc_users sample_sys))\<rparr>"
    from arg_cong [OF d, of t_devices] old have "owner = ''alice''" by (auto split: if_splits)
    with t show ?thesis by blast
  next
    assume d: "svc_users (sample_sys\<lparr>svc_users := ?d\<rparr>) = svc_users sample_sys"
    from arg_cong [OF d, of t_devices] old show ?thesis by simp
  next
    fix row :: user_row
    assume d: "svc_users (sample_sys\<lparr>svc_users := ?d\<rparr>) =
      (svc_users sample_sys)\<lparr>t_users := t_users (svc_users sample_sys) @ [row]\<rparr>"
    from arg_cong [OF d, of t_users] old show ?thesis by simp
  next
    fix row :: device_row
    assume d: "svc_users (sample_sys\<lparr>svc_users := ?d\<rparr>) =
      (svc_users sample_sys)\<lparr>t_devices := t_devices (svc_users sample_sys) @ [row]\<rparr>"
    from arg_cong [OF d, of t_devices] old show ?thesis by simp
  next
    fix ls pas ks
    assume d: "svc_users (sample_sys\<lparr>svc_users := ?d\<rparr>) = (svc_users sample_sys)\<lparr>t_leases := t_leases (svc_users sample_sys) @ ls,
      t_assignments := t_assignments (svc_users sample_sys) @ pas, t_idem := t_idem (svc_users sample_sys) @ ks\<rparr>"
    from arg_cong [OF d, of t_devices] old show ?thesis by simp
  qed
  then show ?thesis by (simp add: sample_revoke sample_device_row_def)
qed

lemma sample_agent_claim:
  "serve (NewMTLSServer '''' (mux_serve (gateway_mux sample_libs)) tls) sample_sys_env
     (agent_request ''GET'' ''/v1/agent/gateways/gw1/snapshots/next'') sample_sys =
   (encode_reply (RDelivery \<lparr>del_ID = ''s'', del_Generation = 1, del_Payload = ''{}'', del_Signature = replicate 64 CHR ''g''\<rparr>)
      (header_set ''Content-Type'' ''application/json'' (secured (agent_request ''GET'' ''/v1/agent/gateways/gw1/snapshots/next''))),
    sample_sys\<lparr>svc_users := sample_sent\<rparr>)"
proof -
  let ?p = "''/v1/agent/gateways/gw1/snapshots/next''"
  have p: "cleanPath ?p = ?p" "path_segments ?p = [''v1'', ''agent'', ''gateways'', ''gw1'', ''snapshots'', ''next'']"
    "mux_unescape ''v1'' = ''v1''" "mux_unescape ''agent'' = ''agent''" "mux_unescape ''gateways'' = ''gateways''"
    "mux_unescape ''gw1'' = ''gw1''" "mux_unescape ''snapshots'' = ''snapshots''" "mux_unescape ''next'' = ''next''"
    by code_simp+
  have "find_route (gateway_mux sample_libs) ''GET'' [''v1'', ''agent'', ''gateways'', ''gw1'', ''snapshots'', ''next''] =
      Some (GatewayHandler_Claim api_gateways ''gw1'')"
    by (simp add: gateway_mux_def NewMux_def gateway_routes_def p method_matches_def)
  moreover have "gatewayIdentity (agent_request ''GET'' ?p) = Some ''gw1''"
    by (simp add: gatewayIdentity_def agent_request_def containsAny_def)
  moreover have "sr_Path (agent_request ''GET'' ?p) = ?p" "sr_Method (agent_request ''GET'' ?p) = ''GET''"
    by (simp_all add: agent_request_def)
  moreover have "gw_ClaimSnapshot api_gateways sample_sys_env ''gw1'' sample_sys =
      (Inr \<lparr>del_ID = ''s'', del_Generation = 1, del_Payload = ''{}'', del_Signature = replicate 64 CHR ''g''\<rparr>,
       sample_sys\<lparr>svc_users := sample_sent\<rparr>)"
    by (simp add: api_gateways_def with_db_def sample_sys_env_def sample_sys_def sample_claim)
  ultimately show ?thesis
    by (simp add: serve_NewMTLSServer mux_serve_def p GatewayHandler_Claim_def)
qed

theorem gateway_touches_only_its_own_witness:
  "\<forall>tls. \<exists>w s'. serve (NewMTLSServer '''' (mux_serve (gateway_mux sample_libs)) tls) sample_sys_env
       (agent_request ''GET'' ''/v1/agent/gateways/gw1/snapshots/next'') sample_sys = (w, s')
     \<and> svc_users s' = sample_sent \<and> t_users (svc_users s') = t_users sample_outbox
     \<and> map s_gateway (t_snapshots (svc_users s')) = map s_gateway (t_snapshots sample_outbox)"
proof (intro allI)
  fix tls
  have inv: "db_inv sample_cast (svc_users sample_sys)" by (simp add: sample_sys_def sample_outbox_inv)
  have cast: "cast_uuid (se_db sample_sys_env) = sample_cast" by (simp add: sample_sys_env_def sample_env_def)
  note own = gateway_touches_only_its_own [OF inv cast sample_agent_claim [of tls]]
  have "t_users sample_sent = t_users sample_outbox" using own by (simp add: sample_sys_def)
  moreover have "map s_gateway (t_snapshots sample_sent) = map s_gateway (t_snapshots sample_outbox)"
    using own [THEN conjunct2, THEN conjunct2, THEN conjunct2] by (auto simp: sample_sys_def)
  ultimately show "\<exists>w s'. serve (NewMTLSServer '''' (mux_serve (gateway_mux sample_libs)) tls) sample_sys_env
       (agent_request ''GET'' ''/v1/agent/gateways/gw1/snapshots/next'') sample_sys = (w, s')
     \<and> svc_users s' = sample_sent \<and> t_users (svc_users s') = t_users sample_outbox
     \<and> map s_gateway (t_snapshots (svc_users s')) = map s_gateway (t_snapshots sample_outbox)"
    using sample_agent_claim [of tls] by (intro exI conjI) (assumption, simp_all)
qed

end
