(* ===== verification/Agent_Link.thy ===== *)
theory Agent_Link
  imports System
begin

text \<open>
  The two halves of the delivery protocol put together: the HTTPS source of the gateway agent
  (\<^verbatim>\<open>internal/agent/transport.go\<close>) talking to the gateway listener of the API
  (\<^verbatim>\<open>internal/httpapi/gateway.go\<close> behind \<^verbatim>\<open>NewMTLSServer\<close>). A hop carries one request: it may
  not arrive, its response may be lost after the server acted, or both arrive. \<open>store_source\<close>
  is what the agent should see, the operations of the store across such a link, and the
  refinement shows that the real client and the real handlers implement it. What the wire does
  to URLs and JSON texts is an argument with the laws \<open>wire_ok\<close>.
\<close>

section \<open>The link\<close>

datatype hop_fault = Delivered | Unreached error | Lost error

record link =
  ln_env :: "nat \<Rightarrow> sys_env"
  ln_fault :: "nat \<Rightarrow> hop_fault"
  ln_next :: nat
  ln_sys :: sys

text \<open>
  \<open>wi_names\<close>: the subjects of the client certificate; \<open>wi_path\<close>: the escaped path the server
  sees for a URL; \<open>wi_body\<close>: the bytes of a body; \<open>wi_status\<close>: the status line.
\<close>

record wire =
  wi_names :: "string list"
  wi_path :: "string \<Rightarrow> string"
  wi_body :: "reply list \<Rightarrow> string"
  wi_status :: "nat \<Rightarrow> string"

definition wire_request :: "wire \<Rightarrow> http_request \<Rightarrow> server_request" where
  "wire_request wi rq =
     \<lparr>sr_Method = (case rq_Method rq of MethodGet \<Rightarrow> ''GET'' | MethodPost \<Rightarrow> ''POST''),
      sr_Path = wi_path wi (rq_URL rq),
      sr_Header = (\<lambda>h. if h = ''Content-Type'' then (case rq_ContentType rq of None \<Rightarrow> '''' | Some t \<Rightarrow> t) else ''''),
      sr_Body = rq_Body rq, sr_TLS = Some \<lparr>tls_CommonNames = wi_names wi\<rparr>\<rparr>"

definition wire_response :: "wire \<Rightarrow> writer \<Rightarrow> http_response" where
  "wire_response wi w =
     \<lparr>rs_StatusCode = reply_status w, rs_Status = wi_status wi (reply_status w), rs_Body = wi_body wi (w_Body w)\<rparr>"

text \<open>An operation of the server across the link.\<close>

definition over_link ::
  "(sys_env \<Rightarrow> sys \<Rightarrow> 'a \<times> sys) \<Rightarrow> (error \<Rightarrow> 'b) \<Rightarrow> ('a \<Rightarrow> 'b) \<Rightarrow> link \<Rightarrow> 'b \<times> link" where
  "over_link f bad good n =
     (let i = ln_next n; n1 = n\<lparr>ln_next := i + 1\<rparr>; (r, s1) = f (ln_env n i) (ln_sys n)
      in case ln_fault n i of
           Unreached err \<Rightarrow> (bad err, n1)
         | Lost err \<Rightarrow> (bad err, n1\<lparr>ln_sys := s1\<rparr>)
         | Delivered \<Rightarrow> (good r, n1\<lparr>ln_sys := s1\<rparr>))"

definition hop_Do ::
  "wire \<Rightarrow> ('c, 'p, sys_env, sys) http_server \<Rightarrow> http_request \<Rightarrow> link \<Rightarrow> http_response result \<times> link" where
  "hop_Do wi srv rq =
     over_link (\<lambda>e. serve srv e (wire_request wi rq)) Inl (\<lambda>w. Inr (wire_response wi w))"

text \<open>What the agent should see of the store.\<close>

definition transport_error :: "wire \<Rightarrow> nat \<Rightarrow> error" where
  "transport_error wi status = statusError \<lparr>rs_StatusCode = status, rs_Status = wi_status wi status, rs_Body = ''''\<rparr>"

definition store_source :: "wire \<Rightarrow> string \<Rightarrow> link source_ops" where
  "store_source wi g =
     \<lparr>src_Claim = over_link (\<lambda>e. gw_ClaimSnapshot api_gateways e g) Inl
        (\<lambda>r. case r of
           Inl err \<Rightarrow> Inl (if errors_is err ErrNoDelivery then ErrNoDelivery else transport_error wi 503)
         | Inr delivery \<Rightarrow> Inr delivery),
      src_Ack = (\<lambda>i generation. over_link (\<lambda>e. gw_AckSnapshotDelivery api_gateways e g i generation) Some
        (map_option (\<lambda>_. transport_error wi 404))),
      src_Retry = (\<lambda>i t reason. over_link (\<lambda>e. gw_RetrySnapshotDelivery api_gateways e g i t reason) Some
        (map_option (\<lambda>_. transport_error wi 404)))\<rparr>"

section \<open>What the wire promises\<close>

definition plain_id :: "string \<Rightarrow> bool" where
  "plain_id x \<longleftrightarrow> x \<noteq> '''' \<and> list_all segment_char x \<and> x \<noteq> ''.'' \<and> x \<noteq> ''..''"

text \<open>The last nanosecond of the year 9999, the last year of RFC 3339.\<close>

definition max_time :: time where "max_time = 315537897600 * second - 1"

definition plain_reason :: "string \<Rightarrow> bool" where
  "plain_reason s \<longleftrightarrow> length s \<le> 512 \<and> list_all (\<lambda>c. c < CHR 0x80) s"

text \<open>The control URL is the root of the API, and the gateway id is a plain segment.\<close>

definition root_source :: "HTTPSource \<Rightarrow> bool" where
  "root_source s \<longleftrightarrow> url_Path (hs_baseURL s) \<in> {'''', ''/''} \<and> url_RawQuery (hs_baseURL s) = ''''
     \<and> url_Fragment (hs_baseURL s) = '''' \<and> plain_id (hs_gatewayID s)"

definition agent_segments :: "string \<Rightarrow> string list \<Rightarrow> string list" where
  "agent_segments g ys = [''v1'', ''agent'', ''gateways'', g, ''snapshots''] @ ys"

definition agent_url :: "HTTPSource \<Rightarrow> string list \<Rightarrow> url" where
  "agent_url s ys = (hs_baseURL s)\<lparr>url_Path := CHR ''/'' # joinWith (CHR ''/'') (agent_segments (hs_gatewayID s) ys)\<rparr>"

definition sendable :: "wire \<Rightarrow> Delivery \<Rightarrow> bool" where
  "sendable wi d \<longleftrightarrow> plain_id (del_ID d) \<and> 0 < del_Generation d \<and> del_Generation d \<le> max_bigint
     \<and> del_Payload d \<noteq> '''' \<and> length (del_Signature d) = 64
     \<and> length (wi_body wi [RDelivery d]) \<le> 4 * 1024 * 1024"

text \<open>
  The URL of a request of the source, at the host and scheme of its control URL and with a path of
  plain segments, makes a good request and reaches the server as it is; a delivery that may be sent,
  a generation of 64 bits, and a time up to the year 9999 with a short plain reason come back from
  their JSON texts.
\<close>

definition wire_ok :: "wire \<Rightarrow> request_codec \<Rightarrow> 'n http_env \<Rightarrow> HTTPSource \<Rightarrow> bool" where
  "wire_ok wi rc env src \<longleftrightarrow>
     (\<forall>ys. ys \<noteq> [] \<and> list_all plain_id ys \<longrightarrow>
        wi_path wi (he_urlString env (agent_url src ys)) = url_Path (agent_url src ys)
        \<and> (\<forall>m t b. he_checkRequest env \<lparr>rq_Method = m, rq_URL = he_urlString env (agent_url src ys),
             rq_ContentType = t, rq_Body = b\<rparr> = None))
     \<and> (\<forall>d. sendable wi d \<longrightarrow> he_unmarshal env (wi_body wi [RDelivery d]) = Inr d)
     \<and> (\<forall>n. 0 < n \<longrightarrow> n \<le> max_bigint \<longrightarrow> (\<exists>body rest. he_marshal env (AckBody n) = Inr body
          \<and> rc_generation rc (take maxJSONBody body) = Some (n, rest) \<and> rc_eof rc rest))
     \<and> (\<forall>t reason. 0 < t \<longrightarrow> t \<le> max_time \<longrightarrow> plain_reason reason \<longrightarrow> (\<exists>body rest.
          he_marshal env (RetryBody (he_formatTime env t) reason) = Inr body
          \<and> rc_retry rc (take maxJSONBody body) = Some ((t, reason), rest) \<and> rc_eof rc rest))"

lemma wire_okD:
  assumes "wire_ok wi rc env src"
  shows "ys \<noteq> [] \<Longrightarrow> list_all plain_id ys \<Longrightarrow>
      wi_path wi (he_urlString env (agent_url src ys)) = url_Path (agent_url src ys)"
    and "ys \<noteq> [] \<Longrightarrow> list_all plain_id ys \<Longrightarrow> he_checkRequest env \<lparr>rq_Method = m,
      rq_URL = he_urlString env (agent_url src ys), rq_ContentType = t, rq_Body = b\<rparr> = None"
    and "sendable wi d \<Longrightarrow> he_unmarshal env (wi_body wi [RDelivery d]) = Inr d"
    and "0 < n \<Longrightarrow> n \<le> max_bigint \<Longrightarrow> \<exists>body rest. he_marshal env (AckBody n) = Inr body
      \<and> rc_generation rc (take maxJSONBody body) = Some (n, rest) \<and> rc_eof rc rest"
    and "0 < tm \<Longrightarrow> tm \<le> max_time \<Longrightarrow> plain_reason reason \<Longrightarrow> \<exists>body rest.
      he_marshal env (RetryBody (he_formatTime env tm) reason) = Inr body
      \<and> rc_retry rc (take maxJSONBody body) = Some ((tm, reason), rest) \<and> rc_eof rc rest"
  using assms by (simp_all add: wire_ok_def)

section \<open>Plain paths\<close>

lemma segment_char_plain: "segment_char c \<Longrightarrow> c \<noteq> CHR ''/'' \<and> c \<noteq> CHR ''%''"
proof -
  have "\<not> segment_char CHR ''/''" "\<not> segment_char CHR ''%''" by code_simp+
  then show "segment_char c \<Longrightarrow> c \<noteq> CHR ''/'' \<and> c \<noteq> CHR ''%''" by blast
qed

lemma plain_idD:
  assumes "plain_id x"
  shows "x \<noteq> ''''" "x \<noteq> ''.''" "x \<noteq> ''..''" "CHR ''/'' \<notin> set x" "CHR ''%'' \<notin> set x" "pathEscape x = x"
  using assms segment_char_plain by (auto simp: plain_id_def list_all_iff pathEscape_fixed)

lemma urlUnescape_plain: "CHR ''%'' \<notin> set x \<Longrightarrow> urlUnescape x = Some x"
  by (induction x) auto

lemma mux_unescape_plain: "plain_id x \<Longrightarrow> mux_unescape x = x"
  by (simp add: mux_unescape_def urlUnescape_plain plain_idD(5))

lemma clean_segments_plain: "list_all plain_id xs \<Longrightarrow> clean_segments acc xs = rev acc @ xs"
  by (induction xs arbitrary: acc) (auto dest: plain_idD(1-3))

lemma last_joinWith: "xs \<noteq> [] \<Longrightarrow> list_all plain_id xs \<Longrightarrow> joinWith d xs \<noteq> [] \<and> last (joinWith d xs) \<in> set (last xs)"
  by (induction d xs rule: joinWith.induct) (auto dest: plain_idD(1))

lemma plain_path:
  assumes "xs \<noteq> []" "list_all plain_id xs"
  shows "cleanPath (CHR ''/'' # joinWith (CHR ''/'') xs) = CHR ''/'' # joinWith (CHR ''/'') xs"
    and "path_segments (CHR ''/'' # joinWith (CHR ''/'') xs) = xs"
proof -
  let ?p = "joinWith (CHR ''/'') xs"
  have s: "splitOn (CHR ''/'') ?p = xs"
    by (rule splitOn_join) (use assms plain_idD(4) in \<open>auto simp: list_all_iff\<close>)
  then show "path_segments (CHR ''/'' # ?p) = xs" by (simp add: path_segments_def)
  have "last ?p \<noteq> CHR ''/''"
    using last_joinWith [OF assms, of "CHR ''/''"] assms plain_idD(4) [of "last xs"] by (auto simp: list_all_iff)
  then show "cleanPath (CHR ''/'' # ?p) = CHR ''/'' # ?p"
    using s last_joinWith [OF assms, of "CHR ''/''"] clean_segments_plain [OF assms(2), of "[]"]
    by (simp add: cleanPath_def Let_def)
qed

section \<open>The requests of the agent at the server\<close>

lemma plain_words:
  "plain_id ''v1''" "plain_id ''agent''" "plain_id ''gateways''" "plain_id ''snapshots''"
  "plain_id ''next''" "plain_id ''ack''" "plain_id ''retry''"
  by code_simp+

lemma agent_segments_plain: "plain_id g \<Longrightarrow> list_all plain_id ys \<Longrightarrow> list_all plain_id (agent_segments g ys)"
  by (simp add: agent_segments_def plain_words)

lemma endpoint_plain:
  assumes "root_source s" "ys \<noteq> []"
  shows "endpoint env s (''/snapshots/'' @ joinWith (CHR ''/'') ys) = he_urlString env (agent_url s ys)"
proof -
  have "trimRightSlash (url_Path (hs_baseURL s)) = ''''"
    using assms(1) by (auto simp: root_source_def trimRightSlash_def)
  moreover have "pathEscape (hs_gatewayID s) = hs_gatewayID s"
    using assms(1) plain_idD(6) by (simp add: root_source_def)
  moreover have "joinWith (CHR ''/'') (agent_segments g ys) =
      ''v1/agent/gateways/'' @ g @ ''/snapshots/'' @ joinWith (CHR ''/'') ys" for g
    using assms(2) by (cases ys) (simp_all add: agent_segments_def)
  ultimately show ?thesis by (simp add: endpoint_def agent_url_def)
qed

lemma find_agent_route:
  assumes "plain_id g" "plain_id i"
  shows "find_route (gateway_mux lib) ''GET'' (agent_segments g [''next'']) = Some (GatewayHandler_Claim api_gateways g)"
    and "find_route (gateway_mux lib) ''POST'' (agent_segments g [i, ''ack'']) =
      Some (GatewayHandler_Ack api_gateways (lib_request lib) g i)"
    and "find_route (gateway_mux lib) ''POST'' (agent_segments g [i, ''retry'']) =
      Some (GatewayHandler_Retry api_gateways (lib_request lib) g i)"
  using assms plain_words
  by (simp_all add: gateway_mux_def NewMux_def gateway_routes_def agent_segments_def method_matches_def
      mux_unescape_plain)

lemma serve_agent:
  assumes "plain_id g" "list_all plain_id ys" "ys \<noteq> []"
    and "sr_Path r = CHR ''/'' # joinWith (CHR ''/'') (agent_segments g ys)" "sr_Method r \<noteq> ''CONNECT''"
    and "find_route (gateway_mux lib) (sr_Method r) (agent_segments g ys) = Some h"
  shows "serve (NewMTLSServer address (mux_serve (gateway_mux lib)) tls) e r s = h e r (secured r) s"
proof -
  have ne: "agent_segments g ys \<noteq> []" by (simp add: agent_segments_def)
  note p = plain_path [OF ne agent_segments_plain [OF assms(1,2)]]
  have "sr_Path r \<noteq> ''*''" using assms(4) by simp
  then show ?thesis
    using p assms(4-6) by (simp add: serve_NewMTLSServer mux_serve_def)
qed

text \<open>The status and the body of what the handlers write.\<close>

lemma written:
  assumes "fresh w"
  shows "reply_status (writeProblem status detail w) = status" "reply_status (WriteHeader status w) = status"
    and "reply_status (encode_reply x (header_set k v w)) = 200" "w_Body (encode_reply x (header_set k v w)) = [x]"
  using assms
  by (simp_all add: reply_status_def writeProblem_def encode_reply_def WriteHeader_def header_set_def fresh_def Let_def)

section \<open>The client over the link\<close>

text \<open>An agent of the gateway \<open>hs_gatewayID src\<close>, with its certificate, linked to the gateway listener.\<close>

definition linked :: "wire \<Rightarrow> libs \<Rightarrow> link http_env \<Rightarrow> HTTPSource \<Rightarrow> bool" where
  "linked wi lib env src \<longleftrightarrow> wire_ok wi (lib_request lib) env src \<and> root_source src
     \<and> (\<exists>names. wi_names wi = hs_gatewayID src # names)
     \<and> (\<exists>address (tls :: (unit, unit) tls_config).
          he_Do env = hop_Do wi (NewMTLSServer address (mux_serve (gateway_mux lib)) tls))"

lemma linked_identity:
  assumes "linked wi lib env src"
  shows "gatewayIdentity (wire_request wi rq) = Some (hs_gatewayID src)"
proof -
  from assms obtain names where n: "wi_names wi = hs_gatewayID src # names" and g: "plain_id (hs_gatewayID src)"
    by (auto simp: linked_def root_source_def)
  have "\<not> segment_char CHR ''/''" "\<not> segment_char CHR ''?''" "\<not> segment_char CHR ''#''" by code_simp+
  with g have "\<not> containsAny (hs_gatewayID src) ''/?#''"
    by (auto simp: containsAny_iff plain_id_def list_all_iff)
  with n plain_idD(1) [OF g] show ?thesis by (simp add: gatewayIdentity_def wire_request_def)
qed

text \<open>One request of the agent: the handler of the route answers it, or the hop fails.\<close>

lemma hop_agent:
  assumes "linked wi lib env src" "list_all plain_id ys" "ys \<noteq> []"
    and "find_route (gateway_mux lib) (case m of MethodGet \<Rightarrow> ''GET'' | MethodPost \<Rightarrow> ''POST'')
      (agent_segments (hs_gatewayID src) ys) = Some h"
    and "rq = \<lparr>rq_Method = m, rq_URL = endpoint env src (''/snapshots/'' @ joinWith (CHR ''/'') ys),
      rq_ContentType = t, rq_Body = b\<rparr>"
  shows "he_checkRequest env rq = None"
    and "he_Do env rq = over_link (\<lambda>e s. h e (wire_request wi rq) (secured (wire_request wi rq)) s) Inl
      (\<lambda>w. Inr (wire_response wi w))"
proof -
  from assms(1) have w: "wire_ok wi (lib_request lib) env src" and src: "root_source src" by (simp_all add: linked_def)
  note e = endpoint_plain [OF src assms(3), of env]
  show "he_checkRequest env rq = None" unfolding assms(5) e by (rule wire_okD(2) [OF w assms(3,2)])
  from assms(1) obtain address and tls :: "(unit, unit) tls_config" where
    d: "he_Do env = hop_Do wi (NewMTLSServer address (mux_serve (gateway_mux lib)) tls)" by (auto simp: linked_def)
  have "sr_Path (wire_request wi rq) = CHR ''/'' # joinWith (CHR ''/'') (agent_segments (hs_gatewayID src) ys)"
    using wire_okD(1) [OF w assms(3,2)] unfolding assms(5) e by (simp add: wire_request_def agent_url_def)
  moreover have "sr_Method (wire_request wi rq) = (case m of MethodGet \<Rightarrow> ''GET'' | MethodPost \<Rightarrow> ''POST'')"
    by (simp add: wire_request_def assms(5))
  moreover have "plain_id (hs_gatewayID src)" using src by (simp add: root_source_def)
  moreover have "sr_Method (wire_request wi rq) \<noteq> ''CONNECT''" by (simp add: wire_request_def split: http_method.split)
  ultimately have "serve (NewMTLSServer address (mux_serve (gateway_mux lib)) tls) x (wire_request wi rq) =
      (\<lambda>s. h x (wire_request wi rq) (secured (wire_request wi rq)) s)" for x
    using assms(2-4) by (intro ext serve_agent) simp_all
  then show "he_Do env rq = over_link (\<lambda>e s. h e (wire_request wi rq) (secured (wire_request wi rq)) s) Inl
      (\<lambda>w. Inr (wire_response wi w))"
    by (simp add: d hop_Do_def)
qed

lemma link_claim:
  assumes "linked wi lib env src"
    and "\<And>d s1. gw_ClaimSnapshot api_gateways (ln_env n (ln_next n)) (hs_gatewayID src) (ln_sys n) = (Inr d, s1) \<Longrightarrow>
      sendable wi d"
  shows "Claim env src n = src_Claim (store_source wi (hs_gatewayID src)) n"
proof -
  let ?g = "hs_gatewayID src" and ?e = "ln_env n (ln_next n)"
  let ?rq = "\<lparr>rq_Method = MethodGet, rq_URL = endpoint env src ''/snapshots/next'', rq_ContentType = None, rq_Body = ''''\<rparr>"
  have g: "plain_id ?g" using assms(1) by (simp add: linked_def root_source_def)
  have "?rq = \<lparr>rq_Method = MethodGet, rq_URL = endpoint env src (''/snapshots/'' @ joinWith (CHR ''/'') [''next'']),
      rq_ContentType = None, rq_Body = ''''\<rparr>" by simp
  note hop = hop_agent [OF assms(1) _ _ _ this, where h = "GatewayHandler_Claim api_gateways ?g"]
  have check: "he_checkRequest env ?rq = None"
    and do: "he_Do env ?rq = over_link (\<lambda>e s. GatewayHandler_Claim api_gateways ?g e (wire_request wi ?rq)
      (secured (wire_request wi ?rq)) s) Inl (\<lambda>w. Inr (wire_response wi w))"
    by (rule hop, use find_agent_route(1) [OF g g] plain_words in simp_all)+
  obtain r s1 where c: "gw_ClaimSnapshot api_gateways ?e ?g (ln_sys n) = (r, s1)" by fastforce
  note wr = written [OF secured_writer(1)]
  have unm: "he_unmarshal env (take (4 * 1024 * 1024) (wi_body wi [RDelivery d])) = Inr d" if "r = Inr d" for d
    using assms(1) assms(2) [of d s1] that c wire_okD(3) [of wi "lib_request lib" env src d]
    by (simp add: linked_def sendable_def)
  show ?thesis
  proof (cases r)
    case (Inl err)
    then show ?thesis
      using c by (auto simp: Claim_def check do over_link_def store_source_def GatewayHandler_Claim_def
          linked_identity [OF assms(1)] wire_response_def wr transport_error_def statusError_def Let_def
          split: hop_fault.splits)
  next
    case (Inr d)
    with assms(2) [of d s1] c have "sendable wi d" by simp
    moreover from this have "del_ID d \<noteq> ''''" by (intro plain_idD(1)) (simp add: sendable_def)
    ultimately show ?thesis
      using c Inr unm [OF Inr] by (auto simp: Claim_def check do over_link_def store_source_def GatewayHandler_Claim_def
          linked_identity [OF assms(1)] wire_response_def wr decodeLimited_def sendable_def Let_def
          split: hop_fault.splits)
  qed
qed

lemma linked_decode:
  assumes "dc (take maxJSONBody b) = Some (v, rest)" "rc_eof rc rest"
  shows "decodeJSON rc dc (wire_request wi \<lparr>rq_Method = m, rq_URL = u, rq_ContentType = Some ''application/json'',
    rq_Body = b\<rparr>) w = (Some v, w)"
proof -
  have "list_all is_ascii ''application/json''" "map lower_char ''application/json'' = ''application/json''"
    by code_simp+
  then have "toLower (rc_lower rc) ''application/json'' = ''application/json''" by (simp only: toLower_def if_True)
  moreover have "hasPrefix ''application/json'' ''application/json''" by code_simp
  ultimately show ?thesis using assms by (simp add: decodeJSON_def wire_request_def)
qed

lemma post_hop:
  assumes "he_marshal env body = Inr encoded"
    and "he_checkRequest env \<lparr>rq_Method = MethodPost, rq_URL = endpoint env src suffix,
      rq_ContentType = Some ''application/json'', rq_Body = encoded\<rparr> = None"
  shows "post env src suffix body n =
    (case he_Do env \<lparr>rq_Method = MethodPost, rq_URL = endpoint env src suffix,
        rq_ContentType = Some ''application/json'', rq_Body = encoded\<rparr> n of
       (Inl err, n1) \<Rightarrow> (Some err, n1)
     | (Inr response, n1) \<Rightarrow>
         if rs_StatusCode response < 200 \<or> rs_StatusCode response \<ge> 300 then (Some (statusError response), n1)
         else (None, n1))"
  using assms by (simp add: post_def)

lemma link_ack:
  assumes "linked wi lib env src" "plain_id i" "0 < gen" "gen \<le> max_bigint"
  shows "Ack env src i gen n = src_Ack (store_source wi (hs_gatewayID src)) i gen n"
proof -
  let ?g = "hs_gatewayID src" and ?e = "ln_env n (ln_next n)"
  have g: "plain_id ?g" using assms(1) by (simp add: linked_def root_source_def)
  from assms(1) wire_okD(4) [OF _ assms(3,4), of wi "lib_request lib" env src] obtain body rest where
    m: "he_marshal env (AckBody gen) = Inr body"
    and dc: "rc_generation (lib_request lib) (take maxJSONBody body) = Some (gen, rest)" "rc_eof (lib_request lib) rest"
    by (auto simp: linked_def)
  let ?rq = "\<lparr>rq_Method = MethodPost, rq_URL = endpoint env src (''/snapshots/'' @ pathEscape i @ ''/ack''),
    rq_ContentType = Some ''application/json'', rq_Body = body\<rparr>"
  have "?rq = \<lparr>rq_Method = MethodPost, rq_URL = endpoint env src (''/snapshots/'' @ joinWith (CHR ''/'') [i, ''ack'']),
      rq_ContentType = Some ''application/json'', rq_Body = body\<rparr>"
    by (simp add: plain_idD(6) [OF assms(2)])
  note hop = hop_agent [OF assms(1) _ _ _ this, where h = "GatewayHandler_Ack api_gateways (lib_request lib) ?g i"]
  have check: "he_checkRequest env ?rq = None"
    and do: "he_Do env ?rq = over_link (\<lambda>e s. GatewayHandler_Ack api_gateways (lib_request lib) ?g i e (wire_request wi ?rq)
      (secured (wire_request wi ?rq)) s) Inl (\<lambda>w. Inr (wire_response wi w))"
    by (rule hop(1) hop(2); use find_agent_route(2) [OF g assms(2)] assms(2) plain_words in simp)+
  obtain r s1 where c: "gw_AckSnapshotDelivery api_gateways ?e ?g i gen (ln_sys n) = (r, s1)" by fastforce
  note dec = linked_decode [where dc = "rc_generation (lib_request lib)", OF dc]
  show ?thesis
    unfolding Ack_def post_hop [OF m check] do using c assms(3)
    by (cases r) (auto simp: over_link_def store_source_def GatewayHandler_Ack_def
          linked_identity [OF assms(1)] dec wire_response_def written [OF secured_writer(1)]
          transport_error_def statusError_def Let_def split: hop_fault.splits)
qed

lemma link_retry:
  assumes "linked wi lib env src" "plain_id i" "0 < t" "t \<le> max_time" "plain_reason reason"
  shows "Retry env src i t reason n = src_Retry (store_source wi (hs_gatewayID src)) i t reason n"
proof -
  let ?g = "hs_gatewayID src" and ?e = "ln_env n (ln_next n)"
  have g: "plain_id ?g" using assms(1) by (simp add: linked_def root_source_def)
  from assms(1) wire_okD(5) [OF _ assms(3-5), of wi "lib_request lib" env src] obtain body rest where
    m: "he_marshal env (RetryBody (he_formatTime env t) reason) = Inr body"
    and dc: "rc_retry (lib_request lib) (take maxJSONBody body) = Some ((t, reason), rest)" "rc_eof (lib_request lib) rest"
    by (auto simp: linked_def)
  let ?rq = "\<lparr>rq_Method = MethodPost, rq_URL = endpoint env src (''/snapshots/'' @ pathEscape i @ ''/retry''),
    rq_ContentType = Some ''application/json'', rq_Body = body\<rparr>"
  have "?rq = \<lparr>rq_Method = MethodPost, rq_URL = endpoint env src (''/snapshots/'' @ joinWith (CHR ''/'') [i, ''retry'']),
      rq_ContentType = Some ''application/json'', rq_Body = body\<rparr>"
    by (simp add: plain_idD(6) [OF assms(2)])
  note hop = hop_agent [OF assms(1) _ _ _ this, where h = "GatewayHandler_Retry api_gateways (lib_request lib) ?g i"]
  have check: "he_checkRequest env ?rq = None"
    and do: "he_Do env ?rq = over_link (\<lambda>e s. GatewayHandler_Retry api_gateways (lib_request lib) ?g i e (wire_request wi ?rq)
      (secured (wire_request wi ?rq)) s) Inl (\<lambda>w. Inr (wire_response wi w))"
    by (rule hop(1) hop(2); use find_agent_route(3) [OF g assms(2)] assms(2) plain_words in simp)+
  obtain r s1 where c: "gw_RetrySnapshotDelivery api_gateways ?e ?g i t reason (ln_sys n) = (r, s1)" by fastforce
  note dec = linked_decode [where dc = "rc_retry (lib_request lib)", OF dc]
  show ?thesis
    unfolding Retry_def post_hop [OF m check] do using c assms(3,5) plain_idD(1) [OF assms(2)]
    by (cases r) (auto simp: over_link_def store_source_def GatewayHandler_Retry_def
          linked_identity [OF assms(1)] dec wire_response_def written [OF secured_writer(1)] time_is_zero_def plain_reason_def
          transport_error_def statusError_def Let_def split: hop_fault.splits)
qed

end
