(* ===== verification/Link_Samples.thy ===== *)
theory Link_Samples
  imports Agent_Link
begin

text \<open>
  A concrete wire for the witnesses of the end-to-end properties: URLs that are their path, and
  texts for deliveries, snapshots, generations and reports of failures that can be read back.
  Numbers are written in decimal and closed by a comma, texts are preceded by their length.
\<close>

section \<open>Texts that can be read back\<close>

definition put_nat :: "nat \<Rightarrow> string" where
  "put_nat n = itoa n @ '',''"

definition get_nat :: "string \<Rightarrow> nat \<times> string" where
  "get_nat s = (digits_val (takeWhile (\<lambda>c. c \<noteq> CHR '','') s), drop 1 (dropWhile (\<lambda>c. c \<noteq> CHR '','') s))"

definition put_int :: "int \<Rightarrow> string" where
  "put_int i = put_nat (nat i) @ put_nat (nat (- i))"

definition get_int :: "string \<Rightarrow> int \<times> string" where
  "get_int s = (let (m, r) = get_nat s; (n, r') = get_nat r in (int m - int n, r'))"

definition put_text :: "string \<Rightarrow> string" where
  "put_text t = put_nat (length t) @ t"

definition get_text :: "string \<Rightarrow> string \<times> string" where
  "get_text s = (let (n, r) = get_nat s in (take n r, drop n r))"

lemma get_put_nat [simp]: "get_nat (put_nat n @ r) = (n, r)"
proof -
  have "CHR '','' \<notin> set (itoa n)" by (rule not_digit_notin_itoa) code_simp
  then have "\<forall>c\<in>set (itoa n). c \<noteq> CHR '',''" by auto
  then show ?thesis
    by (simp add: get_nat_def put_nat_def takeWhile_append2 dropWhile_append2 digits_val_itoa)
qed

lemma get_put_int [simp]: "get_int (put_int i @ r) = (i, r)"
  by (simp add: get_int_def put_int_def)

lemma get_put_text [simp]: "get_text (put_text t @ r) = (t, r)"
  by (simp add: get_text_def put_text_def)

definition put_peer :: "Peer \<Rightarrow> string" where
  "put_peer p = put_text (peer_PublicKey p) @ put_text (peer_IPv4 p) @ put_text (peer_IPv6 p)"

definition get_peer :: "string \<Rightarrow> Peer \<times> string" where
  "get_peer s = (let (k, s1) = get_text s; (v4, s2) = get_text s1; (v6, s3) = get_text s2
     in (\<lparr>peer_PublicKey = k, peer_IPv4 = v4, peer_IPv6 = v6\<rparr>, s3))"

lemma get_put_peer [simp]: "get_peer (put_peer p @ r) = (p, r)"
  by (simp add: get_peer_def put_peer_def)

primrec get_peers :: "nat \<Rightarrow> string \<Rightarrow> Peer list" where
  "get_peers 0 s = []"
| "get_peers (Suc n) s = (let (p, r) = get_peer s in p # get_peers n r)"

lemma get_peers [simp]: "get_peers (length ps) (concat (map put_peer ps)) = ps"
  by (induction ps) simp_all

definition link_marshal :: "Snapshot \<Rightarrow> string result" where
  "link_marshal s = Inr (CHR ''{'' # put_text (snap_GatewayID s) @ put_int (snap_Generation s)
     @ put_int (snap_ExpiresAt s) @ put_nat (length (snap_Peers s)) @ concat (map put_peer (snap_Peers s)))"

definition link_unmarshal :: "string \<Rightarrow> Snapshot result" where
  "link_unmarshal payload =
     (let (g, s1) = get_text (drop 1 payload); (n, s2) = get_int s1; (t, s3) = get_int s2; (k, s4) = get_nat s3
      in Inr \<lparr>snap_GatewayID = g, snap_Generation = n, snap_ExpiresAt = t, snap_Peers = get_peers k s4,
           snap_Signature = []\<rparr>)"

lemma link_snapshots:
  "link_marshal s = Inr payload \<Longrightarrow> snap_Signature s = [] \<Longrightarrow> link_unmarshal payload = Inr s"
  by (cases s) (auto simp: link_marshal_def link_unmarshal_def)

definition put_delivery :: "Delivery \<Rightarrow> string" where
  "put_delivery d = put_text (del_ID d) @ put_int (del_Generation d) @ put_text (del_Payload d)
     @ put_text (del_Signature d)"

definition get_delivery :: "string \<Rightarrow> Delivery" where
  "get_delivery s = (let (i, s1) = get_text s; (n, s2) = get_int s1; (p, s3) = get_text s2; (g, s4) = get_text s3
     in \<lparr>del_ID = i, del_Generation = n, del_Payload = p, del_Signature = g\<rparr>)"

lemma get_put_delivery [simp]: "get_delivery (put_delivery d) = d"
proof -
  have "get_text (put_text (del_Signature d)) = (del_Signature d, [])"
    using get_put_text [of "del_Signature d" "[]"] by simp
  then show ?thesis by (simp add: get_delivery_def put_delivery_def)
qed

section \<open>A wire\<close>

definition link_codec :: request_codec where
  "link_codec = sample_request_codec\<lparr>
     rc_generation := \<lambda>s. Some (fst (get_int s), ''''),
     rc_retry := \<lambda>s. (let (t, r) = get_int s in Some ((t, r), '''')),
     rc_eof := \<lambda>rest. rest = ''''\<rparr>"

definition link_libs :: libs where
  "link_libs = sample_libs\<lparr>lib_request := link_codec\<rparr>"

definition link_wire :: wire where
  "link_wire = \<lparr>wi_names = [''gw1''], wi_path = \<lambda>u. u,
     wi_body = \<lambda>body. (case body of [RDelivery d] \<Rightarrow> put_delivery d | _ \<Rightarrow> ''''), wi_status = itoa\<rparr>"

definition link_tls :: "(unit, unit) tls_config" where
  "link_tls = \<lparr>tls_MinVersion = VersionTLS13, tls_Certificates = [()], tls_RootCAs = None, tls_ClientCAs = Some (),
     tls_ServerName = '''', tls_ClientAuth = RequireAndVerifyClientCert, tls_InsecureSkipVerify = False\<rparr>"

definition link_http :: "link http_env" where
  "link_http = \<lparr>he_Do = hop_Do link_wire (NewMTLSServer '''' (mux_serve (gateway_mux link_libs)) link_tls),
     he_urlString = url_Path, he_checkRequest = \<lambda>_. None,
     he_marshal = \<lambda>body. (case body of AckBody n \<Rightarrow> Inr (put_int n) | RetryBody t reason \<Rightarrow> Inr (t @ reason)),
     he_unmarshal = \<lambda>s. Inr (get_delivery s), he_formatTime = put_int\<rparr>"

definition link_source :: HTTPSource where
  "link_source = \<lparr>hs_baseURL = \<lparr>url_Scheme = ''https'', url_Host = ''api'', url_Path = '''', url_RawQuery = '''',
     url_Fragment = ''''\<rparr>, hs_gatewayID = ''gw1''\<rparr>"

lemma length_itoa: "0 < k \<Longrightarrow> n < 10 ^ k \<Longrightarrow> length (itoa n) \<le> k"
proof (induction k arbitrary: n)
  case (Suc k)
  show ?case
  proof (cases "n < 10")
    case False
    with Suc.prems(2) have "0 < k" by (cases k) auto
    moreover have "n div 10 < 10 ^ k" using Suc.prems(2) by (simp add: less_mult_imp_div_less mult.commute)
    ultimately have "length (itoa (n div 10)) \<le> k" by (rule Suc.IH)
    then show ?thesis using False by (subst itoa.simps) simp
  qed (subst itoa.simps, simp)
qed simp

lemma length_put_int: "0 \<le> i \<Longrightarrow> i < 10 ^ 30 \<Longrightarrow> length (put_int i) \<le> 100"
proof -
  assume i: "0 \<le> i" "i < 10 ^ 30"
  then have "nat i < 10 ^ 30" by (simp add: nat_less_iff)
  then have "length (itoa (nat i)) \<le> 30" by (intro length_itoa) simp_all
  moreover have "length (itoa (nat (- i))) \<le> 30" using i by (intro length_itoa) simp_all
  ultimately show ?thesis by (simp add: put_int_def put_nat_def)
qed

lemma link_wire_ok: "wire_ok link_wire link_codec link_http link_source"
proof -
  have a: "rc_generation link_codec (take maxJSONBody (put_int n)) = Some (n, '''')"
    if "0 < n" "n \<le> max_bigint" for n
  proof -
    have "length (put_int n) \<le> 100" using that by (intro length_put_int) (simp_all add: max_bigint_def)
    moreover have "get_int (put_int n) = (n, '''')" using get_put_int [of n "[]"] by simp
    ultimately show ?thesis by (simp add: link_codec_def maxJSONBody_def)
  qed
  have r: "rc_retry link_codec (take maxJSONBody (put_int t @ reason)) = Some ((t, reason), '''')"
    if "0 < t" "t \<le> max_time" "plain_reason reason" for t reason
  proof -
    have "length (put_int t) \<le> 100" using that by (intro length_put_int) (simp_all add: max_time_def)
    then have "length (put_int t @ reason) \<le> maxJSONBody"
      using that(3) by (simp add: maxJSONBody_def plain_reason_def)
    then show ?thesis by (simp add: link_codec_def del: append_take_drop_id)
  qed
  show ?thesis
    using a r by (simp add: wire_ok_def link_http_def link_wire_def) (simp add: link_codec_def)
qed

lemma link_linked: "linked link_wire link_libs link_http link_source"
proof -
  have "plain_id ''gw1''" by code_simp
  moreover have "he_Do link_http = hop_Do link_wire (NewMTLSServer '''' (mux_serve (gateway_mux link_libs)) link_tls)"
    by (simp add: link_http_def)
  ultimately show ?thesis
    using link_wire_ok
    by (auto simp: linked_def root_source_def link_source_def link_libs_def link_wire_def intro!: exI)
qed

end
