(* ===== verification/End_To_End.thy ===== *)
theory End_To_End
  imports Link_Samples
begin

text \<open>
  The control plane and the gateway agent together: a round of the worker
  (\<^verbatim>\<open>internal/agent/worker.go\<close>) whose source is the HTTPS client linked to the gateway
  listener, on the database of the API and the kernel of the gateway. What a round may change
  in the database, whatever fails on the way, and what it establishes when nothing fails.
\<close>

section \<open>The rows behind a delivery\<close>

definition row_sendable :: "wire \<Rightarrow> snapshot_row \<Rightarrow> bool" where
  "row_sendable wi gs \<longleftrightarrow> plain_id (s_id gs) \<and> s_generation gs \<le> max_bigint \<and> s_payload gs \<noteq> ''''
     \<and> length (wi_body wi [RDelivery (delivery_of gs)]) \<le> 4 * 1024 * 1024"

definition link_db :: "link \<Rightarrow> db" where
  "link_db n = svc_users (ln_sys n)"

text \<open>The state of the link the theorems start from.\<close>

definition link_ok :: "(string \<Rightarrow> string option) \<Rightarrow> wire \<Rightarrow> link \<Rightarrow> bool" where
  "link_ok cast wi n \<longleftrightarrow> db_inv cast (link_db n) \<and> (\<forall>i. cast_uuid (se_db (ln_env n i)) = cast)
     \<and> (\<forall>gs\<in>set (t_snapshots (link_db n)). row_sendable wi gs)"

lemma link_okD:
  assumes "link_ok cast wi n"
  shows "db_inv cast (link_db n)" "cast_uuid (se_db (ln_env n i)) = cast"
    "gs \<in> set (t_snapshots (link_db n)) \<Longrightarrow> row_sendable wi gs"
  using assms by (auto simp: link_ok_def)

lemma row_sendable:
  assumes "db_inv cast d" "gs \<in> set (t_snapshots d)" "row_sendable wi gs"
  shows "sendable wi (delivery_of gs)"
  using assms(2,3) db_invD(8) [OF assms(1)]
  by (auto simp: sendable_def row_sendable_def delivery_of_def snapshots_inv_def snapshot_ok_def)

lemma claim_keeps_assignments:
  assumes "db_inv cast d" "cast_uuid env = cast"
  shows "t_assignments (snd (ClaimSnapshot env g d)) = t_assignments d"
proof (cases "trimSpace g = ''''")
  case False
  have move: "t_assignments d' = t_assignments d" if b: "claim_body env g d = Inr ((x, i, c), d')" for x i c d'
    by (rule claim_body_Inr [OF db_invD(8) [OF assms(1)] assms(2) b]) simp
  show ?thesis
    by (rule run_tx_snd [of env "''begin snapshot claim''" "claim_body env g" d])
      (use False move in \<open>auto simp: ClaimSnapshot_db ClaimNextSnapshot_tx\<close>)
qed (simp add: ClaimSnapshot_db ClaimNextSnapshot_tx)

text \<open>Effects across the link: the state moves at most by the operation.\<close>

lemma over_link_state:
  assumes "over_link f bad good n = (x, n')"
  shows "ln_sys n' = ln_sys n \<or> ln_sys n' = snd (f (ln_env n (ln_next n)) (ln_sys n))" "ln_env n' = ln_env n"
  using assms by (auto simp: over_link_def Let_def split: prod.splits hop_fault.splits)

section \<open>Claiming, reporting and acknowledging over HTTPS\<close>

lemma claim_sends:
  assumes "link_ok cast wi n" "gw_ClaimSnapshot api_gateways (ln_env n (ln_next n)) g (ln_sys n) = (Inr x, s1)"
  shows "\<exists>gateway gs. cast g = Some gateway \<and> gs \<in> set (t_snapshots (link_db n))
      \<and> deliverable (se_db (ln_env n (ln_next n))) gateway gs \<and> x = delivery_of gs \<and> sendable wi x
      \<and> t_assignments (svc_users s1) = t_assignments (link_db n)"
proof -
  let ?e = "se_db (ln_env n (ln_next n))"
  note ok = link_okD [OF assms(1)]
  from assms(2) have "ClaimSnapshot ?e g (link_db n) = (Inr x, svc_users s1)"
    by (simp add: api_gateways_def with_db_eq link_db_def)
  then show ?thesis
  proof (rule ClaimSnapshot_Inr [OF ok(1,2)])
    fix gateway gs
    assume "cast g = Some gateway" and gs: "gs \<in> set (t_snapshots (link_db n))" and "deliverable ?e gateway gs"
      and "x = delivery_of gs"
      and "svc_users s1 = (link_db n)\<lparr>t_snapshots := map (\<lambda>r. if r = gs then send_row ?e gs else r) (t_snapshots (link_db n))\<rparr>"
    with row_sendable [OF ok(1) gs ok(3) [OF gs]] show ?thesis by auto
  qed
qed

lemma claim_refines:
  assumes "link_ok cast wi n" "linked wi lib env src"
  shows "Claim env src n = src_Claim (store_source wi (hs_gatewayID src)) n"
  by (rule link_claim [OF assms(2)]) (use claim_sends [OF assms(1)] in blast)

lemma claim_over_link:
  assumes "link_ok cast wi n" "linked wi lib env src" "Claim env src n = (c, n1)"
  shows "t_assignments (link_db n1) = t_assignments (link_db n)" "ln_env n1 = ln_env n"
    and "c = Inr del \<Longrightarrow> \<exists>gateway gs. cast (hs_gatewayID src) = Some gateway \<and> gs \<in> set (t_snapshots (link_db n))
      \<and> deliverable (se_db (ln_env n (ln_next n))) gateway gs \<and> del = delivery_of gs \<and> plain_id (del_ID del)
      \<and> del_Generation del \<le> max_bigint \<and> 0 < del_Generation del"
proof -
  let ?e = "ln_env n (ln_next n)" and ?g = "hs_gatewayID src"
  note ok = link_okD [OF assms(1)]
  note rows = claim_sends [OF assms(1), of ?g]
  have s: "over_link (\<lambda>e. gw_ClaimSnapshot api_gateways e ?g) Inl
      (\<lambda>r. case r of Inl err \<Rightarrow> Inl (if errors_is err ErrNoDelivery then ErrNoDelivery else transport_error wi 503)
        | Inr delivery \<Rightarrow> Inr delivery) n = (c, n1)"
    using assms(3) unfolding claim_refines [OF assms(1,2)] by (simp add: store_source_def)
  show "ln_env n1 = ln_env n" by (rule over_link_state(2) [OF s])
  show "t_assignments (link_db n1) = t_assignments (link_db n)"
  proof -
    have "t_assignments (svc_users (snd (gw_ClaimSnapshot api_gateways ?e ?g (ln_sys n)))) = t_assignments (link_db n)"
      using claim_keeps_assignments [OF ok(1,2), where g = ?g] by (simp add: api_gateways_def snd_with_db link_db_def)
    with over_link_state(1) [OF s] show ?thesis by (auto simp: link_db_def)
  qed
  assume "c = Inr del"
  with s have "\<exists>s1. gw_ClaimSnapshot api_gateways ?e ?g (ln_sys n) = (Inr del, s1)"
    by (auto simp: over_link_def Let_def split: prod.splits hop_fault.splits sum.splits)
  with rows show "\<exists>gateway gs. cast ?g = Some gateway \<and> gs \<in> set (t_snapshots (link_db n))
      \<and> deliverable (se_db ?e) gateway gs \<and> del = delivery_of gs \<and> plain_id (del_ID del)
      \<and> del_Generation del \<le> max_bigint \<and> 0 < del_Generation del"
    unfolding sendable_def by blast
qed

lemma retry_keeps_assignments: "t_assignments (snd (RetrySnapshot env g i t reason d)) = t_assignments d"
proof -
  let ?r = "if length reason > 512 then take 512 reason else reason"
  have move: "t_assignments d' = t_assignments d" if "update_failed env g i t ?r d = Inr (x, d')" for x d'
    using that by (auto simp: update_failed_def update_snapshots_def split: option.splits)
  show ?thesis
    unfolding RetrySnapshot_db
    by (rule autocommit_snd [of env 0 "update_failed env g i t ?r" d]) (use move in auto)
qed

lemma handler_retry_keeps_assignments:
  "t_assignments (svc_users (snd (GatewayHandler_Retry api_gateways rc g i e r w s))) = t_assignments (svc_users s)"
proof -
  have "t_assignments (svc_users s1) = t_assignments (svc_users s)"
    if "gw_RetrySnapshotDelivery api_gateways e g i t reason s = (x, s1)" for g t reason x s1
    using that retry_keeps_assignments [of "se_db e" g i t reason "svc_users s"]
    by (simp add: api_gateways_def with_db_eq RetrySnapshotDelivery_def)
  then show ?thesis
    by (auto simp: GatewayHandler_Retry_def split: option.splits prod.splits)
qed

lemma retry_over_link:
  assumes "linked wi lib env src" "plain_id i" "Retry env src i t reason n = (x, n')"
  shows "t_assignments (link_db n') = t_assignments (link_db n)"
proof (cases "\<exists>body. he_marshal env (RetryBody (he_formatTime env t) reason) = Inr body \<and> \<not> time_is_zero t \<and> i \<noteq> ''''")
  case False
  with assms(3) have "n' = n" by (auto simp: Retry_def post_def split: if_splits sum.splits)
  then show ?thesis by simp
next
  case True
  then obtain body where m: "he_marshal env (RetryBody (he_formatTime env t) reason) = Inr body"
    and nz: "\<not> time_is_zero t" "i \<noteq> ''''" by blast
  let ?g = "hs_gatewayID src"
  have g: "plain_id ?g" using assms(1) by (simp add: linked_def root_source_def)
  let ?rq = "\<lparr>rq_Method = MethodPost, rq_URL = endpoint env src (''/snapshots/'' @ pathEscape i @ ''/retry''),
    rq_ContentType = Some ''application/json'', rq_Body = body\<rparr>"
  have "?rq = \<lparr>rq_Method = MethodPost, rq_URL = endpoint env src (''/snapshots/'' @ joinWith (CHR ''/'') [i, ''retry'']),
      rq_ContentType = Some ''application/json'', rq_Body = body\<rparr>"
    by (simp add: plain_idD(6) [OF assms(2)])
  note hop = hop_agent [OF assms(1) _ _ _ this, where h = "GatewayHandler_Retry api_gateways (lib_request lib) ?g i"]
  have check: "he_checkRequest env ?rq = None"
    and do: "he_Do env ?rq = over_link (\<lambda>e s. GatewayHandler_Retry api_gateways (lib_request lib) ?g i e (wire_request wi ?rq)
      (secured (wire_request wi ?rq)) s) Inl (\<lambda>w. Inr (wire_response wi w))"
    by (rule hop(1) hop(2); use find_agent_route(3) [OF g assms(2)] assms(2) plain_words in simp)+
  obtain y n2 where y: "he_Do env ?rq n = (y, n2)" by fastforce
  have "Retry env src i t reason n = post env src (''/snapshots/'' @ pathEscape i @ ''/retry'')
      (RetryBody (he_formatTime env t) reason) n"
    unfolding Retry_def using nz by (simp only: if_False simp_thms)
  with assms(3) have "n' = n2" unfolding post_hop [OF m check] y by (auto split: sum.splits if_splits)
  with over_link_state(1) [OF y [unfolded do]] show ?thesis
    by (auto simp: link_db_def handler_retry_keeps_assignments)
qed

text \<open>An acknowledgement confirms assignments of its gateway up to its generation, and nothing else.\<close>

lemma ack_confirms:
  assumes "cast_uuid env = cast" "pa \<in> set (t_assignments (snd (AckSnapshotDelivery env g i gen d)))"
    and "pa \<notin> set (t_assignments d)"
  shows "\<exists>gateway. cast g = Some gateway \<and> a_gateway pa = gateway \<and> a_desired pa \<le> gen \<and> a_observed pa = a_desired pa"
proof -
  obtain r1 d1 where a: "AckSnapshot_at 5 env g i gen d = (r1, d1)" by fastforce
  have 1: "t_assignments d1 = t_assignments d"
  proof -
    have move: "t_assignments d' = t_assignments d" if "update_acked env g i gen d = Inr (x, d')" for x d'
      using that by (auto simp: update_acked_def update_snapshots_def split: option.splits)
    have "t_assignments (snd (AckSnapshot_at 5 env g i gen d)) = t_assignments d"
      unfolding AckSnapshot_db by (rule autocommit_snd [of env 5 "update_acked env g i gen" d]) (use move in auto)
    with a show ?thesis by simp
  qed
  let ?new = "\<lambda>d'. \<exists>gateway. cast g = Some gateway \<and> t_assignments d' = map (confirm_row gateway gen) (t_assignments d)"
  have c: "snd (ConfirmGatewaySnapshot env g gen d1) = d1 \<or> ?new (snd (ConfirmGatewaySnapshot env g gen d1))"
  proof -
    have move: "?new d'" if b: "confirm_body env g gen d1 = Inr ((x, k, m), d')" for x k m d'
      by (rule confirm_body_Inr [OF b]) (use 1 assms(1) in auto)
    show ?thesis
      unfolding ConfirmGatewaySnapshot_tx
      by (rule run_tx_snd [of env "''begin gateway confirmation''" "confirm_body env g gen" d1]) (use move in auto)
  qed
  have "snd (AckSnapshotDelivery env g i gen d) = d1
      \<or> snd (AckSnapshotDelivery env g i gen d) = snd (ConfirmGatewaySnapshot env g gen d1)"
    using a by (auto simp: AckSnapshotDelivery_def split: option.splits sum.splits prod.splits)
  with c have "t_assignments (snd (AckSnapshotDelivery env g i gen d)) = t_assignments d1
      \<or> ?new (snd (AckSnapshotDelivery env g i gen d))" by auto
  with assms(2,3) 1 obtain gateway pa0 where "cast g = Some gateway" and pa: "pa = confirm_row gateway gen pa0"
    "pa0 \<in> set (t_assignments d)" by auto
  moreover from pa assms(3) have "confirm_row gateway gen pa0 \<noteq> pa0" by auto
  ultimately show ?thesis by (auto simp: confirm_row_def split: if_splits)
qed

lemma ack_over_link:
  assumes "linked wi lib env src" "plain_id i" "0 < gen" "gen \<le> max_bigint" "cast_uuid (se_db (ln_env n (ln_next n))) = cast"
    and "Ack env src i gen n = (x, n')" "pa \<in> set (t_assignments (link_db n'))" "pa \<notin> set (t_assignments (link_db n))"
  shows "\<exists>gateway. cast (hs_gatewayID src) = Some gateway \<and> a_gateway pa = gateway \<and> a_desired pa \<le> gen
    \<and> a_observed pa = a_desired pa"
proof -
  let ?e = "ln_env n (ln_next n)" and ?g = "hs_gatewayID src"
  have s: "over_link (\<lambda>e. gw_AckSnapshotDelivery api_gateways e ?g i gen) Some
      (map_option (\<lambda>_. transport_error wi 404)) n = (x, n')"
    using assms(6) unfolding link_ack [OF assms(1-4)] by (simp add: store_source_def)
  have "ln_sys n' \<noteq> ln_sys n" using assms(7,8) by (auto simp: link_db_def)
  with over_link_state(1) [OF s] have "link_db n' = snd (AckSnapshotDelivery (se_db ?e) ?g i gen (link_db n))"
    by (simp add: link_db_def api_gateways_def snd_with_db)
  with ack_confirms [OF assms(5), of pa ?g i gen "link_db n"] assms(7,8) show ?thesis by simp
qed

section \<open>A round of the agent\<close>

text \<open>What a confirmed assignment stands for: a row of the outbox whose snapshot verified.\<close>

definition verified_row :: "worker_env \<Rightarrow> ('n, 'k) worker \<Rightarrow> snapshot_row \<Rightarrow> Snapshot \<Rightarrow> bool" where
  "verified_row wenv w gs s \<longleftrightarrow> s_state gs \<in> {SnapQueued, SnapFailed}
     \<and> (\<exists>decoded. we_unmarshal wenv (s_payload gs) = Inr decoded \<and> s = decoded\<lparr>snap_Signature := s_signature gs\<rparr>)
     \<and> snap_Generation s = s_generation gs
     \<and> Verify (we_marshal wenv) (we_verify wenv) s (we_now wenv) (GatewayID w) (VerifyKey w) = None"

lemma quiet_over_link:
  assumes "link_ok cast wi n" "linked wi lib env src" "Source w = Some (http_source_ops env src)" "quiet w n n'"
  shows "t_assignments (link_db n') = t_assignments (link_db n)"
  using assms(4) unfolding quiet_def
proof (elim disjE exE conjE)
  fix source c n1
  assume s: "Source w = Some source" "src_Claim source n = (c, n1)"
    and r: "n' = n1"
  with assms(3) have "Claim env src n = (c, n1)" by (simp add: http_source_ops_def)
  from claim_over_link(1) [OF assms(1,2) this] r show ?thesis by simp
next
  fix source c n1 d t reason
  assume s: "Source w = Some source" "src_Claim source n = (c, n1)" "c = Inr d"
    and r: "n' = snd (src_Retry source (del_ID d) t reason n1)"
  with assms(3) have c: "Claim env src n = (c, n1)" and n': "n' = snd (Retry env src (del_ID d) t reason n1)"
    by (simp_all add: http_source_ops_def)
  have "plain_id (del_ID d)" using claim_over_link(3) [OF assms(1,2) c s(3)] by blast
  from retry_over_link [OF assms(2) this, of t reason n1] n' claim_over_link(1) [OF assms(1,2) c]
  show ?thesis by (metis prod.collapse)
qed simp

lemma acked_over_link:
  assumes "link_ok cast wi n" "linked wi lib env src" "Source w = Some (http_source_ops env src)"
    and "Source w = Some source" "claimed wenv w source n d s n1" "src_Ack source (del_ID d) (del_Generation d) n1 = (x, n')"
    and "pa \<in> set (t_assignments (link_db n'))" "pa \<notin> set (t_assignments (link_db n))"
  obtains gs where "gs \<in> set (t_snapshots (link_db n))" "verified_row wenv w gs s"
    "cast (hs_gatewayID src) = Some (s_gateway gs)" "a_gateway pa = s_gateway gs" "a_desired pa \<le> s_generation gs"
    "a_observed pa = a_desired pa" "s_generation gs = snap_Generation s"
proof -
  have src: "source = http_source_ops env src" using assms(3,4) by simp
  have c: "Claim env src n = (Inr d, n1)" using assms(5) by (simp add: claimed_def src http_source_ops_def)
  note same = claim_over_link(1,2) [OF assms(1,2) c]
  from claim_over_link(3) [OF assms(1,2) c refl] obtain gateway gs where
    gs: "cast (hs_gatewayID src) = Some gateway" "gs \<in> set (t_snapshots (link_db n))"
      "deliverable (se_db (ln_env n (ln_next n))) gateway gs" "d = delivery_of gs"
    and d: "plain_id (del_ID d)" "del_Generation d \<le> max_bigint" "0 < del_Generation d" by blast
  have a: "Ack env src (del_ID d) (del_Generation d) n1 = (x, n')" using assms(6) by (simp add: src http_source_ops_def)
  have cast: "cast_uuid (se_db (ln_env n1 (ln_next n1))) = cast" using link_okD(2) [OF assms(1)] same(2) by simp
  from ack_over_link [OF assms(2) d(1,3,2) cast a assms(7)] assms(8) same(1) gs(1)
  have "a_gateway pa = gateway" "a_desired pa \<le> del_Generation d" "a_observed pa = a_desired pa" by auto
  with gs assms(5) show ?thesis
    by (intro that [OF gs(2)]) (auto simp: claimed_def verified_row_def deliverable_def delivery_of_def)
qed

lemma fresh_applied:
  assumes "Applier w = Some (Apply b)" "wg_backend_ok b allowed" "go_orders wenv" "in_sync allowed w k"
    and "fresh_diff wenv w s ops" "Applier w = Some applier" "applier ops k = (None, k')" "unambiguous (snap_Peers s)"
  shows "allowed k' = table_of (peers_by_key (snap_Peers s))"
proof (rule wg_applier.applied [OF assms(2)])
  show "Diff (we_order1 wenv (peers_by_key (snap_Peers s))) (we_order2 wenv (CurrentPeers w)) s (CurrentPeers w) = Inr ops"
    using assms(5) by (simp add: fresh_diff_def)
  show "iter_order (peers_by_key (snap_Peers s)) (we_order1 wenv (peers_by_key (snap_Peers s)))"
    by (rule go_ordersD(1) [OF assms(3) finite_peers_by_key])
  show "iter_order (CurrentPeers w) (we_order2 wenv (CurrentPeers w))"
    using assms(4) by (intro go_ordersD(2) [OF assms(3)]) (simp add: in_sync_def)
  show "Apply b ops k = (None, k')" using assms(1,6,7) by simp
qed (use assms(4,8) in \<open>simp_all add: in_sync_def\<close>)

text \<open>The JSON text of a snapshot comes back from the column it is stored in.\<close>

definition comes_back :: "db_env \<Rightarrow> worker_env \<Rightarrow> Snapshot \<Rightarrow> bool" where
  "comes_back penv wenv s \<longleftrightarrow> (\<forall>payload body. we_marshal wenv s = Inr payload \<longrightarrow>
     cast_jsonb penv payload = Some body \<longrightarrow> we_unmarshal wenv body = Inr s)"

text \<open>The delivery of a row was made from the database \<open>dp\<close>, as it was when the snapshot was published.\<close>

definition published_from :: "worker_env \<Rightarrow> string \<Rightarrow> db_env \<Rightarrow> db \<Rightarrow> snapshot_row \<Rightarrow> bool" where
  "published_from wenv gid penv dp gs \<longleftrightarrow> (let s = current_snapshot penv dp (s_gateway gs) gid (s_generation gs) in
     comes_back penv wenv s
     \<and> (\<exists>payload. we_marshal wenv s = Inr payload \<and> cast_jsonb penv payload = Some (s_payload gs)))"

lemma published_peer_served:
  assumes "verified_row wenv w gs s" "published_from wenv gid penv dp gs" "(dv, l) \<in> set (peer_rows dp (s_gateway gs))"
  shows "peers_by_key (snap_Peers s) (d_key dv) = Some (peer_of_row penv (dv, l))"
proof -
  let ?s = "current_snapshot penv dp (s_gateway gs) gid (s_generation gs)"
  from assms(1,2) have "snap_Peers s = snap_Peers ?s"
    by (auto simp: verified_row_def published_from_def comes_back_def Let_def)
  then have p: "snap_Peers s = map (peer_of_row penv) (peer_rows dp (s_gateway gs))"
    by (simp add: current_snapshot_def current_peers_def)
  from assms(1) have "valid_peers (snap_Peers s)" by (auto simp: verified_row_def Verify_None Validate_None)
  then have "distinct (map peer_PublicKey (snap_Peers s))" by (simp add: valid_peers_def)
  moreover from assms(3) have "peer_of_row penv (dv, l) \<in> set (snap_Peers s)" by (simp add: p)
  ultimately have "peers_by_key (snap_Peers s) (peer_PublicKey (peer_of_row penv (dv, l))) = Some (peer_of_row penv (dv, l))"
    by (rule peers_by_key_mem)
  then show ?thesis by (simp add: peer_of_row_def)
qed


section \<open>When nothing fails\<close>

lemma plain_trim: "plain_id x \<Longrightarrow> trimSpace x = x"
proof -
  assume p: "plain_id x"
  have w: "list_all (\<lambda>w. w \<noteq> [] \<and> \<not> segment_char (hd w)) space_seqs"
    "list_all (\<lambda>w. w \<noteq> [] \<and> \<not> segment_char (hd w)) (map rev space_seqs)" by code_simp+
  have "front_seq ws s = None" if "list_all (\<lambda>w. w \<noteq> [] \<and> \<not> segment_char (hd w)) ws" "list_all segment_char s" for ws s
    using that by (fastforce simp: front_seq_def find_None_all list_all_iff hasPrefix_iff neq_Nil_conv)
  with w p show ?thesis by (intro trimSpace_fixed) (simp_all add: plain_id_def list_all_iff)
qed

lemma ack_succeeds:
  assumes "no_fault env" "cast_uuid env = cast" "cast g = Some gateway" "trimSpace g \<noteq> ''''" "trimSpace i \<noteq> ''''" "0 < gen"
    and "gs \<in> set (t_snapshots d)" "cast i = Some (s_id gs)" "s_gateway gs = gateway" "s_generation gs = gen"
      "s_state gs = SnapInFlight" "distinct (map s_id (t_snapshots d))" "nothing_removed d"
  obtains d' where "AckSnapshotDelivery env g i gen d = (None, d')"
    "t_assignments d' = map (confirm_row gateway gen) (t_assignments d)"
    "t_snapshots d' = map (\<lambda>r. if r = gs then ack_row env gs else r) (t_snapshots d)"
proof -
  let ?P = "\<lambda>r. s_id r = s_id gs \<and> s_gateway r = gateway \<and> s_generation r = gen \<and> s_state r = SnapInFlight"
  note f = no_faultD [OF assms(1)]
  have P: "?P r \<longleftrightarrow> r = gs" if "r \<in> set (t_snapshots d)" for r
    using that assms(7,9-11) distinct_map_inj_unique [OF assms(12) that assms(7)] by auto
  have "filter ?P (t_snapshots d) = filter (\<lambda>r. s_id r = s_id gs) (t_snapshots d)"
    using P distinct_map_inj_unique [OF assms(12) _ assms(7)] by (intro filter_cong) auto
  then have one: "length (filter ?P (t_snapshots d)) = 1" using filter_key [OF assms(12,7)] by simp
  let ?d1 = "d\<lparr>t_snapshots := map (\<lambda>r. if ?P r then ack_row env r else r) (t_snapshots d)\<rparr>"
  have "AckSnapshot_at 5 env g i gen d = (None, ?d1)"
    using assms(2-6,8) one by (simp add: AckSnapshot_at_def autocommit_def f update_acked_def update_snapshots_def)
  moreover have rows: "t_snapshots ?d1 = map (\<lambda>r. if r = gs then ack_row env gs else r) (t_snapshots d)"
    using P by simp
  have nr: "nothing_removed ?d1" using assms(13) nothing_removed_eq [of ?d1 d] by simp
  have "g \<noteq> ''''" using assms(4) by auto
  then obtain d2 where c: "ConfirmGatewaySnapshot env g gen ?d1 = (Inr (), d2)"
    and b: "\<exists>k m. confirm_body env g gen ?d1 = Inr (((), k, m), d2)"
    using assms(2,3,6) by (simp add: ConfirmGatewaySnapshot_tx run_tx_def f confirm_body_def attempt_def
        confirm_assignments_def release_leases_def revoke_devices_def)
  from b obtain k m where "confirm_body env g gen ?d1 = Inr (((), k, m), d2)" by blast
  from confirmed_nothing_removed [OF this nr] assms(2,3)
  have "d2 = ?d1\<lparr>t_assignments := map (confirm_row gateway gen) (t_assignments ?d1)\<rparr>" by auto
  ultimately show ?thesis
    using c rows by (intro that [of d2]) (simp_all add: AckSnapshotDelivery_def)
qed

text \<open>No hop and no database call fails.\<close>

definition calm :: "(string \<Rightarrow> string option) \<Rightarrow> link \<Rightarrow> bool" where
  "calm cast n \<longleftrightarrow> (\<forall>i. ln_fault n i = Delivered \<and> no_fault (se_db (ln_env n i)) \<and> env_ok cast (se_db (ln_env n i)))"

lemma over_link_calm:
  assumes "calm cast n"
  shows "over_link f bad good n = (case f (ln_env n (ln_next n)) (ln_sys n) of (r, s1) \<Rightarrow>
    (good r, n\<lparr>ln_next := ln_next n + 1, ln_sys := s1\<rparr>))"
  using assms by (auto simp: over_link_def calm_def Let_def split: prod.splits)

lemma claim_calm:
  assumes "link_ok cast wi n" "linked wi lib env src" "calm cast n" "cast (hs_gatewayID src) = Some gateway"
    and "gs \<in> set (t_snapshots (link_db n))" "deliverable (se_db (ln_env n (ln_next n))) gateway gs"
    and only: "\<And>gs'. gs' \<in> set (t_snapshots (link_db n)) \<Longrightarrow> s_gateway gs' = gateway \<Longrightarrow> gs' \<noteq> gs \<Longrightarrow> s_state gs' = SnapAcked"
  obtains n1 where "Claim env src n = (Inr (delivery_of gs), n1)" "ln_env n1 = ln_env n" "ln_fault n1 = ln_fault n"
    "link_db n1 = (link_db n)\<lparr>t_snapshots := map (\<lambda>r. if r = gs
       then send_row (se_db (ln_env n (ln_next n))) gs else r) (t_snapshots (link_db n))\<rparr>"
proof -
  let ?e = "se_db (ln_env n (ln_next n))" and ?g = "hs_gatewayID src" and ?d = "link_db n"
  note ok = link_okD [OF assms(1)]
  have e: "env_ok cast ?e" "no_fault ?e" using assms(3) by (simp_all add: calm_def)
  have g: "plain_id ?g" using assms(2) by (simp add: linked_def root_source_def)
  have "trimSpace ?g \<noteq> ''''" using plain_trim [OF g] plain_idD(1) [OF g] by simp
  then obtain del d' where c: "ClaimSnapshot ?e ?g ?d = (Inr del, d')"
    by (rule claim_succeeds [OF ok(1) e _ assms(4-6)]) blast
  obtain gateway' gs' where gs': "cast ?g = Some gateway'" "gs' \<in> set (t_snapshots ?d)" "deliverable ?e gateway' gs'"
    and del: "del = delivery_of gs'"
    and d': "d' = ?d\<lparr>t_snapshots := map (\<lambda>r. if r = gs' then send_row ?e gs' else r) (t_snapshots ?d)\<rparr>"
    using ClaimSnapshot_Inr [OF ok(1,2) c] by blast
  have "gs' = gs"
  proof (rule ccontr)
    assume "gs' \<noteq> gs"
    then show False using gs' only [OF gs'(2)] assms(4) by (simp add: deliverable_def)
  qed
  note del = del [unfolded this] and d' = d' [unfolded this]
  have gw: "gw_ClaimSnapshot api_gateways (ln_env n (ln_next n)) ?g (ln_sys n) =
      (Inr (delivery_of gs), (ln_sys n)\<lparr>svc_users := d'\<rparr>)"
    using c by (simp add: api_gateways_def with_db_def link_db_def del)
  have "Claim env src n = src_Claim (store_source wi ?g) n" by (rule claim_refines [OF assms(1,2)])
  also have "\<dots> = (Inr (delivery_of gs), n\<lparr>ln_next := ln_next n + 1, ln_sys := (ln_sys n)\<lparr>svc_users := d'\<rparr>\<rparr>)"
    by (simp add: store_source_def over_link_calm [OF assms(3)] gw)
  finally show ?thesis by (rule that) (simp_all add: link_db_def d' [unfolded link_db_def])
qed

lemma ack_calm:
  assumes "linked wi lib env src" "calm cast n" "cast (hs_gatewayID src) = Some gateway"
    and "gs \<in> set (t_snapshots (link_db n))" "plain_id (s_id gs)" "cast (s_id gs) = Some (s_id gs)" "s_gateway gs = gateway"
      "0 < s_generation gs" "s_generation gs \<le> max_bigint" "s_state gs = SnapInFlight"
    and "distinct (map s_id (t_snapshots (link_db n)))" "nothing_removed (link_db n)"
  obtains n1 where "Ack env src (s_id gs) (s_generation gs) n = (None, n1)"
    "t_assignments (link_db n1) = map (confirm_row gateway (s_generation gs)) (t_assignments (link_db n))"
    "t_snapshots (link_db n1) = map (\<lambda>r. if r = gs then ack_row (se_db (ln_env n (ln_next n))) gs else r)
       (t_snapshots (link_db n))"
proof -
  let ?e = "se_db (ln_env n (ln_next n))" and ?g = "hs_gatewayID src"
  have e: "no_fault ?e" "cast_uuid ?e = cast" using assms(2) env_okD(1) by (auto simp: calm_def)
  have g: "plain_id ?g" using assms(1) by (simp add: linked_def root_source_def)
  have trim: "trimSpace ?g \<noteq> ''''" "trimSpace (s_id gs) \<noteq> ''''"
    using plain_trim [OF g] plain_idD(1) [OF g] plain_trim [OF assms(5)] plain_idD(1) [OF assms(5)] by simp_all
  obtain d' where d': "AckSnapshotDelivery ?e ?g (s_id gs) (s_generation gs) (link_db n) = (None, d')"
    "t_assignments d' = map (confirm_row gateway (s_generation gs)) (t_assignments (link_db n))"
    "t_snapshots d' = map (\<lambda>r. if r = gs then ack_row ?e gs else r) (t_snapshots (link_db n))"
    by (rule ack_succeeds [OF e assms(3) trim assms(8,4,6,7) refl assms(10-12)])
  have gw: "gw_AckSnapshotDelivery api_gateways (ln_env n (ln_next n)) ?g (s_id gs) (s_generation gs) (ln_sys n) =
      (None, (ln_sys n)\<lparr>svc_users := d'\<rparr>)"
    using d'(1) by (simp add: api_gateways_def with_db_def link_db_def)
  have "Ack env src (s_id gs) (s_generation gs) n = (None, n\<lparr>ln_next := ln_next n + 1, ln_sys := (ln_sys n)\<lparr>svc_users := d'\<rparr>\<rparr>)"
    unfolding link_ack [OF assms(1,5,8,9)] by (simp add: store_source_def over_link_calm [OF assms(2)] gw)
  then show ?thesis by (rule that) (use d'(2,3) in \<open>simp_all add: link_db_def\<close>)
qed

text \<open>The two requests of a good round: the delivery is sent and acknowledged.\<close>

lemma deliver_over_link:
  assumes "link_ok cast wi n" "linked wi lib henv src" "calm cast n" "cast (hs_gatewayID src) = Some gateway"
    and row: "row \<in> set (t_snapshots (link_db n))" "deliverable (se_db (ln_env n (ln_next n))) gateway row"
    and only: "\<And>gs. gs \<in> set (t_snapshots (link_db n)) \<Longrightarrow> s_gateway gs = gateway \<Longrightarrow> gs \<noteq> row \<Longrightarrow> s_state gs = SnapAcked"
    and nr: "nothing_removed (link_db n)"
  obtains n1 n2 where "Claim henv src n = (Inr (delivery_of row), n1)"
    "Ack henv src (s_id row) (s_generation row) n1 = (None, n2)"
    "t_assignments (link_db n2) = map (confirm_row gateway (s_generation row)) (t_assignments (link_db n))"
    "\<forall>gs\<in>set (t_snapshots (link_db n2)). s_gateway gs = gateway \<longrightarrow> s_state gs = SnapAcked"
    "\<forall>pa\<in>set (t_assignments (link_db n2)). a_gateway pa = gateway \<and> live pa \<longrightarrow>
       a_state pa = AsgActive \<and> a_observed pa = a_desired pa"
    "\<forall>gw\<in>set (t_gateways (link_db n2)). g_id gw = gateway \<longrightarrow> \<not> needs_snapshot (link_db n2) gw"
proof -
  let ?e = "se_db (ln_env n (ln_next n))"
  let ?sent = "send_row ?e row"
  obtain n1 where c: "Claim henv src n = (Inr (delivery_of row), n1)" "ln_env n1 = ln_env n" "ln_fault n1 = ln_fault n"
    and d1: "link_db n1 = (link_db n)\<lparr>t_snapshots := map (\<lambda>r. if r = row then ?sent else r) (t_snapshots (link_db n))\<rparr>"
    by (rule claim_calm [OF assms(1-4) row only])
  let ?e1 = "se_db (ln_env n1 (ln_next n1))"
  have calm1: "calm cast n1" using assms(3) c(2,3) by (simp add: calm_def)
  note si = db_invD(8) [OF link_okD(1) [OF assms(1)]]
  have ids: "distinct (map s_id (t_snapshots (link_db n)))" "cast (s_id row) = Some (s_id row)" "0 < s_generation row"
    using si row(1) by (simp_all add: snapshots_inv_def snapshot_ok_def)
  have "map s_id (t_snapshots (link_db n1)) = map s_id (t_snapshots (link_db n))" by (simp add: d1 send_row_def)
  then have ids1: "distinct (map s_id (t_snapshots (link_db n1)))" using ids(1) by simp
  have sent: "?sent \<in> set (t_snapshots (link_db n1))" using row(1) by (auto simp: d1)
  have nr1: "nothing_removed (link_db n1)" using nr nothing_removed_eq [of "link_db n1" "link_db n"] by (simp add: d1)
  have plain: "plain_id (s_id row)" "s_generation row \<le> max_bigint"
    using link_okD(3) [OF assms(1) row(1)] by (simp_all add: row_sendable_def)
  have same: "s_id ?sent = s_id row" "s_gateway ?sent = s_gateway row" "s_generation ?sent = s_generation row"
    "s_state ?sent = SnapInFlight" by (simp_all add: send_row_def)
  have gw: "s_gateway row = gateway" using row(2) by (simp add: deliverable_def)
  obtain n2 where a: "Ack henv src (s_id row) (s_generation row) n1 = (None, n2)"
    and as: "t_assignments (link_db n2) = map (confirm_row gateway (s_generation row)) (t_assignments (link_db n1))"
    and ss: "t_snapshots (link_db n2) = map (\<lambda>r. if r = ?sent then ack_row ?e1 ?sent else r) (t_snapshots (link_db n1))"
    by (rule ack_calm [OF assms(2) calm1 assms(4) sent, unfolded same, OF plain(1) ids(2) gw ids(3) plain(2) refl ids1 nr1])
  have acked: "s_state gs = SnapAcked" if gs: "gs \<in> set (t_snapshots (link_db n2))" "s_gateway gs = gateway" for gs
  proof -
    have "set (t_snapshots (link_db n2)) \<subseteq> insert (ack_row ?e1 ?sent) (set (t_snapshots (link_db n)) - {row})"
      by (auto simp: ss d1)
    with gs(1) consider "gs = ack_row ?e1 ?sent" | "gs \<in> set (t_snapshots (link_db n))" "gs \<noteq> row" by blast
    then show ?thesis by cases (simp add: ack_row_def, rule only [OF _ gs(2)])
  qed
  have "t_assignments (link_db n2) = map (confirm_row gateway (s_generation row)) (t_assignments (link_db n))"
    by (simp add: as d1)
  from that [OF c(1) a this _ confirmed_rows_active [OF nr1 ids(3) as]] acked show ?thesis by blast
qed

text \<open>The snapshot that was published is the one the agent verifies.\<close>

lemma current_snapshot_verifies:
  assumes "seeded cast d0" "store_reachable cast d0 d" "prints_back penv d"
    and "\<forall>g\<in>set (t_gateways d). g_capacity g \<le> maxPeersPerSnapshot" "gateway \<in> g_id ` set (t_gateways d)"
    and "ed25519_sound ed_sign ed_verify key publicKey" "gid \<noteq> ''''" "0 < gen" "now < go_now penv + 10 * minute"
    and "marshal (current_snapshot penv d gateway gid gen) = Inr payload"
  shows "Validate (current_snapshot penv d gateway gid gen) now gid = None"
    and "Verify marshal ed_verify ((current_snapshot penv d gateway gid gen)\<lparr>snap_Signature := ed_sign key payload\<rparr>)
      now gid publicKey = None"
    and "unambiguous (current_peers penv d gateway)"
proof -
  have inv: "db_inv cast d" "peers_inv d"
    using store_reachable_inv [OF assms(2) seeded_inv [OF assms(1)]] peers_inv_reachable [OF assms(2,1)] by auto
  let ?s = "current_snapshot penv d gateway gid gen"
  from assms(4,5) obtain gr where gr: "gr \<in> set (t_gateways d)" "g_id gr = gateway" "g_capacity gr \<le> maxPeersPerSnapshot"
    by fastforce
  note valid = current_peers_valid [OF inv assms(3) gr]
  show v: "Validate ?s now gid = None" using valid(1) assms(7-9) by (simp add: Validate_None current_snapshot_def)
  show "unambiguous (current_peers penv d gateway)" by (rule valid(2))
  have "Sign marshal ed_sign ?s key = Inr (?s\<lparr>snap_Signature := ed_sign key payload\<rparr>)"
    using assms(10,6) by (simp add: Sign_def Let_def signingBytes_def ed25519_sound_def current_snapshot_def)
  from Sign_Verify [OF assms(6) v this] show "Verify marshal ed_verify (?s\<lparr>snap_Signature := ed_sign key payload\<rparr>)
      now gid publicKey = None" .
qed

text \<open>What a round does when the claim, the snapshot, the commands and the acknowledgement are good.\<close>

lemma good_round:
  assumes "Source w = Some source" "Applier w = Some applier" "src_Claim source n = (Inr d, n1)"
    and "we_unmarshal wenv (del_Payload d) = Inr decoded" "s = decoded\<lparr>snap_Signature := del_Signature d\<rparr>"
    and "snap_Generation s = del_Generation d" "snap_Generation (Current w) < snap_Generation s"
    and "Verify (we_marshal wenv) (we_verify wenv) s (we_now wenv) (GatewayID w) (VerifyKey w) = None"
    and "Validate s 0 (snap_GatewayID s) = None"
    and "\<And>ops. fresh_diff wenv w s ops \<Longrightarrow> fst (applier ops k) = None"
    and "src_Ack source (del_ID d) (del_Generation d) n1 = (None, n')"
  obtains ops k' where "fresh_diff wenv w s ops" "applier ops k = (None, k')"
    "ApplyOnce wenv w n k = (None, w\<lparr>Current := s, CurrentPeers := peers_by_key (snap_Peers s)\<rparr>, n', k')"
proof -
  have id: "GatewayID w \<noteq> ''''" "length (VerifyKey w) = 32"
    using assms(8) by (auto simp: Verify_None Validate_None)
  obtain ops where diff: "Diff (we_order1 wenv (peers_by_key (snap_Peers s))) (we_order2 wenv (CurrentPeers w)) s
      (CurrentPeers w) = Inr ops" using assms(9) by (simp add: Diff_def Let_def)
  with assms(7) have f: "fresh_diff wenv w s ops" by (simp add: fresh_diff_def)
  then obtain k' where k': "applier ops k = (None, k')" using assms(10) [OF f] by (metis prod.collapse)
  from assms(6,7) have new: "\<not> del_Generation d \<le> snap_Generation (Current w)" by simp
  have "ApplyOnce wenv w n k = (None, w\<lparr>Current := s, CurrentPeers := peers_by_key (snap_Peers s)\<rparr>, n', k')"
    unfolding ApplyOnce_def Let_def
    by (simp only: assms(1-4,11) id assms(5) [symmetric] assms(6,8) new diff k' option.case sum.case prod.case
        if_False simp_thms de_Morgan_disj not_False_eq_True)
  with f k' show ?thesis by (rule that)
qed

text \<open>An agent as \<^verbatim>\<open>cmd/gateway-agent\<close> builds it, in step with its kernel, on the other end of the link.\<close>

definition agent_ready ::
  "wire \<Rightarrow> libs \<Rightarrow> link http_env \<Rightarrow> HTTPSource \<Rightarrow> 'k WireGuardBackend \<Rightarrow> ('k \<Rightarrow> string \<rightharpoonup> addr_prefix set)
   \<Rightarrow> worker_env \<Rightarrow> (link, 'k) worker \<Rightarrow> 'k \<Rightarrow> bool" where
  "agent_ready wi lib henv src b allowed wenv w k \<longleftrightarrow> linked wi lib henv src
     \<and> Source w = Some (http_source_ops henv src) \<and> Applier w = Some (Apply b) \<and> GatewayID w = hs_gatewayID src
     \<and> wg_backend_ok b allowed \<and> go_orders wenv \<and> in_sync allowed w k"

lemma delivered_round:
  assumes "agent_ready wi lib henv src b allowed wenv w k"
    and "Claim henv src n = (Inr d, n1)" "Ack henv src (del_ID d) (del_Generation d) n1 = (None, n2)"
    and "we_unmarshal wenv (del_Payload d) = Inr decoded" "s = decoded\<lparr>snap_Signature := del_Signature d\<rparr>"
    and "snap_Generation s = del_Generation d" "snap_Generation (Current w) < snap_Generation s"
    and "Verify (we_marshal wenv) (we_verify wenv) s (we_now wenv) (hs_gatewayID src) (VerifyKey w) = None"
    and "Validate s 0 (snap_GatewayID s) = None" "unambiguous (snap_Peers s)"
    and "\<And>ops. fresh_diff wenv w s ops \<Longrightarrow> fst (Apply b ops k) = None"
  obtains k' where "ApplyOnce wenv w n k = (None, w\<lparr>Current := s, CurrentPeers := peers_by_key (snap_Peers s)\<rparr>, n2, k')"
    "allowed k' = table_of (peers_by_key (snap_Peers s))"
    "in_sync allowed (w\<lparr>Current := s, CurrentPeers := peers_by_key (snap_Peers s)\<rparr>) k'"
proof -
  from assms(1) have src: "Source w = Some (http_source_ops henv src)" and app: "Applier w = Some (Apply b)"
    and wid: "GatewayID w = hs_gatewayID src" and be: "wg_backend_ok b allowed" and or: "go_orders wenv"
    and sync: "in_sync allowed w k" by (simp_all add: agent_ready_def)
  have cl: "src_Claim (http_source_ops henv src) n = (Inr d, n1)"
    and ak: "src_Ack (http_source_ops henv src) (del_ID d) (del_Generation d) n1 = (None, n2)"
    using assms(2,3) by (simp_all add: http_source_ops_def)
  obtain ops k' where o: "fresh_diff wenv w s ops" "Apply b ops k = (None, k')"
    and r: "ApplyOnce wenv w n k = (None, w\<lparr>Current := s, CurrentPeers := peers_by_key (snap_Peers s)\<rparr>, n2, k')"
    by (rule good_round [OF src app cl assms(4-7) assms(8) [folded wid] assms(9) _ ak]) (use assms(11) in blast)
  have "allowed k' = table_of (peers_by_key (snap_Peers s))"
    by (rule fresh_applied [OF app be or sync o(1) app o(2) assms(10)])
  with r show ?thesis by (intro that) (simp_all add: in_sync_def)
qed

lemma published_round:
  assumes "seeded cast d0" and "store_reachable cast d0 d" and "env_ok cast penv" and "prints_back penv d"
    and "\<forall>g\<in>set (t_gateways d). g_capacity g \<le> maxPeersPerSnapshot"
    and "ed25519_sound ed_sign (we_verify wenv) key (VerifyKey w)"
    and "\<And>gateway. cast (hs_gatewayID src) = Some gateway \<Longrightarrow>
      comes_back penv wenv (current_snapshot penv d gateway (hs_gatewayID src) gen)"
    and "EnqueueCurrentGatewaySnapshot penv (we_marshal wenv) ed_sign (hs_gatewayID src) gen key d = (None, link_db n)"
    and "\<forall>gs\<in>set (t_snapshots d). cast (hs_gatewayID src) = Some (s_gateway gs) \<longrightarrow> s_state gs = SnapAcked"
    and "agent_ready wi lib henv src b allowed wenv w k" and "link_ok cast wi n" and "calm cast n"
    and "timestamp (db_now penv) \<le> db_now (se_db (ln_env n (ln_next n)))"
    and "0 \<le> we_now wenv" and "we_now wenv < go_now penv + 10 * minute"
    and "snap_Generation (Current w) < gen"
    and "\<forall>gateway s ops. cast (hs_gatewayID src) = Some gateway \<longrightarrow> snap_Peers s = current_peers penv d gateway
      \<longrightarrow> fresh_diff wenv w s ops \<longrightarrow> fst (Apply b ops k) = None"
  shows "\<exists>gateway w' n' k'. ApplyOnce wenv w n k = (None, w', n', k') \<and> cast (hs_gatewayID src) = Some gateway
     \<and> allowed k' = table_of (peers_by_key (current_peers penv d gateway)) \<and> in_sync allowed w' k'
     \<and> snap_Generation (Current w') = gen
     \<and> t_assignments (link_db n') = map (confirm_row gateway gen) (t_assignments d)
     \<and> (\<forall>gs\<in>set (t_snapshots (link_db n')). s_gateway gs = gateway \<longrightarrow> s_state gs = SnapAcked)
     \<and> (\<forall>pa\<in>set (t_assignments (link_db n')). a_gateway pa = gateway \<and> live pa \<longrightarrow>
          a_state pa = AsgActive \<and> a_observed pa = a_desired pa)
     \<and> (\<forall>gw\<in>set (t_gateways (link_db n')). g_id gw = gateway \<longrightarrow> \<not> needs_snapshot (link_db n') gw)"
proof (rule EnqueueCurrentGatewaySnapshot_None [OF assms(8)])
  fix gateway payload body
  let ?gid = "hs_gatewayID src" and ?s = "current_snapshot penv d gateway (hs_gatewayID src) gen"
  let ?row = "queued_row penv gateway gen body (ed_sign key payload)" and ?e = "se_db (ln_env n (ln_next n))"
  assume "cast_uuid penv ?gid = Some gateway" and gid: "?gid \<noteq> ''''" "0 < gen"
    and m: "we_marshal wenv ?s = Inr payload" and j: "cast_jsonb penv payload = Some body"
    and gr: "gateway \<in> g_id ` set (t_gateways d)"
    and d1: "link_db n = d\<lparr>t_snapshots := t_snapshots d @ [?row]\<rparr>"
  then have g: "cast ?gid = Some gateway" using env_okD(1) [OF assms(3)] by simp
  from assms(10) have lk: "linked wi lib henv src" by (simp add: agent_ready_def)
  have ver: "Validate ?s t ?gid = None" if "t < go_now penv + 10 * minute" for t
    by (rule current_snapshot_verifies(1) [where marshal = "we_marshal wenv" and payload = payload,
          OF assms(1,2,4,5) gr assms(6) gid that m])
  note cv = current_snapshot_verifies [where marshal = "we_marshal wenv" and payload = payload and now = "we_now wenv",
      OF assms(1,2,4,5) gr assms(6) gid assms(15) m]
  let ?t = "?s\<lparr>snap_Signature := ed_sign key payload\<rparr>"
  have row: "?row \<in> set (t_snapshots (link_db n))" by (simp add: d1)
  have dl: "deliverable ?e gateway ?row" using assms(13) by (simp add: deliverable_def queued_row_def)
  have only: "s_state gs = SnapAcked"
    if "gs \<in> set (t_snapshots (link_db n))" "s_gateway gs = gateway" "gs \<noteq> ?row" for gs
    using that assms(9) g by (auto simp: d1)
  have nr: "nothing_removed (link_db n)"
    using nothing_removed_reachable [OF assms(2,1)] nothing_removed_eq [of "link_db n" d] by (simp add: d1)
  obtain n1 n2 where c: "Claim henv src n = (Inr (delivery_of ?row), n1)"
    and a: "Ack henv src (s_id ?row) (s_generation ?row) n1 = (None, n2)"
    and as: "t_assignments (link_db n2) = map (confirm_row gateway (s_generation ?row)) (t_assignments (link_db n))"
    and acked: "\<forall>gs\<in>set (t_snapshots (link_db n2)). s_gateway gs = gateway \<longrightarrow> s_state gs = SnapAcked"
    and active: "\<forall>pa\<in>set (t_assignments (link_db n2)). a_gateway pa = gateway \<and> live pa \<longrightarrow>
       a_state pa = AsgActive \<and> a_observed pa = a_desired pa"
    and idle: "\<forall>gw\<in>set (t_gateways (link_db n2)). g_id gw = gateway \<longrightarrow> \<not> needs_snapshot (link_db n2) gw"
    by (rule deliver_over_link [OF assms(11) lk assms(12) g row dl only nr])
  have un: "we_unmarshal wenv (del_Payload (delivery_of ?row)) = Inr ?s"
    using assms(7) [OF g] m j by (simp add: comes_back_def delivery_of_def queued_row_def)
  have sg: "?t = ?s\<lparr>snap_Signature := del_Signature (delivery_of ?row)\<rparr>" by (simp add: delivery_of_def queued_row_def)
  have gn: "snap_Generation ?t = gen" "snap_Generation ?t = del_Generation (delivery_of ?row)"
    "snap_GatewayID ?t = ?gid" "snap_Peers ?t = current_peers penv d gateway"
    by (simp_all add: delivery_of_def queued_row_def current_snapshot_def)
  have newer: "snap_Generation (Current w) < snap_Generation ?t" using assms(16) gn(1) by simp
  have v0: "Validate ?t 0 (snap_GatewayID ?t) = None" using ver [of 0] assms(14,15) by (simp add: gn(3))
  have ak: "Ack henv src (del_ID (delivery_of ?row)) (del_Generation (delivery_of ?row)) n1 = (None, n2)"
    and ua: "unambiguous (snap_Peers ?t)"
    using a cv(3) by (simp_all add: delivery_of_def gn(4))
  obtain k' where r: "ApplyOnce wenv w n k = (None, w\<lparr>Current := ?t, CurrentPeers := peers_by_key (snap_Peers ?t)\<rparr>, n2, k')"
    and table: "allowed k' = table_of (peers_by_key (snap_Peers ?t))"
    and sync: "in_sync allowed (w\<lparr>Current := ?t, CurrentPeers := peers_by_key (snap_Peers ?t)\<rparr>) k'"
    by (rule delivered_round [OF assms(10) c ak un sg gn(2) newer cv(2) v0 ua]) (use assms(17) g gn(4) in blast)
  have "t_assignments (link_db n2) = map (confirm_row gateway gen) (t_assignments d)"
    by (simp add: as d1) (simp add: queued_row_def)
  then show ?thesis using r g table sync gn(1,4) acked active idle
    by (intro exI [of _ gateway] exI [of _ "w\<lparr>Current := ?t, CurrentPeers := peers_by_key (snap_Peers ?t)\<rparr>"]
        exI [of _ n2] exI [of _ k']) simp
qed

text \<open>
  C3: A published snapshot reaches the kernel. In every reachable database, once the control plane
  has queued a snapshot for a gateway whose earlier snapshots are all acknowledged, the next
  round of its agent over HTTPS (when no hop, database call or command fails and the snapshot
  has not expired) ends without error: the kernel serves exactly the current peers of the
  gateway, the worker remembers them, the snapshot is acknowledged, every live assignment of
  the gateway is active, and the gateway needs no further snapshot.
\<close>

theorem snapshot_reaches_kernel:
  assumes "seeded cast d0" and "store_reachable cast d0 d" and "env_ok cast penv" and "prints_back penv d"
    and "\<forall>g\<in>set (t_gateways d). g_capacity g \<le> maxPeersPerSnapshot"
    and "ed25519_sound ed_sign (we_verify wenv) key (VerifyKey w)"
    and "\<And>gateway. cast (hs_gatewayID src) = Some gateway \<Longrightarrow>
      comes_back penv wenv (current_snapshot penv d gateway (hs_gatewayID src) gen)"
    and "EnqueueCurrentGatewaySnapshot penv (we_marshal wenv) ed_sign (hs_gatewayID src) gen key d = (None, link_db n)"
    and "\<forall>gs\<in>set (t_snapshots d). cast (hs_gatewayID src) = Some (s_gateway gs) \<longrightarrow> s_state gs = SnapAcked"
    and "agent_ready wi lib henv src b allowed wenv w k" and "link_ok cast wi n" and "calm cast n"
    and "timestamp (db_now penv) \<le> db_now (se_db (ln_env n (ln_next n)))"
    and "0 \<le> we_now wenv" and "we_now wenv < go_now penv + 10 * minute"
    and "snap_Generation (Current w) < gen"
    and "\<forall>gateway s ops. cast (hs_gatewayID src) = Some gateway \<longrightarrow> snap_Peers s = current_peers penv d gateway
      \<longrightarrow> fresh_diff wenv w s ops \<longrightarrow> fst (Apply b ops k) = None"
  shows "\<exists>gateway w' n' k'. ApplyOnce wenv w n k = (None, w', n', k') \<and> cast (hs_gatewayID src) = Some gateway
     \<and> allowed k' = table_of (peers_by_key (current_peers penv d gateway)) \<and> in_sync allowed w' k'
     \<and> snap_Generation (Current w') = gen
     \<and> t_assignments (link_db n') = map (confirm_row gateway gen) (t_assignments d)
     \<and> (\<forall>gs\<in>set (t_snapshots (link_db n')). s_gateway gs = gateway \<longrightarrow> s_state gs = SnapAcked)
     \<and> (\<forall>pa\<in>set (t_assignments (link_db n')). a_gateway pa = gateway \<and> live pa \<longrightarrow>
          a_state pa = AsgActive \<and> a_observed pa = a_desired pa)
     \<and> (\<forall>gw\<in>set (t_gateways (link_db n')). g_id gw = gateway \<longrightarrow> \<not> needs_snapshot (link_db n') gw)"
  by (rule published_round [OF assms])

section \<open>A small run\<close>

text \<open>The control plane queues the peers of the gateway \<^verbatim>\<open>gw1\<close> and its agent fetches them.\<close>

definition run_publisher :: db_env where "run_publisher = Store_Samples.sample_env ''s''"

definition run_db :: db where
  "run_db = snd (EnqueueCurrentGatewaySnapshot run_publisher link_marshal toy_sign ''gw1'' 1 (replicate 64 CHR ''k'') sample_db1)"

definition run_link :: link where
  "run_link = \<lparr>ln_env = \<lambda>_. sample_sys_env, ln_fault = \<lambda>_. Delivered, ln_next = 0, ln_sys = sample_sys\<lparr>svc_users := run_db\<rparr>\<rparr>"

definition run_env :: worker_env where
  "run_env = \<lparr>we_marshal = link_marshal, we_unmarshal = link_unmarshal, we_verify = toy_verify, we_now = 2000,
     we_retryNow = 2000, we_order1 = some_order, we_order2 = some_order\<rparr>"

definition run_worker :: "(link, string \<rightharpoonup> addr_prefix set) worker" where
  "run_worker = \<lparr>Source = Some (http_source_ops link_http link_source), Applier = Some (Apply sample_backend),
     GatewayID = ''gw1'', VerifyKey = replicate 32 CHR ''p'',
     Current = \<lparr>snap_GatewayID = '''', snap_Generation = 0, snap_ExpiresAt = 0, snap_Peers = [], snap_Signature = []\<rparr>,
     CurrentPeers = Map.empty\<rparr>"

definition run_peer :: Peer where
  "run_peer = \<lparr>peer_PublicKey = sample_key1, peer_IPv4 = ''10.70.0.2/32'', peer_IPv6 = ''::2/128''\<rparr>"

lemma run_peers: "current_peers run_publisher sample_db1 ''gw1'' = [run_peer]"
proof -
  have "addr_string (V4 0x0A460002) = ''10.70.0.2''" "addr_string (V6 2) = ''::2''" by code_simp+
  then show ?thesis
    by (simp add: current_peers_def peer_rows_def peer_of_row_def run_peer_def run_publisher_def
        Store_Samples.sample_env_def sample_db1_def sample_db_def empty_db_def sample_assignment_row_def live_def
        sample_device_row_def sample_lease_row_def)
qed

lemma run_publish:
  "EnqueueCurrentGatewaySnapshot run_publisher link_marshal toy_sign ''gw1'' 1 (replicate 64 CHR ''k'') sample_db1 =
     (None, run_db)"
proof -
  have t: "trimSpace ''gw1'' = ''gw1''" by code_simp
  have l: "length (toy_sign (replicate 64 CHR ''k'') m) = 64" for m
    using toy_ed25519 by (simp add: ed25519_sound_def)
  have "fst (EnqueueCurrentGatewaySnapshot run_publisher link_marshal toy_sign ''gw1'' 1 (replicate 64 CHR ''k'') sample_db1) = None"
    by (simp add: EnqueueCurrentGatewaySnapshot_def attempt_def run_publisher_def Store_Samples.sample_env_def sample_cast_def
        Sign_def Let_def signingBytes_def link_marshal_def EnqueueSnapshot_at_def t autocommit_def
        insert_snapshot_def l generations_def sample_db1_def sample_db_def empty_db_def sample_gateway_row_def)
  then show ?thesis unfolding run_db_def by (metis prod.collapse)
qed

lemma run_row:
  obtains payload where "link_marshal (current_snapshot run_publisher sample_db1 ''gw1'' ''gw1'' 1) = Inr payload"
    "run_db = sample_db1\<lparr>t_snapshots := [queued_row run_publisher ''gw1'' 1 payload (toy_sign (replicate 64 CHR ''k'') payload)]\<rparr>"
proof (rule EnqueueCurrentGatewaySnapshot_None [OF run_publish])
  fix gateway payload body
  assume "cast_uuid run_publisher ''gw1'' = Some gateway" "cast_jsonb run_publisher payload = Some body"
  then have "gateway = ''gw1''" "body = payload"
    by (simp_all add: run_publisher_def Store_Samples.sample_env_def sample_cast_def)
  moreover have "t_snapshots sample_db1 = []" by (simp add: sample_db1_def sample_db_def empty_db_def)
  moreover assume "link_marshal (current_snapshot run_publisher sample_db1 gateway ''gw1'' 1) = Inr payload"
    "run_db = sample_db1\<lparr>t_snapshots := t_snapshots sample_db1 @
       [queued_row run_publisher gateway 1 body (toy_sign (replicate 64 CHR ''k'') payload)]\<rparr>"
  ultimately show ?thesis by (intro that [of payload]) simp_all
qed

lemma run_payload_short:
  assumes "link_marshal (current_snapshot run_publisher sample_db1 ''gw1'' ''gw1'' 1) = Inr payload"
  shows "length payload \<le> 1000" "payload \<noteq> ''''"
proof -
  have now: "go_now run_publisher = 1000" by (simp add: run_publisher_def Store_Samples.sample_env_def)
  have "length (put_peer run_peer) \<le> 400" by code_simp
  moreover have "length (put_int (1000 + 10 * minute)) \<le> 100" by (intro length_put_int) simp_all
  moreover have "length (put_int 1) \<le> 100" by (intro length_put_int) simp_all
  moreover have "length (put_text ''gw1'') \<le> 100" "length (put_nat 1) \<le> 100" by code_simp+
  ultimately show "length payload \<le> 1000" "payload \<noteq> ''''"
    using assms by (auto simp: link_marshal_def current_snapshot_def run_peers now)
qed

lemma run_link_ok: "link_ok sample_cast link_wire run_link"
proof (rule run_row)
  fix payload
  assume p: "link_marshal (current_snapshot run_publisher sample_db1 ''gw1'' ''gw1'' 1) = Inr payload"
    and db: "run_db = sample_db1\<lparr>t_snapshots := [queued_row run_publisher ''gw1'' 1 payload (toy_sign (replicate 64 CHR ''k'') payload)]\<rparr>"
  let ?row = "queued_row run_publisher ''gw1'' 1 payload (toy_sign (replicate 64 CHR ''k'') payload)"
  have "env_ok sample_cast run_publisher" by (simp add: run_publisher_def sample_env_ok)
  from EnqueueCurrentGatewaySnapshot_step [OF this, of link_marshal toy_sign "''gw1''" 1 "replicate 64 CHR ''k''" sample_db1]
  have "run_db = sample_db1 \<or> store_step sample_cast sample_db1 run_db" by (simp add: run_publish)
  moreover have inv: "db_inv sample_cast sample_db1"
    by (rule store_reachable_inv [OF sample_reachable seeded_inv [OF sample_seeded]])
  ultimately have "db_inv sample_cast run_db" using store_step_inv by auto
  moreover have "length (toy_sign (replicate 64 CHR ''k'') payload) = 64"
    using toy_ed25519 by (simp add: ed25519_sound_def)
  then have "length (put_delivery (delivery_of ?row)) \<le> 4194304"
  proof -
    have i: "length (itoa n) \<le> 30" if "n < 10 ^ 30" for n by (rule length_itoa) (use that in simp_all)
    have "length (put_text x) \<le> 31 + length x" if "length x \<le> 1000" for x
      using i [of "length x"] that by (simp add: put_text_def put_nat_def)
    from this [of "s_id ?row"] this [of payload] this [of "s_signature ?row"]
    show ?thesis
      using run_payload_short(1) [OF p] length_put_int [of 1] \<open>length (toy_sign _ _) = 64\<close>
      by (simp add: put_delivery_def delivery_of_def queued_row_def run_publisher_def Store_Samples.sample_env_def)
  qed
  moreover have "plain_id ''s''" by code_simp
  ultimately show ?thesis
    using run_payload_short(2) [OF p]
    by (simp add: link_ok_def link_db_def run_link_def sample_sys_env_def Store_Samples.sample_env_def db row_sendable_def
        link_wire_def max_bigint_def) (simp add: queued_row_def run_publisher_def Store_Samples.sample_env_def)
qed

lemma run_calm: "calm sample_cast run_link"
  by (simp add: calm_def run_link_def sample_sys_env_def sample_env_ok sample_no_fault)

lemma run_ready: "agent_ready link_wire link_libs link_http link_source sample_backend (\<lambda>m. m) run_env run_worker Map.empty"
  using link_linked backend_ok
  by (simp add: agent_ready_def run_worker_def link_source_def run_env_def go_orders_def some_order in_sync_def
      keyed_def fun_eq_iff)

lemma run_comes_back: "comes_back run_publisher run_env (current_snapshot run_publisher d gateway gid gen)"
  using link_snapshots [of "current_snapshot run_publisher d gateway gid gen"]
  by (simp add: comes_back_def current_snapshot_def run_env_def)
    (simp add: run_publisher_def Store_Samples.sample_env_def)

lemma run_takes_commands:
  assumes "snap_Peers s = [run_peer]" "fresh_diff run_env run_worker s ops"
  shows "fst (Apply sample_backend ops Map.empty) = None"
proof -
  let ?x = "\<lparr>op_Kind = OperationAdd, op_Peer = run_peer\<rparr>"
  have "Diff (some_order (peers_by_key [run_peer])) (some_order Map.empty) s Map.empty = Inr ops"
    using assms by (simp add: fresh_diff_def run_env_def run_worker_def)
  moreover have "peers_by_key [run_peer] = [sample_key1 \<mapsto> run_peer]" by (simp add: peers_by_key_def run_peer_def)
  ultimately have ops: "ops = [?x]" and v: "Validate s 0 (snap_GatewayID s) = None"
    using assms(1) by (auto simp: Diff_def Let_def some_order_def diff_desired_def split: option.splits)
  have "valid_peer run_peer" using v assms(1) by (simp add: Validate_None valid_peers_def)
  then have good: "good_op ?x" by (simp add: good_op_def valid_peer_def)
  have "good_interface ''wg0''" by code_simp
  with good have a: "operationArguments ''wg0'' ?x = Inr (op_args ''wg0'' ?x)" by (simp add: operationArguments_Inr)
  have sp: "splitOn CHR '','' ''10.70.0.2/32,::2/128'' = [''10.70.0.2/32'', ''::2/128'']" by code_simp
  obtain p q where "parsePrefix ''10.70.0.2/32'' = Some p" "parsePrefix ''::2/128'' = Some q"
    using \<open>valid_peer run_peer\<close> by (auto simp: valid_peer_def validHostPrefix_4 validHostPrefix_6 run_peer_def)
  then have "fst (toy_wg ''wg'' (op_args ''wg0'' ?x) Map.empty) = None" by (simp add: op_args_def run_peer_def sp)
  then obtain m' where "toy_wg ''wg'' (op_args ''wg0'' ?x) Map.empty = (None, m')" by (metis prod.collapse)
  with a show ?thesis by (simp add: ops Apply_def sample_backend_def maxPeersPerSnapshot_def)
qed

text \<open>The facts the end-to-end properties ask for, at this run.\<close>

lemma run_published:
  "EnqueueCurrentGatewaySnapshot run_publisher (we_marshal run_env) toy_sign (hs_gatewayID link_source) 1
     (replicate 64 CHR ''k'') sample_db1 = (None, link_db run_link)"
  using run_publish by (simp add: run_env_def link_source_def link_db_def run_link_def)

lemma run_prints_back: "prints_back run_publisher sample_db1"
  by (simp add: run_publisher_def sample_prints_back)

lemma run_hyps:
  "env_ok sample_cast run_publisher" "\<forall>g\<in>set (t_gateways sample_db1). g_capacity g \<le> maxPeersPerSnapshot"
  "ed25519_sound toy_sign (we_verify run_env) (replicate 64 CHR ''k'') (VerifyKey run_worker)"
  "\<forall>gs\<in>set (t_snapshots sample_db1). sample_cast (hs_gatewayID link_source) = Some (s_gateway gs) \<longrightarrow> s_state gs = SnapAcked"
  "timestamp (db_now run_publisher) \<le> db_now (se_db (ln_env run_link (ln_next run_link)))"
  "0 \<le> we_now run_env" "we_now run_env < go_now run_publisher + 10 * minute"
  "snap_Generation (Current run_worker) < 1"
  "\<forall>gateway s ops. sample_cast (hs_gatewayID link_source) = Some gateway \<longrightarrow>
     snap_Peers s = current_peers run_publisher sample_db1 gateway \<longrightarrow> fresh_diff run_env run_worker s ops \<longrightarrow>
     fst (Apply sample_backend ops Map.empty) = None"
proof -
  show "env_ok sample_cast run_publisher" by (simp add: run_publisher_def sample_env_ok)
  show "\<forall>g\<in>set (t_gateways sample_db1). g_capacity g \<le> maxPeersPerSnapshot"
    by (simp add: sample_db1_def sample_db_def empty_db_def sample_gateway_row_def maxPeersPerSnapshot_def)
  show "ed25519_sound toy_sign (we_verify run_env) (replicate 64 CHR ''k'') (VerifyKey run_worker)"
    using toy_ed25519 by (simp add: run_env_def run_worker_def)
  show "\<forall>gs\<in>set (t_snapshots sample_db1). sample_cast (hs_gatewayID link_source) = Some (s_gateway gs) \<longrightarrow> s_state gs = SnapAcked"
    by (simp add: sample_db1_def sample_db_def empty_db_def)
  show "timestamp (db_now run_publisher) \<le> db_now (se_db (ln_env run_link (ln_next run_link)))"
    by (simp add: run_publisher_def run_link_def sample_sys_env_def Store_Samples.sample_env_def timestamp_def)
  show "0 \<le> we_now run_env" "we_now run_env < go_now run_publisher + 10 * minute" "snap_Generation (Current run_worker) < 1"
    by (simp_all add: run_env_def run_publisher_def Store_Samples.sample_env_def run_worker_def)
  have "sample_cast (hs_gatewayID link_source) = Some ''gw1''" by (simp add: sample_cast_def link_source_def)
  then show "\<forall>gateway s ops. sample_cast (hs_gatewayID link_source) = Some gateway \<longrightarrow>
     snap_Peers s = current_peers run_publisher sample_db1 gateway \<longrightarrow> fresh_diff run_env run_worker s ops \<longrightarrow>
     fst (Apply sample_backend ops Map.empty) = None"
    using run_takes_commands by (auto simp: run_peers)
qed

text \<open>The round of this run.\<close>

lemmas run_facts = sample_seeded sample_reachable run_hyps(1) run_prints_back run_hyps(2,3) run_comes_back run_published
  run_hyps(4) run_ready run_link_ok run_calm run_hyps(5-9)

theorem snapshot_reaches_kernel_witness:
  "\<exists>w' n'. ApplyOnce run_env run_worker run_link Map.empty = (None, w', n', table_of (peers_by_key [run_peer]))
     \<and> snap_Generation (Current w') = 1 \<and> map a_state (t_assignments (link_db n')) = [AsgActive]"
proof -
  have g: "sample_cast (hs_gatewayID link_source) = Some gateway \<longleftrightarrow> gateway = ''gw1''" for gateway
    by (auto simp: sample_cast_def link_source_def)
  have a: "map a_state (map (confirm_row ''gw1'' 1) (t_assignments sample_db1)) = [AsgActive]"
    by (simp add: sample_db1_def sample_assignment_row_def confirm_row_def live_def)
  from snapshot_reaches_kernel [OF run_facts] show ?thesis
    unfolding g by (elim exE conjE) (use a in \<open>simp add: run_peers\<close>)
qed

lemma run_canonical:
  assumes "claimed run_env run_worker (http_source_ops link_http link_source) run_link d s n1"
  shows "unambiguous (snap_Peers s)"
proof (rule run_row)
  fix payload
  let ?s = "current_snapshot run_publisher sample_db1 ''gw1'' ''gw1'' 1"
  let ?row = "queued_row run_publisher ''gw1'' 1 payload (toy_sign (replicate 64 CHR ''k'') payload)"
  assume p: "link_marshal ?s = Inr payload" and db: "run_db = sample_db1\<lparr>t_snapshots := [?row]\<rparr>"
  from assms have "Claim link_http link_source run_link = (Inr d, n1)" by (simp add: claimed_def http_source_ops_def)
  from claim_over_link(3) [OF run_link_ok link_linked this refl]
  obtain gs where "gs \<in> set (t_snapshots run_db)" "d = delivery_of gs" by (auto simp: link_db_def run_link_def)
  then have "d = delivery_of ?row" using arg_cong [OF db, of t_snapshots] by simp
  then have "del_Payload d = payload" by (simp add: delivery_of_def queued_row_def)
  moreover have "link_unmarshal payload = Inr ?s" by (rule link_snapshots [OF p]) (simp add: current_snapshot_def)
  ultimately have "snap_Peers s = snap_Peers ?s" using assms by (auto simp: claimed_def run_env_def)
  then show ?thesis by (simp add: current_snapshot_def run_peers unambiguous_def)
qed


section \<open>The client and the server implement the store\<close>

text \<open>
  C17: The agent's HTTPS client and the gateway listener together behave like the operations of the
  store. For an agent linked to the listener with its own certificate, a claim, an
  acknowledgement and a report of a failure have the result and the effect of the store
  operation for exactly this gateway, whatever request or response is lost: paths, escapes,
  methods, headers, JSON bodies, status codes and limits on both sides fit together.
\<close>

theorem agent_source_refines_store:
  assumes "link_ok cast wi n" and "linked wi lib env src"
  shows "Claim env src n = src_Claim (store_source wi (hs_gatewayID src)) n \<and>
    (\<forall>i gen. plain_id i \<and> 0 < gen \<and> gen \<le> max_bigint \<longrightarrow>
      Ack env src i gen n = src_Ack (store_source wi (hs_gatewayID src)) i gen n) \<and>
    (\<forall>i t reason. plain_id i \<and> 0 < t \<and> t \<le> max_time \<and> plain_reason reason \<longrightarrow>
      Retry env src i t reason n = src_Retry (store_source wi (hs_gatewayID src)) i t reason n)"
  using claim_refines [OF assms] link_ack [OF assms(2)] link_retry [OF assms(2)] by blast

theorem agent_source_refines_store_witness:
  "Claim link_http link_source run_link = src_Claim (store_source link_wire ''gw1'') run_link
   \<and> Ack link_http link_source ''s'' 1 run_link = src_Ack (store_source link_wire ''gw1'') ''s'' 1 run_link
   \<and> Retry link_http link_source ''s'' 1000 ''apply failed'' run_link =
       src_Retry (store_source link_wire ''gw1'') ''s'' 1000 ''apply failed'' run_link"
proof -
  have "plain_id ''s''" "plain_reason ''apply failed''" by code_simp+
  moreover have "hs_gatewayID link_source = ''gw1''" by (simp add: link_source_def)
  ultimately show ?thesis
    using agent_source_refines_store [OF run_link_ok link_linked]
    by (simp add: max_bigint_def max_time_def)
qed

text \<open>
  C18: An idle agent sees a failure. When nothing may be delivered to a gateway and no call fails,
  the store answers a claim with \<^verbatim>\<open>ErrNotFound\<close>, which the handler does not know as the absence
  of a delivery: the agent gets status 503 instead of 204, its round ends with an error, and
  its waiting time doubles up to 30 seconds although nothing is wrong. Nothing else changes.
\<close>

theorem idle_agent_sees_failure:
  assumes "link_ok cast wi n" and "linked wi lib env src" and "calm cast n" and "cast (hs_gatewayID src) = Some gateway"
    and "\<forall>gs\<in>set (t_snapshots (link_db n)). \<not> deliverable (se_db (ln_env n (ln_next n))) gateway gs"
    and "Source w = Some (http_source_ops env src)" and "Applier w = Some applier" and "GatewayID w = hs_gatewayID src"
    and "length (VerifyKey w) = 32"
  shows "ApplyOnce wenv w n k = (Some (transport_error wi 503), w, n\<lparr>ln_next := ln_next n + 1\<rparr>, k) \<and>
    next_backoff interval backoff (Some (transport_error wi 503)) =
      (if backoff < 30 * second then min (backoff * 2) (30 * second) else backoff)"
proof -
  let ?e = "se_db (ln_env n (ln_next n))" and ?g = "hs_gatewayID src"
  have g: "plain_id ?g" using assms(2) by (simp add: linked_def root_source_def)
  have e: "no_fault ?e" "cast_uuid ?e = cast" using assms(3) env_okD(1) by (auto simp: calm_def)
  have "filter (deliverable ?e gateway) (t_snapshots (link_db n)) = []"
    using assms(5) by (simp add: filter_empty_conv)
  then have "select_delivery ?e ?g (link_db n) = Inl NoRows"
    using assms(4) e(2) by (simp add: select_delivery_def)
  then have "ClaimSnapshot ?e ?g (link_db n) = (Inl ErrNotFound, link_db n)"
    using plain_trim [OF g] plain_idD(1) [OF g] no_faultD [OF e(1)]
    by (simp add: ClaimSnapshot_def ClaimNextSnapshot_def run_tx_def attempt_def mapDatabaseError_def)
  then have "gw_ClaimSnapshot api_gateways (ln_env n (ln_next n)) ?g (ln_sys n) = (Inl ErrNotFound, ln_sys n)"
    by (simp add: api_gateways_def with_db_def link_db_def)
  then have "Claim env src n = (Inl (transport_error wi 503), n\<lparr>ln_next := ln_next n + 1\<rparr>)"
    unfolding claim_refines [OF assms(1,2)] by (simp add: store_source_def over_link_calm [OF assms(3)])
  then have "ApplyOnce wenv w n k = (Some (transport_error wi 503), w, n\<lparr>ln_next := ln_next n + 1\<rparr>, k)"
    using assms(6-9) plain_idD(1) [OF g] by (simp add: ApplyOnce_def http_source_ops_def)
  moreover have "next_backoff interval backoff (Some (transport_error wi 503)) =
      (if backoff < 30 * second then min (backoff * 2) (30 * second) else backoff)"
    by (simp add: next_backoff_def transport_error_def statusError_def)
  ultimately show ?thesis by blast
qed

theorem idle_agent_sees_failure_witness:
  "ApplyOnce run_env run_worker (run_link\<lparr>ln_sys := sample_sys\<lparr>svc_users := sample_db1\<rparr>\<rparr>) Map.empty =
     (Some (transport_error link_wire 503), run_worker,
      run_link\<lparr>ln_sys := sample_sys\<lparr>svc_users := sample_db1\<rparr>, ln_next := 1\<rparr>, Map.empty)"
proof -
  let ?n = "run_link\<lparr>ln_sys := sample_sys\<lparr>svc_users := sample_db1\<rparr>\<rparr>"
  have db: "link_db ?n = sample_db1" by (simp add: link_db_def)
  have none: "t_snapshots sample_db1 = []" by (simp add: sample_db1_def sample_db_def empty_db_def)
  have "link_ok sample_cast link_wire ?n"
    using store_reachable_inv [OF sample_reachable seeded_inv [OF sample_seeded]]
    by (simp add: link_ok_def db none) (simp add: run_link_def sample_sys_env_def Store_Samples.sample_env_def)
  moreover have "calm sample_cast ?n" using run_calm by (simp add: calm_def)
  moreover have "sample_cast (hs_gatewayID link_source) = Some ''gw1''" by (simp add: sample_cast_def link_source_def)
  moreover have "Source run_worker = Some (http_source_ops link_http link_source)"
    "Applier run_worker = Some (Apply sample_backend)" "GatewayID run_worker = hs_gatewayID link_source"
    "length (VerifyKey run_worker) = 32" by (simp_all add: run_worker_def link_source_def)
  ultimately have "ApplyOnce run_env run_worker ?n Map.empty = (Some (transport_error link_wire 503), run_worker,
      ?n\<lparr>ln_next := ln_next ?n + 1\<rparr>, Map.empty)"
    by (intro conjunct1 [OF idle_agent_sees_failure
          [where cast = sample_cast and gateway = "''gw1''", OF _ link_linked]]) (simp_all add: db none)
  then show ?thesis by (simp add: run_link_def)
qed

end
