(* ===== verification/Api_Run.thy ===== *)
theory Api_Run
  imports System
begin

text \<open>
  The control plane while it runs. The first part is the end of \<^verbatim>\<open>main\<close> in
  \<^verbatim>\<open>cmd/api/main.go\<close>: the two listeners, the signal that ends the process and the exit codes.
  The second part puts the API beside the reconciler, the snapshot publisher and a restart of
  the process, which share the database: whatever they do, in whatever order and with whatever
  failures, the state of the whole stays consistent.
\<close>

section \<open>The process\<close>

text \<open>
  What the running process sees: a request at one of its listeners, a listener that stops with
  an error, or SIGINT or SIGTERM. A request is served whole before the next event; the handlers
  share nothing but the database and the session store, whose operations are atomic.
\<close>

datatype api_event =
    PublicRequest sys_env server_request
  | GatewayRequest sys_env server_request
  | PublicFails error
  | GatewayFails error
  | Interrupted

text \<open>
  One event: the exit code if it ends the process, the response if there is one. After a signal
  \<^verbatim>\<open>Shutdown\<close> lets \<^verbatim>\<open>ListenAndServe\<close> return \<^verbatim>\<open>ErrServerClosed\<close>, and \<^verbatim>\<open>main\<close> returns with code 0.
  Nobody listens for gateways when no address is configured for them.
\<close>

definition api_handle ::
  "('c, 'p, 'q) api_start \<Rightarrow> api_event \<Rightarrow> sys \<Rightarrow> (nat option \<times> writer option) \<times> sys" where
  "api_handle a ev s =
     (case ev of
        PublicRequest e r \<Rightarrow> (let (w, s1) = serve (api_public a) e r s in ((None, Some w), s1))
      | GatewayRequest e r \<Rightarrow>
          (case api_gateway a of
             None \<Rightarrow> ((None, None), s)
           | Some server \<Rightarrow> (let (w, s1) = serve server e r s in ((None, Some w), s1)))
      | PublicFails err \<Rightarrow> ((Some 1, None), s)
      | GatewayFails err \<Rightarrow> ((if api_gateway a = None then None else Some 1, None), s)
      | Interrupted \<Rightarrow> ((Some 0, None), s))"

fun api_events ::
  "('c, 'p, 'q) api_start \<Rightarrow> api_event list \<Rightarrow> sys \<Rightarrow> (nat option \<times> writer list) \<times> sys" where
  "api_events a [] s = ((None, []), s)"
| "api_events a (ev # events) s =
     (let ((code, w), s1) = api_handle a ev s;
          ws = (case w of None \<Rightarrow> [] | Some x \<Rightarrow> [x])
      in if code \<noteq> None then ((code, ws), s1)
         else let ((code', ws'), s2) = api_events a events s1 in ((code', ws @ ws'), s2))"

section \<open>The control plane\<close>

text \<open>
  What an event of the API may bring: database calls of this server with valid ids, random
  draws that do not repeat, and the families of the session store in some order; the public
  listener speaks plain HTTP.
\<close>

definition env_good :: "(string \<Rightarrow> string option) \<Rightarrow> libs \<Rightarrow> sys \<Rightarrow> sys_env \<Rightarrow> bool" where
  "env_good cast lib s e \<longleftrightarrow> env_ok cast (se_db e) \<and> fresh_draws (lib_sha lib) (svc_sessions s) (se_rand e)
     \<and> iter_order (families (svc_sessions s)) (se_order e (svc_sessions s))"

fun event_good :: "(string \<Rightarrow> string option) \<Rightarrow> libs \<Rightarrow> sys \<Rightarrow> api_event \<Rightarrow> bool" where
  "event_good cast lib s (PublicRequest e r) \<longleftrightarrow> env_good cast lib s e \<and> sr_TLS r = None"
| "event_good cast lib s (GatewayRequest e r) \<longleftrightarrow> env_good cast lib s e"
| "event_good cast lib s ev \<longleftrightarrow> True"

text \<open>
  The processes over one database: an event of the API, a run of the reconciler, a run of the
  snapshot publisher, and a new start of the API, which forgets all sessions.
\<close>

inductive plant_step ::
  "(string \<Rightarrow> string option) \<Rightarrow> libs \<Rightarrow> ('c, 'p, 'q) api_start \<Rightarrow> sys \<Rightarrow> sys \<Rightarrow> bool"
  for cast lib a where
  event: "event_good cast lib s ev \<Longrightarrow> api_handle a ev s = (r, s') \<Longrightarrow> plant_step cast lib a s s'"
| reconciled: "(\<forall>i. env_ok cast (envs i)) \<Longrightarrow> reconcile envs marshal ed_sign key (svc_users s) = (ls, d') \<Longrightarrow>
    plant_step cast lib a s (s\<lparr>svc_users := d'\<rparr>)"
| published: "env_ok cast env1 \<Longrightarrow> env_ok cast env2 \<Longrightarrow>
    publisher_main (os :: ('c, 'p, 'q) os_env) marshal ed_sign env1 env2 (svc_users s) = (code, d') \<Longrightarrow>
    plant_step cast lib a s (s\<lparr>svc_users := d'\<rparr>)"
| restarted: "plant_step cast lib a s (NewAuthService (svc_users s) None)"

inductive_cases plant_stepE: "plant_step cast lib a s s'"

text \<open>The users of the live sessions, and the accounts.\<close>

definition session_users :: "session_store \<Rightarrow> string set" where
  "session_users s = {session_userID r | h r. sessions s h = Some r}"

definition accounts :: "db \<Rightarrow> string set" where
  "accounts d = u_id ` set (t_users d)"

text \<open>The invariant of the whole: of the tables, of the sessions, and between the two.\<close>

definition plant_inv :: "(string \<Rightarrow> string option) \<Rightarrow> sys \<Rightarrow> bool" where
  "plant_inv cast s \<longleftrightarrow> db_inv cast (svc_users s) \<and> session_inv (svc_sessions s)
     \<and> session_users (svc_sessions s) \<subseteq> accounts (svc_users s)"

section \<open>The database under every step\<close>

lemma store_step_accounts:
  assumes "store_step cast d d'" "db_inv cast d"
  shows "accounts d \<subseteq> accounts d'"
proof -
  have same: "t_users d' = t_users d \<Longrightarrow> ?thesis" by (simp add: accounts_def)
  from assms(1) show ?thesis
  proof (cases rule: store_step_cases)
    case (tunnel env cd u dv rg k x)
    then show ?thesis
      using tunnel_body_answered [of env cd u dv rg k d "fst (fst x)" "snd (fst x)" "fst (snd x)" "snd (snd x)" d'] same
      by auto
  next
    case (claimed env g x i c)
    show ?thesis
      by (rule claim_body_Inr [OF db_invD(8) [OF assms(2)] env_okD(1) [OF claimed(1)] claimed(2)]) (simp add: accounts_def)
  next
    case (confirmed env g n x i c)
    show ?thesis by (rule confirm_body_Inr [OF confirmed(2)]) (simp add: accounts_def)
  qed (auto simp: insert_user_def insert_device_def Let_def update_revocation_def insert_snapshot_def update_acked_def
      update_failed_def update_snapshots_def accounts_def split: if_splits option.splits)
qed

lemma store_reachable_trans:
  assumes "store_reachable cast d1 d2" "store_reachable cast d d1"
  shows "store_reachable cast d d2"
  using assms by (induction rule: store_reachable.induct) (auto intro: store_reachable.step)

lemma store_reachable_accounts:
  assumes "store_reachable cast d d'" "db_inv cast d"
  shows "accounts d \<subseteq> accounts d'"
  using assms
proof (induction rule: store_reachable.induct)
  case (step d d1 d2)
  then show ?case using store_step_accounts store_reachable_inv by blast
qed simp

lemma one_step: "store_step cast d d' \<Longrightarrow> store_reachable cast d d'"
  by (rule store_reachable.step [OF store_reachable.start])

lemma current_reach:
  assumes "env_ok cast env" "EnqueueCurrentGatewaySnapshot env marshal ed_sign g n key d = (r, d')"
  shows "store_reachable cast d d'"
  using EnqueueCurrentGatewaySnapshot_step [OF assms(1), of marshal ed_sign g n key d] assms(2)
  by (auto intro: one_step store_reachable.start)

lemma publish_gateway_reach:
  assumes "env_ok cast env2" "publish_gateway env1 env2 marshal ed_sign key g d = (l, d')"
  shows "store_reachable cast d d'"
  using assms(2) current_reach [OF assms(1)]
  by (auto simp: publish_gateway_def intro: store_reachable.start split: sum.splits prod.splits option.splits)

lemma publish_all_reach:
  assumes "\<forall>i. env_ok cast (envs i)" "publish_all envs k marshal ed_sign key gs d = (ls, d')"
  shows "store_reachable cast d d'"
  using assms(2)
proof (induction gs arbitrary: k d ls d')
  case (Cons g gs)
  obtain l d1 where p: "publish_gateway (envs k) (envs (k + 1)) marshal ed_sign key g d = (l, d1)" by fastforce
  obtain ls' d2 where r: "publish_all envs (k + 2) marshal ed_sign key gs d1 = (ls', d2)" by fastforce
  from Cons.prems p r have d2: "d' = d2" by simp
  from store_reachable_trans [OF Cons.IH [OF r] publish_gateway_reach [OF _ p]] assms(1) show ?case by (simp add: d2)
qed (simp add: store_reachable.start)

lemma reconcile_reach:
  assumes "\<forall>i. env_ok cast (envs i)" "reconcile envs marshal ed_sign key d = (ls, d')"
  shows "store_reachable cast d d'"
  using assms(2) publish_all_reach [OF assms(1)]
  by (auto simp: reconcile_def intro: store_reachable.start split: sum.splits)

lemma publisher_reach:
  assumes "env_ok cast env2" "publisher_main os marshal ed_sign env1 env2 d = (code, d')"
  shows "store_reachable cast d d'"
  using assms(2) current_reach [OF assms(1)]
  by (auto simp: publisher_main_def Let_def intro: store_reachable.start
      split: sum.splits prod.splits option.splits if_splits)

section \<open>The sessions under every step\<close>

lemma session_users_family:
  assumes "new_entries s u f es"
  shows "session_users (with_family f es s) \<subseteq> insert u (session_users s)"
  using assms with_family_lookup [OF assms] unfolding session_users_def new_entries_def by fastforce

lemma session_users_issue:
  assumes "fresh_draws h256 s rand" "issue_family h256 rand now u s = (r, s')"
  shows "session_users s' \<subseteq> insert u (session_users s)"
  by (rule issue_family_cases [OF assms]) (use session_users_family in blast)+

lemma session_users_without: "session_users (without_families F s) \<subseteq> session_users s"
  by (auto simp: session_users_def split: option.splits if_splits)

lemma session_users_rotate:
  assumes "session_inv s" "iter_order (families s) order" "fresh_draws h256 s rand"
    and "RotateRefresh h256 rand order now later token s = (r, s')"
  shows "session_users s' \<subseteq> session_users s"
proof (rule rotate_cases [OF assms(1,2,4)])
  fix old t
  assume old: "sessions s (h256 token) = Some old" "tokenHash h256 token = Some (h256 token)"
    and t: "t = without_families {session_familyID old} (s\<lparr>consumed := (consumed s)(h256 token \<mapsto> session_userID old)\<rparr>)"
    and i: "issue_family h256 rand later (session_userID old) t =
        ((case r of None \<Rightarrow> fst (issue_family h256 rand later (session_userID old) t) | Some (pair, u) \<Rightarrow> Inr pair), s')"
  have "session_users t \<subseteq> session_users s"
    unfolding t using session_users_without [of "{session_familyID old}"
        "s\<lparr>consumed := (consumed s)(h256 token \<mapsto> session_userID old)\<rparr>"]
    by (simp add: session_users_def)
  moreover have "session_userID old \<in> session_users s" using old by (auto simp: session_users_def)
  moreover have "fresh_draws h256 t rand" unfolding t by (rule fresh_draws_revoked [OF assms(3) old(1)])
  ultimately show ?thesis using session_users_issue [OF _ i] by blast
qed (use session_users_without in auto)

section \<open>One request\<close>

text \<open>What a request may do to the whole: steps of the store, and a step of the sessions of accounts.\<close>

definition request_moves :: "(string \<Rightarrow> string option) \<Rightarrow> libs \<Rightarrow> sys \<Rightarrow> sys \<Rightarrow> bool" where
  "request_moves cast lib s s' \<longleftrightarrow> store_reachable cast (svc_users s) (svc_users s')
     \<and> (svc_sessions s' = svc_sessions s \<or> session_step (lib_sha lib) (svc_sessions s) (svc_sessions s'))
     \<and> session_users (svc_sessions s') \<subseteq> session_users (svc_sessions s) \<union> accounts (svc_users s')"

lemma request_moves_db: "store_reachable cast (svc_users s) d' \<Longrightarrow> request_moves cast lib s (s\<lparr>svc_users := d'\<rparr>)"
  by (simp add: request_moves_def)

lemma request_moves_refl: "request_moves cast lib s s"
  by (simp add: request_moves_def store_reachable.start)

lemma FindUser_account: "FindUserPasswordHash env n d = Inr (u, h, x) \<Longrightarrow> u \<in> accounts d"
  by (auto simp: FindUserPasswordHash_def attempt_def accounts_def find_Some_iff split: option.splits sum.splits if_splits)

lemma visitor_request:
  assumes "acts_as_visitor (Some (api_auth lib)) e s s'" "env_good cast lib s e" "session_inv (svc_sessions s)"
  shows "request_moves cast lib s s'"
proof -
  note e = assms(2) [unfolded env_good_def]
  from assms(1) show ?thesis
  proof cases
    case (register_account au email password)
    then have "au = api_auth lib" by simp
    with register_account have s': "s' = snd (Register pg_user_ops (lib_IDKey lib) (lib_lower lib) (se_db e) (se_salt e) email password s)"
      by (simp add: api_auth_def)
    then have "s' = s \<or> (\<exists>n h. s' = s\<lparr>svc_users := snd (CreateUser (se_db e) n h (svc_users s))\<rparr>)"
      by (auto simp: Register_def pg_user_ops_def case_prod_beta split: sum.splits)
    then show ?thesis using e request_moves_refl request_moves_db one_step create_user by metis
  next
    case (login au email password)
    then have "au = api_auth lib" by simp
    with login have s': "s' = snd (Login pg_user_ops (lib_IDKey lib) (lib_sha lib) (lib_lower lib) (se_db e) (se_rand e) (se_now e)
        email password s)" by (simp add: api_auth_def)
    then have "s' = s \<or> (\<exists>u. u \<in> accounts (svc_users s)
        \<and> s' = s\<lparr>svc_sessions := snd (Issue (lib_sha lib) (se_rand e) (se_now e) u (svc_sessions s))\<rparr>)"
      by (auto simp: Login_def Let_def pg_user_ops_def case_prod_beta dest: FindUser_account split: sum.splits)
    then show ?thesis
    proof (elim disjE exE conjE)
      fix u
      assume u: "u \<in> accounts (svc_users s)"
        and "s' = s\<lparr>svc_sessions := snd (Issue (lib_sha lib) (se_rand e) (se_now e) u (svc_sessions s))\<rparr>"
      moreover obtain r st where i: "Issue (lib_sha lib) (se_rand e) (se_now e) u (svc_sessions s) = (r, st)" by fastforce
      ultimately have s': "s' = s\<lparr>svc_sessions := st\<rparr>" by simp
      have "session_users st \<subseteq> insert u (session_users (svc_sessions s))"
        using i session_users_issue [of "lib_sha lib" "svc_sessions s" "se_rand e" "se_now e" u r st] e
        by (auto simp: Issue_def split: if_splits)
      with u e i show ?thesis
        by (auto simp: request_moves_def s' store_reachable.start intro: step_issue)
    qed (simp add: request_moves_refl)
  next
    case (refresh au token)
    then have "au = api_auth lib" by simp
    with refresh have s': "s' = snd (Refresh (lib_sha lib) (se_rand e) (se_order e (svc_sessions s)) (se_now e) (se_later e) token s)"
      by (simp add: api_auth_def)
    obtain r st where i: "RotateRefresh (lib_sha lib) (se_rand e) (se_order e (svc_sessions s)) (se_now e) (se_later e) token
        (svc_sessions s) = (r, st)" by fastforce
    from s' i have "s' = s\<lparr>svc_sessions := st\<rparr>" by (simp add: Refresh_def)
    with i e session_users_rotate [OF assms(3) _ _ i] show ?thesis
      by (auto simp: request_moves_def store_reachable.start intro: step_rotate)
  qed
qed

lemma user_request_moves:
  assumes "acts_as_user (Some (api_auth lib)) (Some (api_devices lib, lr)) e u s s'" "env_good cast lib s e"
    and "session_inv (svc_sessions s)"
  shows "request_moves cast lib s s'"
proof -
  note e = assms(2) [unfolded env_good_def]
  have moves: "request_moves cast lib s (s\<lparr>svc_users := d'\<rparr>)" if "store_step cast (svc_users s) d'" for d'
    by (rule request_moves_db [OF one_step [OF that]])
  from assms(1) show ?thesis
  proof cases
    case (register ops lr' q)
    then have "ops = api_devices lib" by simp
    with register have "s' = s\<lparr>svc_users := snd (Store_RegisterDevice (se_db e) u q (svc_users s))\<rparr>"
      by (simp add: api_devices_def snd_with_db)
    with moves register_device e show ?thesis by metis
  next
    case (revoke ops lr' i)
    then have "ops = api_devices lib" by simp
    with revoke have "s' = s\<lparr>svc_users := snd (Store_RequestRevocation (se_db e) u i (svc_users s))\<rparr>"
      by (simp add: api_devices_def snd_with_db)
    with moves revoke_device e show ?thesis by metis
  next
    case (configure ops lr' i rg k)
    then have "ops = api_devices lib" by simp
    with configure have "s' = s\<lparr>svc_users := snd (Store_CreateTunnelConfiguration (se_db e) (lib_codec lib) u i rg k (svc_users s))\<rparr>"
      by (simp add: api_devices_def snd_with_db)
    with moves create_tunnel e show ?thesis by metis
  next
    case (logout au)
    then have "au = api_auth lib" by simp
    with logout have s': "s' = s\<lparr>svc_sessions := RevokeUser (se_order e (svc_sessions s)) u (svc_sessions s)\<rparr>"
      by (simp add: api_auth_def Logout_def)
    have "session_users (RevokeUser (se_order e (svc_sessions s)) u (svc_sessions s)) \<subseteq> session_users (svc_sessions s)"
      using revokeUser_closed(1) [OF assms(3)] e session_users_without by metis
    with e show ?thesis by (auto simp: request_moves_def s' store_reachable.start intro: step_revoke)
  qed (simp add: request_moves_refl)
qed

lemma gateway_request_moves:
  assumes "acts_as_gateway [Some api_gateways] e g s s'" "env_good cast lib s e"
  shows "request_moves cast lib s s'"
proof -
  note e = conjunct1 [OF assms(2) [unfolded env_good_def]]
  from assms(1) show ?thesis
  proof cases
    case (claim svc rest)
    then have "svc = api_gateways" by simp
    with claim have "s' = s\<lparr>svc_users := snd (ClaimSnapshot (se_db e) g (svc_users s))\<rparr>" by (simp add: api_gateways_def snd_with_db)
    with e request_moves_db one_step store_step.claim show ?thesis by metis
  next
    case (ack svc rest i n)
    then have "svc = api_gateways" by simp
    with ack have s': "s' = s\<lparr>svc_users := snd (AckSnapshotDelivery (se_db e) g i n (svc_users s))\<rparr>"
      by (auto simp: api_gateways_def snd_with_db)
    from AckSnapshotDelivery_steps [OF e, of "svc_users s" g i n]
    have "store_reachable cast (svc_users s) (snd (AckSnapshotDelivery (se_db e) g i n (svc_users s)))"
      using one_step store_reachable.step by metis
    then show ?thesis unfolding s' by (rule request_moves_db)
  next
    case (fail svc rest i t reason)
    then have "svc = api_gateways" by simp
    with fail have "s' = s\<lparr>svc_users := snd (RetrySnapshot (se_db e) g i t reason (svc_users s))\<rparr>"
      by (auto simp: api_gateways_def snd_with_db RetrySnapshotDelivery_def)
    with e request_moves_db one_step store_step.retry show ?thesis by metis
  qed (simp add: request_moves_refl)
qed

section \<open>Every step\<close>

lemma request_moves_inv:
  assumes "request_moves cast lib s s'" "plant_inv cast s"
  shows "plant_inv cast s' \<and> store_reachable cast (svc_users s) (svc_users s')"
proof -
  note m = assms(1) [unfolded request_moves_def] and inv = assms(2) [unfolded plant_inv_def]
  have "db_inv cast (svc_users s')" using store_reachable_inv m inv by blast
  moreover have "session_inv (svc_sessions s')" using m inv session_step_inv by metis
  moreover have "accounts (svc_users s) \<subseteq> accounts (svc_users s')" using store_reachable_accounts m inv by blast
  ultimately show ?thesis using m inv by (auto simp: plant_inv_def)
qed

lemma mux_request_moves:
  assumes "mux_serve (NewMux rc auth devs hc [Some api_gateways]) e r w s = (w', s')" "public_writer w"
    and "auth = Some (api_auth lib) \<and> devs = Some (api_devices lib, Some api_regions) \<or> auth = None \<and> devs = None"
    and "env_good cast lib s e" "session_inv (svc_sessions s)"
  shows "request_moves cast lib s s'"
  using mux_access [OF assms(1,2)] assms(3)
  by (auto simp: token_of_def intro: request_moves_refl visitor_request [OF _ assms(4,5)] user_request_moves [OF _ assms(4,5)]
      gateway_request_moves [OF _ assms(4)] elim: acts_as_visitorE)

text \<open>The listeners of a started API are the public one and the one for gateways.\<close>

lemma api_main_Started:
  assumes "api_main os lib d = Started a"
  shows "\<exists>address. api_public a = api_server lib address" and "api_service a = NewAuthService d None"
    and "api_gateway a = Some g \<Longrightarrow> \<exists>address tls. g = NewMTLSServer address (mux_serve (gateway_mux lib)) tls"
  using assms by (auto simp: api_main_def Let_def split: sum.splits if_splits)
    ((rule exI)+, rule refl)

lemma plant_step_inv:
  assumes "plant_step cast lib a s s'" "plant_inv cast s" "api_main os lib d = Started a"
  shows "plant_inv cast s' \<and> store_reachable cast (svc_users s) (svc_users s')"
proof -
  note gw = api_main_Started(3) [OF assms(3)]
  obtain address where pub: "api_public a = api_server lib address" using api_main_Started(1) [OF assms(3)] by blast
  have inv: "session_inv (svc_sessions s)" using assms(2) by (simp add: plant_inv_def)
  note keep = request_moves_inv [OF _ assms(2)]
  have same: ?thesis if "s' = s" using that keep [OF request_moves_refl] by simp
  from assms(1) show ?thesis
  proof cases
    case (event ev r)
    show ?thesis
    proof (cases ev)
      case (PublicRequest e q)
      with event obtain w where "serve (api_public a) e q s = (w, s')"
        by (auto simp: api_handle_def Let_def split: prod.splits)
      then have "mux_serve (NewMux (lib_request lib) (Some (api_auth lib)) (Some (api_devices lib, Some api_regions))
          (Some (\<lambda>e _. se_ping e)) [Some api_gateways]) e q (secured q) s = (w, s')"
        by (simp add: pub api_server_def serve_NewServer)
      from mux_request_moves [OF this secured_writer(2) _ _ inv] event PublicRequest keep show ?thesis by auto
    next
      case (GatewayRequest e q)
      show ?thesis
      proof (cases "api_gateway a")
        case None
        with event GatewayRequest show ?thesis by (intro same) (simp add: api_handle_def)
      next
        case (Some g)
        with gw obtain address tls where "g = NewMTLSServer address (mux_serve (gateway_mux lib)) tls" by blast
        with Some event GatewayRequest obtain w
          where "serve (NewMTLSServer address (mux_serve (gateway_mux lib)) tls) e q s = (w, s')"
          by (auto simp: api_handle_def Let_def split: prod.splits)
        then have "mux_serve (NewMux (lib_request lib) None None (Some (\<lambda>e _. se_ping e)) [Some api_gateways]) e q
            (secured q) s = (w, s')" by (simp add: serve_NewMTLSServer gateway_mux_def)
        from mux_request_moves [OF this secured_writer(2) _ _ inv] event GatewayRequest keep show ?thesis by auto
      qed
    qed (use event same in \<open>simp_all add: api_handle_def\<close>)
  next
    case (reconciled envs marshal ed_sign key ls d')
    with keep [OF request_moves_db [OF reconcile_reach [OF reconciled(2,3)]]] show ?thesis by simp
  next
    case (published env1 env2 os' marshal ed_sign code d')
    with keep [OF request_moves_db [OF publisher_reach [OF published(3,4)]]] show ?thesis by simp
  next
    case restarted
    then show ?thesis
      using assms(2) session_inv_new
      by (auto simp: plant_inv_def NewAuthService_def session_users_def NewSessionStore_def store_reachable.start)
  qed
qed

lemma plant_run_inv:
  assumes "(plant_step cast lib a)\<^sup>*\<^sup>* s s'" "plant_inv cast s" "api_main os lib d = Started a"
  shows "plant_inv cast s' \<and> store_reachable cast (svc_users s) (svc_users s')"
  using assms(1)
proof (induction rule: rtranclp_induct)
  case base
  show ?case using assms(2) by (simp add: store_reachable.start)
next
  case (step s1 s2)
  from step.IH plant_step_inv [OF step.hyps(2) _ assms(3)] store_reachable_trans show ?case by blast
qed

text \<open>A run of the API over a list of events is a run of the control plane.\<close>

fun events_good ::
  "(string \<Rightarrow> string option) \<Rightarrow> libs \<Rightarrow> ('c, 'p, 'q) api_start \<Rightarrow> sys \<Rightarrow> api_event list \<Rightarrow> bool" where
  "events_good cast lib a s [] \<longleftrightarrow> True"
| "events_good cast lib a s (ev # events) \<longleftrightarrow>
     event_good cast lib s ev \<and> events_good cast lib a (snd (api_handle a ev s)) events"

lemma api_events_run:
  "events_good cast lib a s events \<Longrightarrow> (plant_step cast lib a)\<^sup>*\<^sup>* s (snd (api_events a events s))"
proof (induction events arbitrary: s)
  case (Cons ev events)
  obtain code w s1 where h: "api_handle a ev s = ((code, w), s1)" by (metis surj_pair)
  have s1: "plant_step cast lib a s s1" using Cons.prems h plant_step.event by fastforce
  moreover have "(plant_step cast lib a)\<^sup>*\<^sup>* s1 (snd (api_events a events s1))"
    using Cons.IH [of s1] Cons.prems h by simp
  ultimately show ?case
    using h by (auto simp: Let_def case_prod_beta intro: converse_rtranclp_into_rtranclp)
qed simp

section \<open>The whole\<close>

text \<open>
  C1: The control plane stays consistent. The API is started over a fresh database with the
  regions and gateways of its administrator; then requests arrive at both listeners, the
  reconciler and the snapshot publisher run, the API is stopped and started again, in any order
  and number, and any database call or random draw may fail. At every moment no gateway has more
  live peers than its capacity, no address is leased twice and no device has two leases, every
  device belongs to an account, every live peer has its lease, and every access token that is
  accepted, at any time, is one of an account that exists.
\<close>

theorem control_plane_stays_consistent:
  assumes "seeded cast d0" and "api_main os lib d0 = Started a"
    and "(plant_step cast lib a)\<^sup>*\<^sup>* (api_service a) s"
  shows "(\<forall>g\<in>set (t_gateways (svc_users s)). live_count (svc_users s) (g_id g) \<le> g_capacity g)
     \<and> (\<forall>l1 l2. l1 \<in> set (t_leases (svc_users s)) \<and> l2 \<in> set (t_leases (svc_users s)) \<and> held l1 \<and> held l2
          \<and> (l_device l1 = l_device l2 \<or> l_region l1 = l_region l2 \<and> (l_v4 l1 = l_v4 l2 \<or> l_v6 l1 = l_v6 l2))
          \<longrightarrow> l1 = l2)
     \<and> (\<forall>dv\<in>set (t_devices (svc_users s)). \<exists>u\<in>set (t_users (svc_users s)). u_id u = d_user dv)
     \<and> (\<forall>pa\<in>set (t_assignments (svc_users s)). live pa \<longrightarrow>
          (\<exists>l\<in>set (t_leases (svc_users s)). l_id l = a_lease pa \<and> held l \<and> l_device l = a_device pa))
     \<and> (\<forall>e r v. token_of (Some (api_auth lib)) e r s v \<longrightarrow> (\<exists>u\<in>set (t_users (svc_users s)). u_id u = v))"
proof -
  have "plant_inv cast (api_service a)"
    using seeded_inv [OF assms(1)] session_inv_new
    by (simp add: api_main_Started(2) [OF assms(2)] NewAuthService_def plant_inv_def session_users_def NewSessionStore_def)
  from plant_run_inv [OF assms(3) this assms(2)] have inv: "plant_inv cast s" by simp
  then have db: "db_inv cast (svc_users s)" by (simp add: plant_inv_def)
  have leases: "l1 = l2" if "l1 \<in> set (t_leases (svc_users s))" "l2 \<in> set (t_leases (svc_users s))" "held l1" "held l2"
    "l_device l1 = l_device l2 \<or> l_region l1 = l_region l2 \<and> (l_v4 l1 = l_v4 l2 \<or> l_v6 l1 = l_v6 l2)" for l1 l2
    using db_invD(3) [OF db] that held_unique [of l_device] held_unique [of "\<lambda>l. (l_region l, l_v4 l)"]
      held_unique [of "\<lambda>l. (l_region l, l_v6 l)"] unfolding leases_inv_def by blast
  have tokens: "\<exists>u\<in>set (t_users (svc_users s)). u_id u = v" if "token_of (Some (api_auth lib)) e r s v" for e r v
  proof -
    from that obtain t token where "AuthenticateAccess (lib_sha lib) t token (svc_sessions s) = Some v"
      by (auto simp: token_of_def api_auth_def Service_AuthenticateAccess_def split: option.splits)
    then have "v \<in> session_users (svc_sessions s)" by (auto simp: authenticate_session session_users_def)
    with inv show ?thesis by (auto simp: plant_inv_def accounts_def)
  qed
  have "\<forall>g\<in>set (t_gateways (svc_users s)). live_count (svc_users s) (g_id g) \<le> g_capacity g"
    using db_invD(6) [OF db] by (simp add: gateways_inv_def)
  moreover have "\<forall>dv\<in>set (t_devices (svc_users s)). \<exists>u\<in>set (t_users (svc_users s)). u_id u = d_user dv"
    using db_invD(2) [OF db] by (force simp: devices_inv_def)
  moreover have "\<forall>pa\<in>set (t_assignments (svc_users s)). live pa \<longrightarrow>
      (\<exists>l\<in>set (t_leases (svc_users s)). l_id l = a_lease pa \<and> held l \<and> l_device l = a_device pa)"
    using db_invD(5) [OF db] by (simp add: match_inv_def)
  ultimately show ?thesis using leases tokens by blast
qed

section \<open>A small run for the witness\<close>

definition run_os :: "(unit, unit, unit) os_env" where
  "run_os = \<lparr>os_Getenv = \<lambda>n. if n = ''DATABASE_URL'' then ''postgres://db'' else '''',
     os_ReadFile = \<lambda>_. Inl ErrInvalidInput, os_fmul = \<lambda>a _ _. a,
     os_pool = \<lparr>pe_ParseConfig = \<lambda>_. Inr \<lparr>pc_Host = ''localhost'', pc_TLS = False, pc_Password = ''secret'', pc_MaxConns = 0,
         pc_MinConns = 0, pc_MaxConnLifetime = 0, pc_MaxConnIdleTime = 0, pc_HealthCheckPeriod = 0\<rparr>,
       pe_NewPool = \<lambda>_. Inr (), pe_Ping = \<lambda>_. None, pe_ReadFile = \<lambda>_. Inl ErrInvalidInput, pe_loopback = \<lambda>_. False\<rparr>,
     os_tls = \<lparr>te_LoadX509KeyPair = \<lambda>_ _. Inl ErrInvalidInput, te_ReadFile = \<lambda>_. Inl ErrInvalidInput,
       te_CertPool = \<lambda>_. None\<rparr>\<rparr>"

definition run_libs :: libs where
  "run_libs = sample_libs\<lparr>lib_request := sample_request_codec\<lparr>rc_credentials :=
     \<lambda>_. Some ((''alice@example.com'', ''correct horse battery''), '''')\<rparr>\<rparr>"

definition run_api :: "(unit, unit, unit) api_start" where
  "run_api = \<lparr>api_store = (), api_service = NewAuthService empty_db None,
     api_public = api_server run_libs '':8080'', api_gateway = None\<rparr>"

definition run_api_env :: sys_env where
  "run_api_env = sample_sys_env\<lparr>se_db := env_of_id ''alice'', se_salt := Inr (replicate 16 CHR ''s''),
     se_rand := \<lambda>_. Inl ErrInvalidInput, se_order := \<lambda>_. []\<rparr>"

definition register_request :: server_request where
  "register_request = \<lparr>sr_Method = ''POST'', sr_Path = ''/v1/auth/register'',
     sr_Header = \<lambda>h. if h = ''Content-Type'' then ''application/json'' else '''', sr_Body = ''{}'', sr_TLS = None\<rparr>"

lemma run_api_starts: "api_main run_os run_libs empty_db = Started run_api"
proof -
  have t: "trimSpace ''postgres://db'' = ''postgres://db''" "trimSpace '''' = ''''" by code_simp+
  have l: "Load (os_Getenv run_os) (Some (os_Getenv run_os)) =
      Inr \<lparr>ListenAddress = '':8080'', GatewayListenAddress = '''', GatewayCertificateFile = '''',
        GatewayPrivateKeyFile = '''', GatewayCAFile = '''', DatabaseURL = ''postgres://db'', Environment = ''development''\<rparr>"
    by (simp add: Load_def raw_values_def trimmed_config_def Let_def t containsAny_def run_os_def)
  have "equalFold ''localhost'' ''localhost''" by code_simp
  then have "open_store run_os ''postgres://db'' = Inr ()"
    by (simp add: open_store_def run_os_def Open_def openConfig_def requireTLSForRemoteHost_def)
  with l show ?thesis by (simp add: api_main_def run_api_def)
qed

lemma run_register:
  "\<exists>w row. api_handle run_api (PublicRequest run_api_env register_request) (api_service run_api) =
     ((None, Some w), NewAuthService (empty_db\<lparr>t_users := [row]\<rparr>) None) \<and> reply_status w = 201 \<and> u_id row = ''alice''"
proof -
  have p: "cleanPath ''/v1/auth/register'' = ''/v1/auth/register''"
    "path_segments ''/v1/auth/register'' = [''v1'', ''auth'', ''register'']"
    "mux_unescape ''v1'' = ''v1''" "mux_unescape ''auth'' = ''auth''" "mux_unescape ''register'' = ''register''"
    by code_simp+
  have j: "hasPrefix (toLower (\<lambda>s. s) ''application/json'') ''application/json''" by code_simp
  have n: "normalizeEmail (\<lambda>s. s) ''alice@example.com'' = Inr ''alice@example.com''" by code_simp
  obtain h where h: "HashPassword toy_argon2 (Inr (replicate 16 CHR ''s'')) ''correct horse battery'' = Inr h"
    by (simp add: HashPassword_def)
  obtain row where c: "CreateUser (env_of_id ''alice'') ''alice@example.com'' h empty_db =
      (Inr ''alice'', empty_db\<lparr>t_users := [row]\<rparr>)" "u_id row = ''alice''"
    by (simp add: CreateUser_def autocommit_def insert_user_def email_ok_def env_of_id_def sample_env_def
        empty_db_def sample_texts)
  have r: "au_Register (api_auth run_libs) run_api_env ''alice@example.com'' ''correct horse battery''
      (NewAuthService empty_db None) = (Inr ''alice'', NewAuthService (empty_db\<lparr>t_users := [row]\<rparr>) None)"
    by (simp add: api_auth_def run_libs_def sample_libs_def run_api_env_def Register_def n h c pg_user_ops_def NewAuthService_def)
  have "find_route (NewMux (lib_request run_libs) (Some (api_auth run_libs)) (Some (api_devices run_libs, Some api_regions))
      (Some (\<lambda>e _. se_ping e)) [Some api_gateways]) ''POST'' [''v1'', ''auth'', ''register''] =
      Some (AuthHandler_Register (api_auth run_libs) (lib_request run_libs))"
    by (simp add: NewMux_def auth_routes_def p method_matches_def)
  then have s: "serve (api_public run_api) run_api_env register_request (NewAuthService empty_db None) =
      (writeJSON 201 (RUser ''alice'') (secured register_request), NewAuthService (empty_db\<lparr>t_users := [row]\<rparr>) None)"
    using r j by (simp add: run_api_def api_server_def serve_NewServer mux_serve_def register_request_def p
        AuthHandler_Register_def decodeJSON_def run_libs_def sample_libs_def sample_request_codec_def)
  have "reply_status (writeJSON 201 (RUser ''alice'') (secured register_request)) = 201"
    using secured_writer(1) [of register_request]
    by (simp add: reply_status_def writeJSON_def encode_reply_def WriteHeader_def header_set_def fresh_def)
  with s c(2) show ?thesis
    by (intro exI [of _ "writeJSON 201 (RUser ''alice'') (secured register_request)"] exI [of _ row])
      (simp add: api_handle_def run_api_def)
qed

theorem control_plane_stays_consistent_witness:
  "\<exists>w s. api_handle run_api (PublicRequest run_api_env register_request) (api_service run_api) = ((None, Some w), s)
     \<and> reply_status w = 201 \<and> accounts (svc_users s) = {''alice''}
     \<and> (\<forall>e r v. token_of (Some (api_auth run_libs)) e r s v \<longrightarrow> v = ''alice'')"
proof -
  from run_register obtain w row where r: "api_handle run_api (PublicRequest run_api_env register_request) (api_service run_api) =
     ((None, Some w), NewAuthService (empty_db\<lparr>t_users := [row]\<rparr>) None)" "reply_status w = 201" "u_id row = ''alice''" by blast
  have "event_good sample_cast run_libs (api_service run_api) (PublicRequest run_api_env register_request)"
    by (simp add: env_good_def run_api_env_def sample_env_ok fresh_draws_def run_api_def NewAuthService_def
        NewSessionStore_def iter_order_def register_request_def)
  from plant_step.event [OF this r(1)]
  have run: "(plant_step sample_cast run_libs run_api)\<^sup>*\<^sup>* (api_service run_api) (NewAuthService (empty_db\<lparr>t_users := [row]\<rparr>) None)"
    by blast
  from control_plane_stays_consistent [OF sample_seeded run_api_starts run] r show ?thesis
    by (auto simp: accounts_def NewAuthService_def)
qed

end
