(* ===== verification/Spec2Isabelle.thy ===== *)
theory Spec2Isabelle
  imports Config Control_Facts End_To_End Api_Run
begin

text \<open>
  The Go services of PersonalVPN (\<^verbatim>\<open>services/api\<close>): a control API that keeps accounts, devices and
  tunnel configurations in PostgreSQL, and the agents that bring the peers of each gateway into
  its WireGuard interface. This theory holds the overview; the models and the theorems are in
  the theories it imports.

  THE PROGRAM. A client registers an account and logs in (\<^verbatim>\<open>internal/auth\<close>), registers devices
  and asks for a tunnel configuration (\<^verbatim>\<open>internal/httpapi\<close> over \<^verbatim>\<open>internal/postgres\<close>): the store
  chooses a gateway with room, leases an IPv4 and an IPv6 address and assigns the device as a
  peer. The reconciler (\<^verbatim>\<open>cmd/reconciler\<close>), or by hand the publisher (\<^verbatim>\<open>cmd/snapshot-publisher\<close>),
  materializes the peers of a gateway as a signed snapshot in the outbox. The agent
  (\<^verbatim>\<open>cmd/gateway-agent\<close>, \<^verbatim>\<open>internal/agent\<close>) claims it over mutual TLS, verifies it, applies the
  difference to the kernel and acknowledges it; the store then confirms the assignments.
  \<^verbatim>\<open>internal/control\<close> holds the domain types and a second, in-memory provider of the devices.

  THE PRELUDE. \<open>Go_Base\<close> (errors as values, times, the order of map iteration, collections of
  facts), \<open>Go_Strings\<close>, \<open>Go_Base64\<close>, \<open>Go_NetIP\<close> and \<open>Go_Time\<close> model what the code uses of Go's
  standard library: strings are byte lists, addresses are words of 32 and 128 bits, durations
  are added with the overflow checks of \<^verbatim>\<open>time.ParseDuration\<close>.

  THE COMPONENTS, each with its state as a record and one definition per operation, named as in
  the code (a name that would clash carries its type, as in \<open>Store_RegisterDevice\<close>):
  \<^item> \<open>Config\<close>: \<^verbatim>\<open>internal/config/config.go\<close>.
  \<^item> \<open>Control\<close>, with its facts in \<open>Control_Facts\<close>: \<^verbatim>\<open>internal/control/service.go\<close>.
  \<^item> \<open>Password\<close>, \<open>Session\<close>, \<open>Auth_Service\<close>: \<^verbatim>\<open>internal/auth\<close>; the session store is three maps
    under one lock, so an operation is one step.
  \<^item> \<open>Snapshot\<close>, \<open>WireGuard\<close>, \<open>Transport\<close> (also TLS), \<open>Worker\<close>: \<^verbatim>\<open>internal/agent\<close>.
  \<^item> \<open>DB\<close>: the tables of \<^verbatim>\<open>migrations/0001_initial.sql\<close> as lists of rows, statements with their
    constraints, transactions. \<open>Allocator\<close>, \<open>Store\<close>, \<open>Outbox\<close>: \<^verbatim>\<open>internal/postgres/store.go\<close>,
    statement by statement.
  \<^item> \<open>Httpapi\<close>, \<open>Router\<close>: \<^verbatim>\<open>internal/httpapi\<close>, the handlers, the routes and the headers.
  \<^item> \<open>Commands\<close>: \<^verbatim>\<open>cmd/reconciler\<close>, \<^verbatim>\<open>cmd/snapshot-publisher\<close>, \<^verbatim>\<open>cmd/gateway-agent\<close>;
    \<open>System\<close> and \<open>Api_Run\<close>: \<^verbatim>\<open>cmd/api\<close>, first what it serves, then the running process.

  THE INTERFACES are locales: \<open>byte_codec\<close> (Base64), \<open>device_service\<close> (the devices behind the
  handlers; interpreted on the in-memory service and on PostgreSQL), \<open>user_store\<close> (the accounts
  behind the account service; interpreted on PostgreSQL), \<open>delivery_source\<close> and
  \<open>snapshot_applier\<close> (the two sides of the worker; interpreted on the HTTPS source and on the
  WireGuard backend).

  WHAT IS SHOWN.
  \<^item> Invariants: \<open>Store_Inv\<close> carries one invariant of all tables through every operation of the
    store, whatever calls fail and whether or not a failed commit took effect; \<open>Session\<close> and
    \<open>Control_Facts\<close> do so for the session store and the in-memory service. \<open>Api_Run\<close> joins them:
    any run of the API, the reconciler, the publisher and restarts keeps both and the relation
    between them (\<open>control_plane_stays_consistent\<close>).
  \<^item> Behaviour of single components: \<open>Store_Props\<close> (allocation, idempotent requests, lost commits,
    final revocation), \<open>Outbox_Facts\<close> (the life cycle of a delivery), \<open>Allocator\<close> (least free
    address, no refusal while there is room, termination), \<open>Snapshot\<close> (validity, signatures,
    the difference), \<open>WireGuard\<close>, \<open>Worker\<close>, \<open>Password\<close>, \<open>Auth_Service\<close>, \<open>Config\<close>.
  \<^item> The HTTP surface: \<open>Router_Facts\<close> (every request gets one well formed response; access control
    is complete), \<open>System\<close> (a request acts only for its user, a gateway only on its own rows,
    logout ends access).
  \<^item> The path of a peer: \<open>Publish\<close> (the reconciler reaches every gateway; what it queues is a valid
    snapshot of the current peers), \<open>Agent_Link\<close> and \<open>End_To_End\<close> (the agent's client and the
    listener's handlers together are the operations of the store; a published snapshot reaches
    the kernel; a confirmation comes after its snapshot was verified and applied, and a device that
    was assigned when the snapshot was made is then served). \<open>Store_Samples\<close> and \<open>Link_Samples\<close> hold
    the small concrete systems on which the theorems are instantiated.

  PARAMETERS. Code outside the repository is an argument, with what the program relies on as a
  named hypothesis: Argon2 (\<open>key_length\<close>), SHA-256 and random draws (\<open>fresh_draws\<close>: the tokens
  drawn do not repeat), Ed25519 (\<open>ed25519_sound\<close>), JSON (\<open>json_faithful\<close>, \<open>json_storable\<close>,
  \<open>comes_back\<close>, \<open>wire_ok\<close>, each for the values at hand), URL parsing, certificates, the case table of non-ASCII letters, the floating-point
  step of \<^verbatim>\<open>time.ParseDuration\<close>, WireGuard's table of allowed addresses (\<open>wg_kernel\<close>), and the
  environment of PostgreSQL (\<open>db_env\<close>: which calls fail, ids, clocks, the cast of texts to uuids,
  printed addresses, the collation). Each hypothesis is instantiated in a witness.

  BOUNDS. The loop of \<open>firstAvailableAddress\<close> has the bound of the code, 65535 attempts, as its
  fuel; \<open>allocator_search_terminates\<close> shows that the search ends without it and that the bound
  changes nothing while fewer addresses are in use. The loops of the worker and the reconciler
  run over the list of their turns and ticks, that of the API over its events. No other
  definition has fuel: all are total. Generations and counts are integers with the checks of the
  code; the \<^verbatim>\<open>bigint\<close> range appears where values cross the wire (\<open>max_bigint\<close>).

  CONCURRENCY. An operation on the session store or the in-memory service runs under one lock, a
  transaction of the store is serialized by its row locks; both are one step. A request, a run of
  the reconciler and a round of the agent are sequences of such steps, and the invariants hold
  after each of them.

  NOT MODELLED. Sockets, the TLS handshake, process signals beyond their event, the grace period
  of \<^verbatim>\<open>Shutdown\<close>, log texts, \<^verbatim>\<open>Ping\<close> and \<^verbatim>\<open>Close\<close> of the pool beyond their result, and contexts
  with their timeouts (a timed out call is a failed call, as is a text PostgreSQL refuses because
  it is not UTF-8 or holds a zero byte, for instance a reason that \<open>RetrySnapshot\<close> cut inside a
  character). A request of \<open>api_handle\<close> is served whole before the next event: one that is cut off
  when \<^verbatim>\<open>main\<close> returns during \<^verbatim>\<open>Shutdown\<close> is covered only as far as its database calls fail.
  The redirect of the standard mux is its status and headers, without the short HTML text that
  \<^verbatim>\<open>http.Redirect\<close> adds for a browser. The clients (\<^verbatim>\<open>clients\<close>: Kotlin, C#,
  Swift) and the deployment files are other programs.
\<close>

end
